(* ===== verification/Prelude.thy ===== *)
theory Prelude
  imports Complex_Main "HOL-Library.Word" "HOL-Library.State_Monad"
begin

text \<open>
  The vocabulary shared by every component of the gateway: the fixed-width integers of
  \<^verbatim>\<open><cstdint>\<close>, the big-endian 16-bit fields of Modbus frames, the
  \<^verbatim>\<open>std::optional\<close> guards, and the generic list facts the component proofs use.
  The helpers \<^verbatim>\<open>readU16\<close> and \<^verbatim>\<open>appendU16\<close> are written out in an anonymous
  namespace of \<^verbatim>\<open>NorthboundModbusTcpServer.cpp\<close>, \<^verbatim>\<open>PosixModbusTcpClient.cpp\<close>,
  \<^verbatim>\<open>MbusNode.cpp\<close> and \<^verbatim>\<open>EthernetControlServer.cpp\<close>; the copies have the same body, so
  they are one definition here.
\<close>

unbundle bit_operations_syntax

type_synonym u8 = "8 word"
type_synonym u16 = "16 word"
type_synonym u32 = "32 word"
type_synonym u64 = "64 word"

named_theorems bytes "facts about the big-endian byte encoding of registers"
named_theorems regs "facts about register arrays and their updates"
named_theorems monitor "rules of the write monitor"

section \<open>Rewriting\<close>

text \<open>Programs in the state monad are rewritten to projections of the run of their first step, and
  a signed word keeps the form \<open>of_int (sint w)\<close>.\<close>

declare of_int_sint [simp del]
declare State_Monad.run_state_bind [simp del]

lemma run_bind [simp]:
  "run_state (State_Monad.bind m f) w = run_state (f (fst (run_state m w))) (snd (run_state m w))"
  by (simp add: State_Monad.bind_def case_prod_beta)

section \<open>Casts between widths\<close>

lemma one_le_word: "1 \<le> (a :: 'a::len word) \<longleftrightarrow> a \<noteq> 0"
  by (simp add: word_le_nat_alt Suc_le_eq unat_gt_0)

lemma unat_ucast_take: "unat (ucast (w :: 'a::len word) :: 'b::len word) = take_bit LENGTH('b) (unat w)"
  by (simp add: unsigned_ucast_eq unsigned_take_bit_eq)

lemma unat_ucast_up8 [simp]: "unat (ucast (x :: u8) :: u16) = unat x"
proof -
  have "unat x < 256" using unsigned_less [of x, where ?'a = nat] by simp
  then show ?thesis unfolding unat_ucast_take by (intro take_bit_nat_eq_self) simp
qed

lemma unat_ucast_down8: "unat (a :: u16) < 256 \<Longrightarrow> unat (ucast a :: u8) = unat a"
  unfolding unat_ucast_take by (intro take_bit_nat_eq_self) simp

lemma ucast_ucast8: "unat (a :: u16) < 256 \<Longrightarrow> ucast (ucast a :: u8) = a"
  by (rule word_unat_eq_iff [THEN iffD2]) (simp add: unat_ucast_down8)

section \<open>Big-endian registers in byte sequences\<close>

definition be16 :: "u8 \<Rightarrow> u8 \<Rightarrow> u16" where
  "be16 hi lo = push_bit 8 (ucast hi) OR ucast lo"

definition readU16 :: "u8 list \<Rightarrow> nat \<Rightarrow> u16" where
  "readU16 bytes offset = be16 (bytes ! offset) (bytes ! (offset + 1))"

definition u16_bytes :: "u16 \<Rightarrow> u8 list" where
  "u16_bytes v = [ucast (drop_bit 8 v), ucast (v AND 0xFF)]"

definition appendU16 :: "u8 list \<Rightarrow> u16 \<Rightarrow> u8 list" where
  "appendU16 bytes v = bytes @ u16_bytes v"

text \<open>A run of registers, in the order the loops over \<^verbatim>\<open>appendU16\<close> emit them.\<close>

definition words_bytes :: "u16 list \<Rightarrow> u8 list" where
  "words_bytes ws = concat (map u16_bytes ws)"

text \<open>The loops \<^verbatim>\<open>values.push_back(readU16(pdu, base + index * 2))\<close>.\<close>

definition readWords :: "u8 list \<Rightarrow> nat \<Rightarrow> nat \<Rightarrow> u16 list" where
  "readWords bytes base count = map (\<lambda>index. readU16 bytes (base + index * 2)) [0..<count]"

lemma length_u16_bytes [simp]: "length (u16_bytes v) = 2"
  by (simp add: u16_bytes_def)

lemma length_words_bytes [simp]: "length (words_bytes ws) = 2 * length ws"
  by (induction ws) (auto simp: words_bytes_def)

lemma words_bytes_simps [simp]:
  "words_bytes [] = []"
  "words_bytes (w # ws) = u16_bytes w @ words_bytes ws"
  by (simp_all add: words_bytes_def)

lemma length_readWords [simp]: "length (readWords bs b n) = n"
  by (simp add: readWords_def)

lemma low_byte_mask [simp]: "ucast (v AND 0xFF :: u16) = (ucast v :: u8)"
proof -
  have "v AND 0xFF = take_bit 8 v"
    by (simp add: take_bit_eq_mask mask_eq_exp_minus_1)
  then show ?thesis
    by (auto intro!: bit_word_eqI simp: bit_simps)
qed

lemma be16_split [bytes]: "be16 (ucast (drop_bit 8 v)) (ucast v) = v"
  by (rule bit_word_eqI) (auto simp: be16_def bit_simps)

lemma be16_hi [bytes]: "ucast (drop_bit 8 (be16 h l)) = h"
  by (rule bit_word_eqI) (auto simp: be16_def bit_simps dest: bit_imp_le_length)

lemma be16_lo [bytes]: "ucast (be16 h l) = l"
  by (rule bit_word_eqI) (auto simp: be16_def bit_simps)

lemma u16_bytes_be16 [bytes]: "u16_bytes (be16 h l) = [h, l]"
  by (simp add: u16_bytes_def be16_hi be16_lo)

lemma readU16_u16_bytes [bytes]: "readU16 (u16_bytes v @ rest) 0 = v"
  by (simp add: readU16_def u16_bytes_def be16_split)

lemma readU16_drop [bytes]: "readU16 (pre @ bs) (length pre + i) = readU16 bs i"
  by (simp add: readU16_def nth_append)

lemma readU16_at:
  "length pre = n \<Longrightarrow> readU16 (pre @ u16_bytes v @ rest) n = v"
  using readU16_drop [of pre "u16_bytes v @ rest" 0] by (simp add: readU16_u16_bytes)

lemma u16_bytes_readU16:
  "i + 1 < length bs \<Longrightarrow> u16_bytes (readU16 bs i) = [bs ! i, bs ! (i + 1)]"
  by (simp add: readU16_def u16_bytes_be16)

text \<open>The two directions of the register-run round trip.\<close>

lemma readWords_words_bytes:
  "readWords (pre @ words_bytes ws @ rest) (length pre) (length ws) = ws"
proof (induction ws arbitrary: pre)
  case Nil
  then show ?case by (simp add: readWords_def)
next
  case (Cons w ws)
  have "readWords (pre @ words_bytes (w # ws) @ rest) (length pre) (length (w # ws)) =
      readU16 (pre @ u16_bytes w @ words_bytes ws @ rest) (length pre)
      # readWords ((pre @ u16_bytes w) @ words_bytes ws @ rest) (length (pre @ u16_bytes w)) (length ws)"
    by (simp add: readWords_def upt_conv_Cons map_Suc_upt [symmetric] del: upt_Suc)
  also have "\<dots> = w # ws"
    using Cons.IH [of "pre @ u16_bytes w"] by (simp add: readU16_at)
  finally show ?case .
qed

lemma words_bytes_readWords:
  assumes "length bs = 2 * n"
  shows "words_bytes (readWords (pre @ bs) (length pre) n) = bs"
  using assms
proof (induction n arbitrary: pre bs)
  case 0
  then show ?case by (simp add: readWords_def)
next
  case (Suc n)
  then obtain h l bs' where bs: "bs = h # l # bs'" "length bs' = 2 * n"
    by (metis (no_types, opaque_lifting) Suc_length_conv mult_Suc_right numeral_2_eq_2 add_2_eq_Suc)
  have "readWords (pre @ bs) (length pre) (Suc n) =
      readU16 (pre @ bs) (length pre) # readWords ((pre @ [h, l]) @ bs') (length (pre @ [h, l])) n"
    by (simp add: readWords_def upt_conv_Cons map_Suc_upt [symmetric] bs del: upt_Suc)
  moreover have "readU16 (pre @ bs) (length pre) = be16 h l"
    by (simp add: readU16_def nth_append bs)
  ultimately show ?case
    using Suc.IH [OF bs(2), of "pre @ [h, l]"] by (simp add: u16_bytes_be16 bs del: append_assoc)
qed

section \<open>Overwriting a run of registers\<close>

text \<open>\<^verbatim>\<open>std::copy(values.begin(), values.end(), registers.begin() + start)\<close>, for a run that fits.\<close>

definition overwrite :: "'a list \<Rightarrow> nat \<Rightarrow> 'a list \<Rightarrow> 'a list" where
  "overwrite xs start vs = take start xs @ vs @ drop (start + length vs) xs"

lemma length_overwrite [simp, regs]: "start + length vs \<le> length xs \<Longrightarrow> length (overwrite xs start vs) = length xs"
  by (simp add: overwrite_def)

lemma nth_overwrite [regs]:
  assumes "start + length vs \<le> length xs" "i < length xs"
  shows "overwrite xs start vs ! i = (if start \<le> i \<and> i < start + length vs then vs ! (i - start) else xs ! i)"
  using assms by (auto simp: overwrite_def nth_append min_def)

lemma overwrite_range [regs]:
  assumes "start + length vs \<le> length xs"
  shows "take (length vs) (drop start (overwrite xs start vs)) = vs"
  using assms by (simp add: overwrite_def min_def)

end
