(* ===== verification/MbusNode.thy ===== *)
theory MbusNode
  imports Prelude
begin

text \<open>
  The node's register device \<^verbatim>\<open>MbusNode\<close> (\<^verbatim>\<open>node-esp32-evb/include/gridex/mbus/{RegisterMap,MbusNode}.hpp\<close>,
  \<^verbatim>\<open>src/MbusNode.cpp\<close>): the canonical register map, the Modbus RTU checksum, the frame handler and
  provisioning. The scoped enums \<^verbatim>\<open>NodeType\<close> and \<^verbatim>\<open>NodeState\<close> are cast from arbitrary register
  values, so they are 16-bit words here with named constants.
\<close>

section \<open>The register map\<close>

definition G_Magic :: nat where [simp]: "G_Magic = 0"
definition G_MapVersion :: nat where [simp]: "G_MapVersion = 1"
definition G_NodeType :: nat where [simp]: "G_NodeType = 2"
definition G_NodeState :: nat where [simp]: "G_NodeState = 3"
definition G_NodeAddress :: nat where [simp]: "G_NodeAddress = 4"
definition G_DriverId :: nat where [simp]: "G_DriverId = 5"
definition G_Quality :: nat where [simp]: "G_Quality = 6"
definition G_Uid0 :: nat where [simp]: "G_Uid0 = 7"
definition G_Uid1 :: nat where [simp]: "G_Uid1 = 8"
definition G_Uid2 :: nat where [simp]: "G_Uid2 = 9"
definition G_Uid3 :: nat where [simp]: "G_Uid3 = 10"
definition G_UptimeLow :: nat where [simp]: "G_UptimeLow = 11"
definition G_Heartbeat :: nat where [simp]: "G_Heartbeat = 12"
definition G_RequestedAddress :: nat where [simp]: "G_RequestedAddress = 16"
definition G_RequestedNodeType :: nat where [simp]: "G_RequestedNodeType = 17"
definition G_RequestedDriverId :: nat where [simp]: "G_RequestedDriverId = 18"
definition G_ApplyConfiguration :: nat where [simp]: "G_ApplyConfiguration = 19"
definition G_CommandSequence :: nat where [simp]: "G_CommandSequence = 20"
definition G_RequestedPowerKwX10 :: nat where [simp]: "G_RequestedPowerKwX10 = 21"
definition G_CommandEnable :: nat where [simp]: "G_CommandEnable = 22"
definition G_CommandTtlSeconds :: nat where [simp]: "G_CommandTtlSeconds = 23"
definition G_LastCommandResult :: nat where [simp]: "G_LastCommandResult = 24"
definition G_AppliedPowerKwX10 :: nat where [simp]: "G_AppliedPowerKwX10 = 25"
definition G_ActualPowerKwX10 :: nat where [simp]: "G_ActualPowerKwX10 = 64"
definition G_EnergyWhHigh :: nat where [simp]: "G_EnergyWhHigh = 65"
definition G_EnergyWhLow :: nat where [simp]: "G_EnergyWhLow = 66"
definition G_DeviceState :: nat where [simp]: "G_DeviceState = 67"
definition G_AlarmBits :: nat where [simp]: "G_AlarmBits = 68"
definition G_CloudConnected :: nat where [simp]: "G_CloudConnected = 69"
definition G_DriverSpecificStart :: nat where [simp]: "G_DriverSpecificStart = 80"
definition G_HoldingCount :: nat where [simp]: "G_HoldingCount = 128"
definition G_MagicValue :: u16 where [simp]: "G_MagicValue = 0x4758"
definition G_EthernetStatus :: nat where [simp]: "G_EthernetStatus = 70"
definition G_ModbusTcpStatus :: nat where [simp]: "G_ModbusTcpStatus = 71"
definition G_DriverReady :: nat where [simp]: "G_DriverReady = 72"
definition G_DeviceBusStatus :: nat where [simp]: "G_DeviceBusStatus = 73"
definition G_WatchdogStatus :: nat where [simp]: "G_WatchdogStatus = 74"
definition G_RecoveryCount :: nat where [simp]: "G_RecoveryCount = 75"
definition G_EthernetRecoveryCount :: nat where [simp]: "G_EthernetRecoveryCount = 76"
definition G_BusRecoveryCount :: nat where [simp]: "G_BusRecoveryCount = 77"
definition G_LastError :: nat where [simp]: "G_LastError = 78"
definition G_MapVersionValue :: u16 where [simp]: "G_MapVersionValue = 0x0005"
definition G_ApplyKey :: u16 where [simp]: "G_ApplyKey = 0xA55A"

definition NodeType_Unconfigured :: u16 where [simp]: "NodeType_Unconfigured = 0"
definition NodeType_Inverter :: u16 where [simp]: "NodeType_Inverter = 1"
definition NodeType_BatteryBms :: u16 where [simp]: "NodeType_BatteryBms = 2"
definition NodeType_AllInOneBess :: u16 where [simp]: "NodeType_AllInOneBess = 3"
definition NodeType_Meter :: u16 where [simp]: "NodeType_Meter = 4"
definition NodeType_Evse :: u16 where [simp]: "NodeType_Evse = 5"
definition NodeType_SecondCabinet :: u16 where [simp]: "NodeType_SecondCabinet = 6"

definition NodeState_Boot :: u16 where [simp]: "NodeState_Boot = 0"
definition NodeState_AwaitingAddress :: u16 where [simp]: "NodeState_AwaitingAddress = 1"
definition NodeState_Ready :: u16 where [simp]: "NodeState_Ready = 2"
definition NodeState_DriverMissing :: u16 where [simp]: "NodeState_DriverMissing = 3"
definition NodeState_Fault :: u16 where [simp]: "NodeState_Fault = 4"

section \<open>The node\<close>

record node_config =
  cf_address :: u8
  cf_type :: u16
  cf_driverId :: u16
  cf_uid :: u64

record mbus_node =
  nd_config :: node_config
  nd_registers :: "u16 list"
  nd_configurationChanged :: bool

definition temporaryAddress :: "u64 \<Rightarrow> u8" where
  "temporaryAddress uid =
     (let folded0 = ucast uid XOR ucast (drop_bit 32 uid) :: u32;
          folded = folded0 XOR drop_bit 16 folded0
      in ucast (200 + folded mod 48))"

definition initializeIdentity :: "mbus_node \<Rightarrow> mbus_node" where
  "initializeIdentity nd = (let c = nd_config nd in nd\<lparr>nd_registers := (nd_registers nd)
     [G_Magic := G_MagicValue, G_MapVersion := G_MapVersionValue, G_NodeType := cf_type c,
      G_NodeState := (if cf_type c = NodeType_Unconfigured then NodeState_AwaitingAddress else NodeState_DriverMissing),
      G_NodeAddress := ucast (cf_address c), G_DriverId := cf_driverId c,
      G_Uid0 := ucast (drop_bit 48 (cf_uid c)), G_Uid1 := ucast (drop_bit 32 (cf_uid c)),
      G_Uid2 := ucast (drop_bit 16 (cf_uid c)), G_Uid3 := ucast (cf_uid c),
      G_RequestedAddress := ucast (cf_address c), G_RequestedNodeType := cf_type c,
      G_RequestedDriverId := cf_driverId c]\<rparr>)"

definition new_node :: "node_config \<Rightarrow> mbus_node" where
  "new_node config = initializeIdentity \<lparr>nd_config = (if cf_address config = 0
       then config\<lparr>cf_address := temporaryAddress (cf_uid config)\<rparr> else config),
     nd_registers = replicate G_HoldingCount 0, nd_configurationChanged = False\<rparr>"

section \<open>The checksum\<close>

definition crc_bit :: "u16 \<Rightarrow> u16" where
  "crc_bit crc = (let lsb = (crc AND 1 \<noteq> 0); shifted = drop_bit 1 crc in if lsb then shifted XOR 0xA001 else shifted)"

definition crc_byte :: "u16 \<Rightarrow> u8 \<Rightarrow> u16" where
  "crc_byte crc b = (crc_bit ^^ 8) (crc XOR ucast b)"

definition crc16 :: "u8 list \<Rightarrow> u16" where
  "crc16 bytes = foldl crc_byte 0xFFFF bytes"

definition withCrc :: "u8 list \<Rightarrow> u8 list" where
  "withCrc response = (let crc = crc16 response in response @ [ucast (crc AND 0xFF), ucast (drop_bit 8 crc)])"

definition exception_rtu :: "u8 \<Rightarrow> u8 \<Rightarrow> u8 \<Rightarrow> u8 list" where
  "exception_rtu requestAddress function code = withCrc [requestAddress, function OR 0x80, code]"

section \<open>Provisioning\<close>

definition validType :: "u16 \<Rightarrow> bool" where
  "validType type \<longleftrightarrow> type = NodeType_Inverter \<or> type = NodeType_BatteryBms \<or> type = NodeType_AllInOneBess \<or>
     type = NodeType_Meter \<or> type = NodeType_Evse \<or> type = NodeType_SecondCabinet"

definition provision :: "mbus_node \<Rightarrow> u8 \<Rightarrow> u16 \<Rightarrow> u16 \<Rightarrow> bool \<times> mbus_node" where
  "provision nd address type driverId =
     (if address < 1 \<or> 247 < address \<or> \<not> validType type \<or> driverId = 0 then (False, nd)
      else (True, nd\<lparr>nd_config := (nd_config nd)\<lparr>cf_address := address, cf_type := type, cf_driverId := driverId\<rparr>,
        nd_registers := (nd_registers nd)
          [G_RequestedAddress := ucast address, G_RequestedNodeType := type, G_RequestedDriverId := driverId,
           G_NodeAddress := ucast address, G_NodeType := type, G_DriverId := driverId,
           G_NodeState := NodeState_DriverMissing],
        nd_configurationChanged := True\<rparr>))"

definition applyPendingConfiguration :: "mbus_node \<Rightarrow> mbus_node" where
  "applyPendingConfiguration nd =
     (if nd_registers nd ! G_ApplyConfiguration \<noteq> G_ApplyKey then nd
      else let nd' = nd\<lparr>nd_registers := (nd_registers nd)[G_ApplyConfiguration := 0]\<rparr>;
               requestedAddress = nd_registers nd' ! G_RequestedAddress;
               requestedType = nd_registers nd' ! G_RequestedNodeType;
               requestedDriverId = nd_registers nd' ! G_RequestedDriverId
           in if 247 < requestedAddress then nd'
              else snd (provision nd' (ucast requestedAddress) requestedType requestedDriverId))"

definition setRegister :: "mbus_node \<Rightarrow> nat \<Rightarrow> u16 \<Rightarrow> mbus_node" where
  "setRegister nd address v = (if address < length (nd_registers nd)
     then nd\<lparr>nd_registers := (nd_registers nd)[address := v]\<rparr> else nd)"

definition registerValue :: "mbus_node \<Rightarrow> nat \<Rightarrow> u16" where
  "registerValue nd address = (if address < length (nd_registers nd) then nd_registers nd ! address else 0)"

definition takeConfigurationChanged :: "mbus_node \<Rightarrow> bool \<times> mbus_node" where
  "takeConfigurationChanged nd = (nd_configurationChanged nd, nd\<lparr>nd_configurationChanged := False\<rparr>)"

section \<open>The frame handler\<close>

definition processFrame :: "mbus_node \<Rightarrow> u8 list \<Rightarrow> u8 list \<times> mbus_node" where
  "processFrame nd frame =
     (let sz = length frame in
      if sz < 4 then ([], nd)
      else if crc16 (take (sz - 2) frame) \<noteq> ucast (frame ! (sz - 2)) OR push_bit 8 (ucast (frame ! (sz - 1))) then ([], nd)
      else let requestAddress = frame ! 0; broadcast = (requestAddress = 0) in
      if \<not> broadcast \<and> requestAddress \<noteq> cf_address (nd_config nd) then ([], nd)
      else let function = frame ! 1; regs = nd_registers nd in
      if (function = 0x03 \<or> function = 0x04) \<and> sz = 8 then
        (if broadcast then ([], nd)
         else let start = readU16 frame 2; count = readU16 frame 4 in
         if count = 0 \<or> 64 < count \<or> length regs < unat start + unat count
         then (exception_rtu requestAddress function 0x02, nd)
         else (withCrc (foldl appendU16 [requestAddress, function, ucast (count * 2)]
                 (map (\<lambda>i. regs ! (unat start + i)) [0..<unat count])), nd))
      else if function = 0x06 \<and> sz = 8 then
        (let address = readU16 frame 2; v = readU16 frame 4 in
         if length regs \<le> unat address
         then (if broadcast then [] else exception_rtu requestAddress function 0x02, nd)
         else let nd' = applyPendingConfiguration (nd\<lparr>nd_registers := regs[unat address := v]\<rparr>)
              in (if broadcast then [] else frame, nd'))
      else if function = 0x10 \<and> 9 \<le> sz then
        (let start = readU16 frame 2; count = readU16 frame 4; byteCount = frame ! 6 in
         if count = 0 \<or> unat byteCount \<noteq> unat count * 2 \<or> sz \<noteq> 9 + unat byteCount \<or>
            length regs < unat start + unat count
         then (if broadcast then [] else exception_rtu requestAddress function 0x03, nd)
         else let nd' = applyPendingConfiguration
                (nd\<lparr>nd_registers := overwrite regs (unat start) (readWords frame 7 (unat count))\<rparr>)
              in (if broadcast then [] else withCrc (appendU16 (appendU16 [requestAddress, function] start) count), nd'))
      else (if broadcast then [] else exception_rtu requestAddress function 0x01, nd))"

section \<open>The checksum detects every error inside one byte\<close>

lemma crc_bit_alt: "crc_bit x = drop_bit 1 x XOR (if bit x 0 then 0xA001 else 0)"
  by (simp add: crc_bit_def Let_def and_one_eq bit_0 odd_iff_mod_2_eq_one)

lemma crc_bit_15: "bit (crc_bit x) 15 = bit x 0"
proof -
  have "bit (0xA001 :: u16) 15" by simp
  then show ?thesis by (auto simp: crc_bit_alt bit_simps dest: bit_imp_le_length)
qed

lemma xor_cancel: "c XOR a = c XOR b \<Longrightarrow> a = (b :: u16)"
  by (metis xor.assoc xor_self_eq xor.left_neutral)

lemma xor_cancel_right: "a XOR c = b XOR c \<Longrightarrow> a = (b :: u16)"
  by (metis xor.commute xor_cancel)

lemma crc_bit_inj: "crc_bit x = crc_bit y \<Longrightarrow> x = y"
proof -
  assume eq: "crc_bit x = crc_bit y"
  then have b0: "bit x 0 = bit y 0" using crc_bit_15 by metis
  define m :: u16 where "m = (if bit x 0 then 0xA001 else 0)"
  have "drop_bit 1 x XOR m = drop_bit 1 y XOR m"
    using eq b0 unfolding crc_bit_alt m_def by (simp only:)
  then have d: "drop_bit 1 x = drop_bit 1 y" by (rule xor_cancel_right)
  show "x = y"
  proof (rule bit_word_eqI)
    fix n
    show "bit x n = bit y n"
      using b0 arg_cong [OF d, of "\<lambda>z. bit z (n - 1)"] by (cases n) (auto simp: bit_simps)
  qed
qed

lemma crc_bits_inj: "(crc_bit ^^ k) x = (crc_bit ^^ k) y \<Longrightarrow> x = y"
  by (induction k arbitrary: x y) (auto dest: crc_bit_inj)

lemma ucast_inj8: "(ucast x :: u16) = ucast y \<Longrightarrow> x = (y :: u8)"
  by (metis be16_lo be16_def)

lemma crc_byte_inj: "crc_byte c x = crc_byte d x \<Longrightarrow> c = d" "crc_byte c x = crc_byte c y \<Longrightarrow> x = y"
  unfolding crc_byte_def by (blast dest: crc_bits_inj xor_cancel_right xor_cancel ucast_inj8)+

lemma crc_fold_inj: "foldl crc_byte c bs = foldl crc_byte d bs \<Longrightarrow> c = d"
  by (induction bs arbitrary: c d) (auto dest: crc_byte_inj)

lemma crc16_update:
  assumes "i < length bs" "b \<noteq> bs ! i" shows "crc16 (bs[i := b]) \<noteq> crc16 bs"
proof
  assume "crc16 (bs[i := b]) = crc16 bs"
  moreover have "bs = take i bs @ bs ! i # drop (Suc i) bs" using assms(1) by (rule id_take_nth_drop)
  ultimately have "foldl crc_byte (foldl crc_byte 0xFFFF (take i bs)) (b # drop (Suc i) bs) =
      foldl crc_byte (foldl crc_byte 0xFFFF (take i bs)) (bs ! i # drop (Suc i) bs)"
    unfolding crc16_def using assms(1) by (metis foldl_append upd_conv_take_nth_drop)
  then have "crc_byte (foldl crc_byte 0xFFFF (take i bs)) b = crc_byte (foldl crc_byte 0xFFFF (take i bs)) (bs ! i)"
    by (simp add: crc_fold_inj)
  with assms(2) show False using crc_byte_inj(2) by blast
qed

text \<open>The little-endian checksum field of a frame.\<close>

definition received_crc :: "u8 list \<Rightarrow> u16" where
  "received_crc frame = ucast (frame ! (length frame - 2)) OR push_bit 8 (ucast (frame ! (length frame - 1)))"

definition crc_ok :: "u8 list \<Rightarrow> bool" where
  "crc_ok frame \<longleftrightarrow> 4 \<le> length frame \<and> crc16 (take (length frame - 2) frame) = received_crc frame"

lemma received_crc_be16: "received_crc frame = be16 (frame ! (length frame - 1)) (frame ! (length frame - 2))"
  by (simp add: received_crc_def be16_def or.commute)

lemma be16_inj: "be16 a b = be16 c d \<longleftrightarrow> a = c \<and> b = d"
  by (metis be16_hi be16_lo)

lemma processFrame_bad_crc: "\<not> crc_ok frame \<Longrightarrow> processFrame nd frame = ([], nd)"
  by (auto simp: processFrame_def crc_ok_def received_crc_def Let_def)

lemma crc_ok_withCrc: "2 \<le> length body \<Longrightarrow> crc_ok (withCrc body)"
  by (simp add: crc_ok_def withCrc_def received_crc_be16 nth_append be16_split Let_def)

lemma crc_ok_update:
  assumes "crc_ok frame" "i < length frame" "b \<noteq> frame ! i" shows "\<not> crc_ok (frame[i := b])"
proof (cases "i < length frame - 2")
  case True
  then have "crc16 (take (length frame - 2) (frame[i := b])) \<noteq> crc16 (take (length frame - 2) frame)"
    using crc16_update [of i "take (length frame - 2) frame" b] assms(3) by (simp add: take_update_swap)
  with True assms(1) show ?thesis by (auto simp: crc_ok_def received_crc_def)
next
  case False
  with assms have "received_crc (frame[i := b]) \<noteq> received_crc frame"
    by (auto simp: received_crc_be16 be16_inj nth_list_update crc_ok_def)
  with False assms(1) show ?thesis by (auto simp: crc_ok_def)
qed

section \<open>The invariant of the node\<close>

definition valid_address :: "u8 \<Rightarrow> bool" where
  "valid_address a \<longleftrightarrow> 1 \<le> a \<and> a \<le> 247"

definition node_ok :: "mbus_node \<Rightarrow> bool" where
  "node_ok nd \<longleftrightarrow> length (nd_registers nd) = G_HoldingCount \<and>
     nd_registers nd ! G_ApplyConfiguration \<noteq> G_ApplyKey \<and> valid_address (cf_address (nd_config nd))"

lemma temporaryAddress_range: "200 \<le> temporaryAddress uid \<and> temporaryAddress uid \<le> 247"
proof -
  define f :: u32 where "f = (let f0 = ucast uid XOR ucast (drop_bit 32 uid) :: u32 in f0 XOR drop_bit 16 f0)"
  have u: "unat (f mod 48) < 48" by (simp add: unat_mod)
  then have v: "unat (200 + f mod 48) = 200 + unat (f mod 48)"
    by (subst unat_add_lem [THEN iffD1]) auto
  have "unat (temporaryAddress uid) = take_bit 8 (unat (200 + f mod 48))"
    by (simp add: temporaryAddress_def f_def Let_def unat_ucast_take)
  also have "\<dots> = 200 + unat (f mod 48)"
    using u unfolding v by (intro take_bit_nat_eq_self) simp
  finally show ?thesis using u by (simp add: word_le_nat_alt)
qed

lemma provision_ok: "node_ok nd \<Longrightarrow> node_ok (snd (provision nd a t dr))"
  by (auto simp: provision_def node_ok_def valid_address_def not_less one_le_word)

lemma applyPending_ok:
  assumes "length (nd_registers nd) = G_HoldingCount" "valid_address (cf_address (nd_config nd))"
  shows "node_ok (applyPendingConfiguration nd)"
proof (cases "nd_registers nd ! G_ApplyConfiguration = G_ApplyKey")
  case False
  then show ?thesis using assms by (simp add: applyPendingConfiguration_def node_ok_def)
next
  case True
  have "node_ok (nd\<lparr>nd_registers := (nd_registers nd)[G_ApplyConfiguration := 0]\<rparr>)"
    using assms by (simp add: node_ok_def)
  then show ?thesis using True provision_ok
    by (auto simp: applyPendingConfiguration_def Let_def)
qed

lemma applyPending_noop: "node_ok nd \<Longrightarrow> applyPendingConfiguration nd = nd"
  by (simp add: applyPendingConfiguration_def node_ok_def)

lemma processFrame_ok: "node_ok nd \<Longrightarrow> node_ok (snd (processFrame nd frame))"
proof -
  assume ok: "node_ok nd"
  then have l: "length (nd_registers nd) = G_HoldingCount" "valid_address (cf_address (nd_config nd))"
    by (simp_all add: node_ok_def)
  then have "node_ok (applyPendingConfiguration (nd\<lparr>nd_registers := regs\<rparr>))" if "length regs = G_HoldingCount" for regs
    using that by (intro applyPending_ok) simp_all
  with ok l show ?thesis
    by (simp add: processFrame_def Let_def)
qed

lemma new_node_ok:
  assumes "cf_address config \<le> 247" shows "node_ok (new_node config)"
proof -
  have "temporaryAddress (cf_uid config) \<noteq> 0" "temporaryAddress (cf_uid config) \<le> 247"
    using temporaryAddress_range [of "cf_uid config"] by auto
  with assms show ?thesis by (auto simp: one_le_word new_node_def initializeIdentity_def node_ok_def valid_address_def Let_def)
qed

section \<open>Properties\<close>

text \<open>
  The checksum stops every corruption confined to one byte: when any single
  byte of a frame with a correct checksum is changed (in the address, the data or the checksum
  itself), the node answers nothing and its state does not change.
\<close>

theorem crc_stops_byte_errors:
  assumes "crc_ok frame" "i < length frame" "b \<noteq> frame ! i"
  shows "processFrame nd (frame[i := b]) = ([], nd)"
  using crc_ok_update [OF assms] by (rule processFrame_bad_crc)

text \<open>
  A node keeps 128 registers, an address a master can reach (1 to 247) and a
  consumed apply key, from construction on and through every frame whatsoever and every provisioning
  call.
\<close>

theorem node_invariant:
  "(cf_address config \<le> 247 \<longrightarrow> node_ok (new_node config)) \<and>
   (node_ok nd \<longrightarrow> node_ok (snd (processFrame nd frame)) \<and> node_ok (snd (provision nd a t dr)) \<and>
      node_ok (snd (takeConfigurationChanged nd)))"
  using new_node_ok processFrame_ok provision_ok by (auto simp: takeConfigurationChanged_def node_ok_def)

theorem node_invariant_witness:
  "node_ok (snd (processFrame (new_node \<lparr>cf_address = 0, cf_type = 0, cf_driverId = 0, cf_uid = 0x1234\<rparr>) [1, 2, 3]))"
  using node_invariant [of "\<lparr>cf_address = 0, cf_type = 0, cf_driverId = 0, cf_uid = 0x1234\<rparr>"
      "new_node \<lparr>cf_address = 0, cf_type = 0, cf_driverId = 0, cf_uid = 0x1234\<rparr>" "[1, 2, 3]"] by simp

text \<open>
  Provisioning through the registers is one-shot and validated: when the
  apply key is found, it is cleared; the configuration changes exactly when the requested address,
  type and driver are all valid, and then registers and configuration agree and the change is flagged;
  applying again without a new key does nothing.
\<close>

theorem provisioning_one_shot:
  assumes "length (nd_registers nd) = G_HoldingCount" "nd_registers nd ! G_ApplyConfiguration = G_ApplyKey"
    "valid_address (cf_address (nd_config nd))"
  shows "let nd' = applyPendingConfiguration nd; regs = nd_registers nd;
      valid = 1 \<le> regs ! G_RequestedAddress \<and> regs ! G_RequestedAddress \<le> 247 \<and>
        validType (regs ! G_RequestedNodeType) \<and> regs ! G_RequestedDriverId \<noteq> 0
    in nd_registers nd' ! G_ApplyConfiguration = 0 \<and> applyPendingConfiguration nd' = nd' \<and>
      (\<not> valid \<longrightarrow> nd_config nd' = nd_config nd \<and> nd_configurationChanged nd' = nd_configurationChanged nd) \<and>
      (valid \<longrightarrow> nd_configurationChanged nd' \<and> ucast (cf_address (nd_config nd')) = regs ! G_RequestedAddress \<and>
        cf_type (nd_config nd') = regs ! G_RequestedNodeType \<and> cf_driverId (nd_config nd') = regs ! G_RequestedDriverId \<and>
        nd_registers nd' ! G_NodeAddress = regs ! G_RequestedAddress \<and>
        nd_registers nd' ! G_NodeType = cf_type (nd_config nd') \<and> nd_registers nd' ! G_DriverId = cf_driverId (nd_config nd'))"
proof -
  define a where "a = nd_registers nd ! G_RequestedAddress"
  have id: "applyPendingConfiguration (applyPendingConfiguration nd) = applyPendingConfiguration nd"
    using applyPending_noop [OF applyPending_ok [OF assms(1,3)]] .
  have small: "unat a < 256" if "a \<le> 247" using that by (simp add: word_le_nat_alt)
  have uc: "ucast (ucast a :: u8) = a" "(ucast a :: u8) < 1 \<longleftrightarrow> a < 1" "\<not> 247 < (ucast a :: u8)" if "a \<le> 247"
    using that small [OF that] by (simp_all add: ucast_ucast8 word_less_nat_alt word_le_nat_alt unat_ucast_down8)
  show ?thesis
    using assms id uc unfolding Let_def
    by (auto simp: applyPendingConfiguration_def provision_def a_def [symmetric, simplified] Let_def not_less one_le_word)
qed

definition meter_request :: mbus_node where
  "meter_request = (let nd = new_node \<lparr>cf_address = 0, cf_type = 0, cf_driverId = 0, cf_uid = 0x1234\<rparr>
     in nd\<lparr>nd_registers := (nd_registers nd)[G_RequestedAddress := 7, G_RequestedNodeType := NodeType_Meter,
       G_RequestedDriverId := 9, G_ApplyConfiguration := G_ApplyKey]\<rparr>)"

theorem provisioning_one_shot_witness:
  "cf_type (nd_config (applyPendingConfiguration meter_request)) = NodeType_Meter"
proof -
  have ok: "node_ok (new_node \<lparr>cf_address = 0, cf_type = 0, cf_driverId = 0, cf_uid = 0x1234\<rparr>)"
    by (rule new_node_ok) simp
  then have "length (nd_registers meter_request) = G_HoldingCount"
    "nd_registers meter_request ! G_ApplyConfiguration = G_ApplyKey"
    "valid_address (cf_address (nd_config meter_request))"
    by (simp_all add: meter_request_def node_ok_def Let_def)
  from provisioning_one_shot [OF this] ok show ?thesis
    by (simp add: meter_request_def node_ok_def Let_def validType_def)
qed

end
