(* ===== verification/ModbusTcp.thy ===== *)
theory ModbusTcp
  imports Prelude
begin

text \<open>
  The Modbus TCP frame (MBAP header and PDU) both ends of the gateway build, and the locale
  \<open>register_server\<close>: what a Modbus TCP server promises about the requests a client sends. The client
  lemmas are proved from this contract in the theory of the POSIX client; the northbound server of
  the Rock Pi and the control server of the ESP32 node discharge it.
\<close>

definition mbap :: "u16 \<Rightarrow> u8 \<Rightarrow> u8 list \<Rightarrow> u8 list" where
  "mbap tid unitId pdu = u16_bytes tid @ u16_bytes 0 @ u16_bytes (of_nat (length pdu + 1)) @ [unitId] @ pdu"

lemma length_mbap [simp]: "length (mbap tid u pdu) = 7 + length pdu"
  by (simp add: mbap_def)

lemma mbap_fields [simp]:
  "readU16 (mbap tid u pdu) 0 = tid" "readU16 (mbap tid u pdu) 2 = 0"
  "readU16 (mbap tid u pdu) 4 = of_nat (length pdu + 1)" "mbap tid u pdu ! 6 = u"
  "take 7 (mbap tid u pdu) = u16_bytes tid @ u16_bytes 0 @ u16_bytes (of_nat (length pdu + 1)) @ [u]"
  "drop 7 (mbap tid u pdu) = pdu"
  using readU16_at [of "[]" 0 tid] readU16_at [of "u16_bytes tid" 2 0] readU16_at [of "u16_bytes tid @ u16_bytes 0" 4]
  by (simp_all add: mbap_def nth_append)

lemma readU16_take [simp]: "i + 1 < n \<Longrightarrow> readU16 (take n bs) i = readU16 bs i"
  by (simp add: readU16_def)

lemma unat_of_nat16: "n < 65536 \<Longrightarrow> unat (of_nat n :: u16) = n"
  by (simp add: unat_of_nat take_bit_nat_eq_self)

lemma unat_of_nat8: "n < 256 \<Longrightarrow> unat (of_nat n :: u8) = n"
  by (simp add: unat_of_nat take_bit_nat_eq_self)

lemma foldl_appendU16: "foldl appendU16 bs ws = bs @ words_bytes ws"
  by (induction ws arbitrary: bs) (simp_all add: appendU16_def)

section \<open>Requests and replies\<close>

definition read_pdu :: "u8 \<Rightarrow> u16 \<Rightarrow> u16 \<Rightarrow> u8 list" where
  "read_pdu function start count = function # u16_bytes start @ u16_bytes count"

definition write_pdu :: "u16 \<Rightarrow> u16 \<Rightarrow> u8 list" where
  "write_pdu address v = 0x06 # u16_bytes address @ u16_bytes v"

definition write_range_pdu :: "u16 \<Rightarrow> u16 list \<Rightarrow> u8 list" where
  "write_range_pdu start vs = 0x10 # u16_bytes start @ u16_bytes (of_nat (length vs)) @
     of_nat (length vs * 2) # words_bytes vs"

definition read_reply :: "u8 \<Rightarrow> u16 list \<Rightarrow> u8 list" where
  "read_reply function vs = function # of_nat (length vs * 2) # words_bytes vs"

lemma length_pdus [simp]:
  "length (read_pdu f s n) = 5" "length (write_pdu a v) = 5"
  "length (write_range_pdu s vs) = 6 + 2 * length vs" "length (read_reply f vs) = 2 + 2 * length vs"
  by (simp_all add: read_pdu_def write_pdu_def write_range_pdu_def read_reply_def)

lemma pdu_fields [simp]:
  "read_pdu f s n ! 0 = f" "readU16 (read_pdu f s n) 1 = s" "readU16 (read_pdu f s n) 3 = n"
  "write_pdu a v ! 0 = 6" "readU16 (write_pdu a v) 1 = a" "readU16 (write_pdu a v) 3 = v"
  "write_range_pdu s vs ! 0 = 0x10" "readU16 (write_range_pdu s vs) 1 = s"
  "readU16 (write_range_pdu s vs) 3 = of_nat (length vs)" "write_range_pdu s vs ! 5 = of_nat (length vs * 2)"
  using readU16_at [of "[x]" 1 y "u16_bytes z @ r" for x y z r] readU16_at [of "x # u16_bytes y" 3 z r for x y z r]
    readU16_at [of "[x]" 1 y "u16_bytes z" for x y z] readU16_at [of "x # u16_bytes y" 3 z "[]" for x y z]
  by (simp_all add: read_pdu_def write_pdu_def write_range_pdu_def nth_append u16_bytes_def readU16_def be16_split)

lemmas pdu_fields_Suc [simp] = pdu_fields [unfolded One_nat_def]

lemma readWords_write_range [simp]: "readWords (write_range_pdu s vs) 6 (length vs) = vs"
  using readWords_words_bytes [of "take 6 (write_range_pdu s vs)" vs "[]"]
  by (simp add: write_range_pdu_def u16_bytes_def eval_nat_numeral)

lemma readWords_read_reply [simp]: "readWords (read_reply f vs) 2 (length vs) = vs"
  using readWords_words_bytes [of "[f, of_nat (length vs * 2)]" vs "[]"] by (simp add: read_reply_def numeral_2_eq_2)

section \<open>The contract of a register server\<close>

text \<open>
  \<open>serve s adu\<close> is the reply to a complete frame (empty when there is none) and the new state. The
  server exposes a file of holding registers and one of input registers, answers reads of at most
  \<open>maxRead\<close> registers, accepts writes to the runs \<open>writable\<close> allows, and refuses any other write
  without a state change.
\<close>

locale register_server =
  fixes serve :: "'s \<Rightarrow> u8 list \<Rightarrow> u8 list \<times> 's" and unitId :: u8 and good :: "'s \<Rightarrow> bool"
    and holding :: "'s \<Rightarrow> u16 list" and inputs :: "'s \<Rightarrow> u16 list" and maxRead :: nat
    and writable :: "nat \<Rightarrow> nat \<Rightarrow> bool"
  assumes read_holding: "good s \<Longrightarrow> 0 < unat n \<Longrightarrow> unat n \<le> maxRead \<Longrightarrow> unat a + unat n \<le> length (holding s) \<Longrightarrow>
      serve s (mbap tid unitId (read_pdu 0x03 a n)) =
        (mbap tid unitId (read_reply 0x03 (take (unat n) (drop (unat a) (holding s)))), s)"
    and read_input: "good s \<Longrightarrow> 0 < unat n \<Longrightarrow> unat n \<le> maxRead \<Longrightarrow> unat a + unat n \<le> length (inputs s) \<Longrightarrow>
      serve s (mbap tid unitId (read_pdu 0x04 a n)) =
        (mbap tid unitId (read_reply 0x04 (take (unat n) (drop (unat a) (inputs s)))), s)"
    and write_single: "good s \<Longrightarrow> writable (unat a) 1 \<Longrightarrow>
      \<exists>s'. serve s (mbap tid unitId (write_pdu a v)) = (mbap tid unitId (write_pdu a v), s') \<and> good s' \<and>
        holding s' = overwrite (holding s) (unat a) [v]"
    and write_range: "good s \<Longrightarrow> vs \<noteq> [] \<Longrightarrow> length vs \<le> 123 \<Longrightarrow> writable (unat a) (length vs) \<Longrightarrow>
      \<exists>s'. serve s (mbap tid unitId (write_range_pdu a vs)) =
          (mbap tid unitId (0x10 # u16_bytes a @ u16_bytes (of_nat (length vs))), s') \<and> good s' \<and>
        holding s' = overwrite (holding s) (unat a) vs"
    and write_refused: "good s \<Longrightarrow> \<not> writable (unat a) 1 \<Longrightarrow>
      \<exists>code. serve s (mbap tid unitId (write_pdu a v)) = (mbap tid unitId [0x86, code], s)"
    and writable_fits: "writable i k \<Longrightarrow> good s \<Longrightarrow> i + k \<le> length (holding s)"

end
