(* ===== verification/EthernetServer.thy ===== *)
theory EthernetServer
  imports MbusNode ModbusTcp
begin

text \<open>
  The node's local control server \<^verbatim>\<open>EthernetControlServer\<close> (\<^verbatim>\<open>node-esp32-evb/src/EthernetControlServer.cpp\<close>):
  the Modbus TCP frame handler in front of \<^verbatim>\<open>MbusNode\<close>, the receive buffer, and the admission of
  clients. The Arduino network classes are not part of the repository: what they report during one
  call of \<^verbatim>\<open>loop\<close> is the argument \<open>eth_env\<close>. An IP address is a 32-bit word, \<^verbatim>\<open>IPAddress()\<close> is zero, and
  \<^verbatim>\<open>millis()\<close> is a 32-bit counter that wraps.
\<close>

section \<open>The frame handler\<close>

record eth_config =
  ec_port :: u16
  ec_unitId :: u8
  ec_rockPiAddress :: u32

definition appendCrc :: "u8 list \<Rightarrow> u8 list" where
  "appendCrc frame = (let crc = crc16 frame in frame @ [ucast crc, ucast (drop_bit 8 crc)])"

definition exception_adu :: "u8 list \<Rightarrow> u8 \<Rightarrow> u8 \<Rightarrow> u8 list" where
  "exception_adu adu function code = [adu ! 0, adu ! 1, 0, 0, 0, 3, adu ! 6, function OR 0x80, code]"

definition writeAllowed :: "u8 \<Rightarrow> u16 \<Rightarrow> u16 \<Rightarrow> bool" where
  "writeAllowed function start count =
     (if function \<noteq> 0x06 \<and> function \<noteq> 0x10 then True
      else if count = 0 then False
      else G_CommandSequence \<le> unat start \<and> unat start + unat count - 1 \<le> G_CommandTtlSeconds)"

definition eth_handle :: "eth_config \<Rightarrow> mbus_node \<Rightarrow> u8 list \<Rightarrow> u8 list \<times> mbus_node" where
  "eth_handle cfg node adu =
     (let sz = length adu in
      if sz < 12 \<or> readU16 adu 2 \<noteq> 0 \<or> adu ! 6 \<noteq> ec_unitId cfg then ([], node)
      else let function = adu ! 7; start = readU16 adu 8;
               count = (if function = 0x03 \<or> function = 0x04 \<or> function = 0x10 then readU16 adu 10 else 1)
           in if \<not> writeAllowed function start count then (exception_adu adu function 0x02, node)
      else let rtu = appendCrc (cf_address (nd_config node) # drop 7 adu);
               (rtuResponse, node') = processFrame node rtu
           in if length rtuResponse < 4 then ([], node')
      else let pduSize = length rtuResponse - 3
           in ([adu ! 0, adu ! 1, 0, 0, ucast (drop_bit 8 (of_nat (pduSize + 1) :: u32)),
                ucast (of_nat (pduSize + 1) AND 0xFF :: u32), ec_unitId cfg] @
               take pduSize (drop 1 rtuResponse), node'))"

section \<open>The receive buffer\<close>

text \<open>
  The result of \<^verbatim>\<open>processFrames\<close>: the replies written to the client, the node, the remaining buffer, and
  whether the client was stopped because of an impossible length.
\<close>

function processFrames :: "eth_config \<Rightarrow> mbus_node \<Rightarrow> u8 list \<Rightarrow> u8 list list \<times> mbus_node \<times> u8 list \<times> bool" where
  "processFrames cfg node rx =
     (if length rx < 7 then ([], node, rx, False)
      else let protocolLength = unat (readU16 rx 4); total = 6 + protocolLength
           in if protocolLength < 2 \<or> 260 < total then ([], node, [], True)
              else if length rx < total then ([], node, rx, False)
              else let (response, node') = eth_handle cfg node (take total rx);
                       (replies, node'', rx', stopped) = processFrames cfg node' (drop total rx)
                   in ((if response = [] then replies else response # replies), node'', rx', stopped))"
  by pat_completeness auto
termination
  by (relation "measure (\<lambda>(cfg, node, rx). length rx)") auto

declare processFrames.simps [simp del]

section \<open>Clients\<close>

record eth_server =
  es_config :: eth_config
  es_client :: "u32 option"
  es_rx :: "u8 list"
  es_rejectedClients :: u32
  es_lastByteMs :: u32

text \<open>One call of \<^verbatim>\<open>loop\<close>: whether the current client is connected when asked first and when asked
  again, the remote address of a waiting client, the results of \<^verbatim>\<open>read\<close> while bytes are available, and
  the clock at the last byte and at the end.\<close>

record eth_env =
  ev_connectedBefore :: bool
  ev_candidate :: "u32 option"
  ev_connectedAfter :: bool
  ev_reads :: "int list"
  ev_millisRead :: u32
  ev_millisEnd :: u32

definition new_eth_server :: "eth_config \<Rightarrow> eth_server" where
  "new_eth_server cfg = \<lparr>es_config = cfg, es_client = None, es_rx = [], es_rejectedClients = 0, es_lastByteMs = 0\<rparr>"

definition eth_restart :: "eth_server \<Rightarrow> eth_server" where
  "eth_restart sv = sv\<lparr>es_client := None, es_rx := []\<rparr>"

definition eth_begin :: "eth_server \<Rightarrow> eth_server" where [simp]:
  "eth_begin sv = eth_restart sv"

definition eth_listening :: "eth_server \<Rightarrow> bool" where
  "eth_listening sv \<longleftrightarrow> ec_port (es_config sv) \<noteq> 0"

definition setRockPiAddress :: "eth_server \<Rightarrow> u32 \<Rightarrow> eth_server" where
  "setRockPiAddress sv address =
     sv\<lparr>es_client := None, es_config := (es_config sv)\<lparr>ec_rockPiAddress := address\<rparr>\<rparr>"

definition sourceAllowed :: "eth_server \<Rightarrow> u32 \<Rightarrow> bool" where
  "sourceAllowed sv remote \<longleftrightarrow> ec_rockPiAddress (es_config sv) \<noteq> 0 \<and> remote = ec_rockPiAddress (es_config sv)"

definition acceptClient :: "eth_server \<Rightarrow> eth_env \<Rightarrow> eth_server" where
  "acceptClient sv env =
     (if es_client sv \<noteq> None \<and> ev_connectedBefore env then sv
      else let sv' = sv\<lparr>es_client := None\<rparr>
           in case ev_candidate env of None \<Rightarrow> sv'
              | Some remote \<Rightarrow> if \<not> sourceAllowed sv' remote
                  then sv'\<lparr>es_rejectedClients := es_rejectedClients sv' + 1\<rparr>
                  else sv'\<lparr>es_client := Some remote, es_rx := []\<rparr>)"

fun eth_receive :: "int list \<Rightarrow> u32 \<Rightarrow> u8 list \<Rightarrow> u32 \<Rightarrow> u8 list \<times> u32" where
  "eth_receive [] now rx lastMs = (rx, lastMs)"
| "eth_receive (v # vs) now rx lastMs =
     (if length rx < 300 then
        (if 0 \<le> v then eth_receive vs now (rx @ [word_of_int v]) now else eth_receive vs now rx lastMs)
      else (rx, lastMs))"

definition eth_loop :: "eth_server \<Rightarrow> mbus_node \<Rightarrow> eth_env \<Rightarrow> u8 list list \<times> mbus_node \<times> eth_server" where
  "eth_loop sv node env =
     (let sv1 = acceptClient sv env
      in if es_client sv1 = None \<or> \<not> ev_connectedAfter env then ([], node, sv1)
         else let (rx, lastMs) = eth_receive (ev_reads env) (ev_millisRead env) (es_rx sv1) (es_lastByteMs sv1);
                  (replies, node', rx', stopped) = processFrames (es_config sv1) node rx;
                  sv2 = sv1\<lparr>es_rx := rx', es_lastByteMs := lastMs, es_client := (if stopped then None else es_client sv1)\<rparr>
              in (replies, node',
                  if rx' \<noteq> [] \<and> 1000 < ev_millisEnd env - lastMs then sv2\<lparr>es_client := None, es_rx := []\<rparr> else sv2))"

section \<open>From the TCP frame to the RTU frame and back\<close>

lemma appendCrc_withCrc: "appendCrc frame = withCrc frame"
  by (simp add: appendCrc_def withCrc_def)

definition rtu_request :: "mbus_node \<Rightarrow> u8 list \<Rightarrow> u8 list" where
  "rtu_request node pdu = withCrc (cf_address (nd_config node) # pdu)"

lemma rtu_request_fields:
  assumes "5 \<le> length pdu"
  shows "length (rtu_request node pdu) = length pdu + 3" "crc_ok (rtu_request node pdu)"
    "rtu_request node pdu ! 0 = cf_address (nd_config node)" "rtu_request node pdu ! 1 = pdu ! 0"
    "readU16 (rtu_request node pdu) 2 = readU16 pdu 1" "readU16 (rtu_request node pdu) 4 = readU16 pdu 3"
    "6 \<le> length pdu \<Longrightarrow> rtu_request node pdu ! 6 = pdu ! 5"
    "take (length pdu) (drop 1 (rtu_request node pdu)) = pdu"
proof -
  show "crc_ok (rtu_request node pdu)"
    unfolding rtu_request_def by (rule crc_ok_withCrc) (use assms in simp)
qed (use assms in \<open>auto simp: rtu_request_def withCrc_def Let_def readU16_def nth_append nth_Cons' numeral_2_eq_2\<close>)

lemma readWords_shift:
  assumes "b + 2 * k \<le> length pdu"
  shows "readWords (rtu_request node pdu) (Suc b) k = readWords pdu b k"
  using assms by (auto simp: readWords_def readU16_def rtu_request_def withCrc_def Let_def nth_append)

lemma crc_ok_test:
  "crc_ok frame \<Longrightarrow> \<not> length frame < 4 \<and>
     \<not> crc16 (take (length frame - 2) frame) \<noteq> ucast (frame ! (length frame - 2)) OR push_bit 8 (ucast (frame ! (length frame - 1)))"
  by (simp add: crc_ok_def received_crc_def)

text \<open>A PDU of at least five bytes, addressed to the node itself.\<close>

definition node_pdu :: "mbus_node \<Rightarrow> u8 list \<Rightarrow> u8 list \<times> mbus_node" where
  "node_pdu nd pdu =
     (let f = pdu ! 0; start = readU16 pdu 1; n = readU16 pdu 3; regs = nd_registers nd in
      if (f = 0x03 \<or> f = 0x04) \<and> length pdu = 5 then
        (if n = 0 \<or> 64 < n \<or> length regs < unat start + unat n then ([f OR 0x80, 0x02], nd)
         else ([f, ucast (n * 2)] @ words_bytes (map (\<lambda>i. regs ! (unat start + i)) [0..<unat n]), nd))
      else if f = 0x06 \<and> length pdu = 5 then
        (if length regs \<le> unat start then ([f OR 0x80, 0x02], nd)
         else (pdu, applyPendingConfiguration (nd\<lparr>nd_registers := regs[unat start := n]\<rparr>)))
      else if f = 0x10 \<and> 6 \<le> length pdu then
        (if n = 0 \<or> unat (pdu ! 5) \<noteq> unat n * 2 \<or> length pdu \<noteq> 6 + unat (pdu ! 5) \<or> length regs < unat start + unat n
         then ([f OR 0x80, 0x03], nd)
         else (f # u16_bytes start @ u16_bytes n,
           applyPendingConfiguration (nd\<lparr>nd_registers := overwrite regs (unat start) (readWords pdu 6 (unat n))\<rparr>)))
      else ([f OR 0x80, 0x01], nd))"

lemma withCrc_length [simp]: "length (withCrc b) = length b + 2"
  by (simp add: withCrc_def Let_def)

lemma withCrc_body: "take (length b - 1) (drop (Suc 0) (withCrc b)) = drop 1 b"
  by (simp add: withCrc_def Let_def)

lemma foldl_append16: "foldl appendU16 b ws = b @ words_bytes ws"
  by (rule foldl_appendU16)

lemma processFrame_pdu:
  assumes "node_ok nd" "5 \<le> length pdu"
  shows "processFrame nd (rtu_request nd pdu) =
    (withCrc (cf_address (nd_config nd) # fst (node_pdu nd pdu)), snd (node_pdu nd pdu))"
proof -
  define F where "F = rtu_request nd pdu"
  note f = rtu_request_fields [OF assms(2), of nd, folded F_def]
  define a where "a = cf_address (nd_config nd)"
  have a: "a \<noteq> 0" using assms(1) by (auto simp: a_def node_ok_def valid_address_def one_le_word)
  have F: "F = withCrc (a # pdu)" by (simp add: F_def rtu_request_def a_def)
  have w: "readWords F 7 (unat n) = readWords pdu 6 (unat n)" if "length pdu = 6 + unat n * 2" for n :: u16
    using readWords_shift [of 6 "unat n" pdu nd] that by (simp add: F_def)
  have t8: "length F = 8 \<longleftrightarrow> length pdu = 5" "9 \<le> length F \<longleftrightarrow> 6 \<le> length pdu"
    "length F = 9 + k \<longleftrightarrow> length pdu = 6 + k" for k
    using f(1) by auto
  have main: "processFrame nd F =
     (let f = pdu ! 0; start = readU16 pdu 1; n = readU16 pdu 3; regs = nd_registers nd in
      if (f = 0x03 \<or> f = 0x04) \<and> length pdu = 5 then
        (if n = 0 \<or> 64 < n \<or> length regs < unat start + unat n then (withCrc [a, f OR 0x80, 0x02], nd)
         else (withCrc (foldl appendU16 [a, f, ucast (n * 2)] (map (\<lambda>i. regs ! (unat start + i)) [0..<unat n])), nd))
      else if f = 0x06 \<and> length pdu = 5 then
        (if length regs \<le> unat start then (withCrc [a, f OR 0x80, 0x02], nd)
         else (F, applyPendingConfiguration (nd\<lparr>nd_registers := regs[unat start := n]\<rparr>)))
      else if f = 0x10 \<and> 6 \<le> length pdu then
        (if n = 0 \<or> unat (F ! 6) \<noteq> unat n * 2 \<or> length pdu \<noteq> 6 + unat (F ! 6) \<or> length regs < unat start + unat n
         then (withCrc [a, f OR 0x80, 0x03], nd)
         else (withCrc (appendU16 (appendU16 [a, f] start) n),
           applyPendingConfiguration (nd\<lparr>nd_registers := overwrite regs (unat start) (readWords F 7 (unat n))\<rparr>)))
      else (withCrc [a, f OR 0x80, 0x01], nd))"
    unfolding processFrame_def Let_def
    using crc_ok_test [OF f(2)] a
    by (simp only: f(3,4,5,6) t8 exception_rtu_def a_def [symmetric] if_False simp_thms cong: if_cong)
  have b6: "6 \<le> length pdu \<Longrightarrow> F ! 6 = pdu ! 5" by (rule f(7))
  show ?thesis
    unfolding F_def [symmetric] main node_pdu_def Let_def a_def [symmetric]
    using w b6 by (simp add: foldl_append16 appendU16_def F)
qed

lemma u16_bytes_size:
  "n < 65536 \<Longrightarrow> u16_bytes (of_nat n) = [ucast (drop_bit 8 (of_nat n :: u32)), ucast (of_nat n AND 0xFF :: u32)]"
proof -
  have "(0xFF :: u32) = mask 8" by (simp add: mask_eq_exp_minus_1)
  moreover have "(ucast (of_nat n :: u16) :: u8) = ucast (of_nat n :: u32)"
    "(ucast (drop_bit 8 (of_nat n :: u16)) :: u8) = ucast (drop_bit 8 (of_nat n :: u32))"
    by (auto intro!: bit_word_eqI simp: bit_simps)
  moreover have "(ucast (of_nat n AND mask 8 :: u32) :: u8) = ucast (of_nat n :: u32)"
    by (auto intro!: bit_word_eqI simp: bit_simps)
  ultimately show ?thesis by (simp add: u16_bytes_def)
qed

lemma node_pdu_reply:
  assumes "5 \<le> length pdu" "length pdu \<le> 254"
  shows "fst (node_pdu nd pdu) \<noteq> [] \<and> length (fst (node_pdu nd pdu)) \<le> 254"
proof -
  have "2 + 2 * unat n \<le> 254" if "\<not> 64 < (n :: u16)" for n
    using that by (simp add: word_less_nat_alt not_less)
  then show ?thesis using assms by (auto simp: node_pdu_def Let_def)
qed

text \<open>The handler in one equation: admission, then the PDU on the node.\<close>

lemma eth_handle_mbap:
  assumes "node_ok nd" "5 \<le> length pdu" "length pdu \<le> 254"
  shows "eth_handle cfg nd (mbap tid (ec_unitId cfg) pdu) =
    (if writeAllowed (pdu ! 0) (readU16 pdu 1)
         (if pdu ! 0 = 0x03 \<or> pdu ! 0 = 0x04 \<or> pdu ! 0 = 0x10 then readU16 pdu 3 else 1)
     then (mbap tid (ec_unitId cfg) (fst (node_pdu nd pdu)), snd (node_pdu nd pdu))
     else (mbap tid (ec_unitId cfg) [pdu ! 0 OR 0x80, 0x02], nd))"
proof -
  define adu where "adu = mbap tid (ec_unitId cfg) pdu"
  have nth: "adu ! (7 + i) = pdu ! i" for i by (simp add: adu_def mbap_def nth_append)
  have hdr: "length adu = 7 + length pdu" "readU16 adu 2 = 0" "adu ! 6 = ec_unitId cfg" "drop 7 adu = pdu"
    "adu ! 7 = pdu ! 0" "readU16 adu 8 = readU16 pdu 1" "readU16 adu 10 = readU16 pdu 3"
    using nth [of 0] nth [of 1] nth [of 2] nth [of 3] nth [of 4]
    by (simp_all add: adu_def readU16_def del: mbap_fields) (simp_all add: mbap_def nth_append u16_bytes_def be16_def numeral_2_eq_2)
  have tid: "[adu ! 0, adu ! 1] = u16_bytes tid" by (simp add: adu_def mbap_def u16_bytes_def)
  have head: "[adu ! 0, adu ! 1, 0, 0] = u16_bytes tid @ u16_bytes 0" using tid by (simp add: u16_bytes_def)
  define rep where "rep = fst (node_pdu nd pdu)"
  have rep: "rep \<noteq> []" "length rep \<le> 254" using node_pdu_reply [OF assms(2,3)] by (simp_all add: rep_def)
  have ok: "mbap tid (ec_unitId cfg) rep =
      [adu ! 0, adu ! 1, 0, 0, ucast (drop_bit 8 (of_nat (length rep + 1) :: u32)),
       ucast (of_nat (length rep + 1) AND 0xFF :: u32), ec_unitId cfg] @ rep"
    using head u16_bytes_size [of "length rep + 1"] rep(2) by (simp add: mbap_def)
  have exc: "exception_adu adu (pdu ! 0) 0x02 = mbap tid (ec_unitId cfg) [pdu ! 0 OR 0x80, 0x02]"
    using tid hdr(3) by (simp add: exception_adu_def mbap_def u16_bytes_def)
  have pf: "processFrame nd (appendCrc (cf_address (nd_config nd) # pdu)) =
      (withCrc (cf_address (nd_config nd) # rep), snd (node_pdu nd pdu))"
    using processFrame_pdu [OF assms(1,2)] by (simp add: appendCrc_withCrc rtu_request_def rep_def)
  have body: "take (length rep) (drop 1 (withCrc (cf_address (nd_config nd) # rep))) = rep"
    by (simp add: withCrc_def Let_def)
  show ?thesis
    unfolding eth_handle_def Let_def adu_def [symmetric]
    using assms(2) rep(1) ok body exc
    by (simp only: hdr pf prod.case exc if_False simp_thms not_less) (auto simp: rep_def [symmetric] Suc_le_eq)
qed

section \<open>What a frame may change\<close>

text \<open>Only the four command registers differ; configuration and flags are the same.\<close>

definition command_window :: "mbus_node \<Rightarrow> mbus_node \<Rightarrow> bool" where
  "command_window nd nd' \<longleftrightarrow> nd_config nd' = nd_config nd \<and>
     nd_configurationChanged nd' = nd_configurationChanged nd \<and>
     length (nd_registers nd') = length (nd_registers nd) \<and>
     (\<forall>i < length (nd_registers nd). i < G_CommandSequence \<or> G_CommandTtlSeconds < i \<longrightarrow>
        nd_registers nd' ! i = nd_registers nd ! i)"

lemma command_window_refl [simp]: "command_window nd nd"
  by (simp add: command_window_def)

lemma command_window_trans: "command_window a b \<Longrightarrow> command_window b c \<Longrightarrow> command_window a c"
  by (simp add: command_window_def)

lemma command_window_ok: "command_window nd nd' \<Longrightarrow> node_ok nd \<Longrightarrow> node_ok nd'"
  by (auto simp: command_window_def node_ok_def)

lemma window_overwrite:
  assumes "node_ok nd" "G_CommandSequence \<le> a" "a + length vs \<le> G_CommandTtlSeconds + 1"
  shows "command_window nd (nd\<lparr>nd_registers := overwrite (nd_registers nd) a vs\<rparr>)"
  using assms by (auto simp: command_window_def node_ok_def nth_overwrite)

lemma overwrite_single: "i < length xs \<Longrightarrow> overwrite xs i [x] = xs[i := x]"
  by (simp add: overwrite_def upd_conv_take_nth_drop)

lemma window_apply:
  assumes "node_ok nd" "G_CommandSequence \<le> a" "a + length vs \<le> G_CommandTtlSeconds + 1"
  shows "applyPendingConfiguration (nd\<lparr>nd_registers := overwrite (nd_registers nd) a vs\<rparr>) =
    nd\<lparr>nd_registers := overwrite (nd_registers nd) a vs\<rparr>"
  using window_overwrite [OF assms] assms(1) by (intro applyPending_noop) (rule command_window_ok)

lemma node_pdu_window:
  assumes "node_ok nd" "writeAllowed (pdu ! 0) (readU16 pdu 1)
      (if pdu ! 0 = 0x03 \<or> pdu ! 0 = 0x04 \<or> pdu ! 0 = 0x10 then readU16 pdu 3 else 1)"
  shows "command_window nd (snd (node_pdu nd pdu))"
proof -
  have single: "command_window nd (applyPendingConfiguration (nd\<lparr>nd_registers := (nd_registers nd)[unat (readU16 pdu 1) := v]\<rparr>))"
    if "pdu ! 0 = 6" for v
  proof -
    have b: "G_CommandSequence \<le> unat (readU16 pdu 1)" "unat (readU16 pdu 1) + length [v] \<le> G_CommandTtlSeconds + 1"
      using assms(2) that by (auto simp: writeAllowed_def)
    then have "overwrite (nd_registers nd) (unat (readU16 pdu 1)) [v] = (nd_registers nd)[unat (readU16 pdu 1) := v]"
      using assms(1) by (intro overwrite_single) (simp add: node_ok_def)
    with window_apply [OF assms(1) b] window_overwrite [OF assms(1) b] show ?thesis by simp
  qed
  have range: "command_window nd (applyPendingConfiguration
      (nd\<lparr>nd_registers := overwrite (nd_registers nd) (unat (readU16 pdu 1)) (readWords pdu 6 (unat (readU16 pdu 3)))\<rparr>))"
    if "pdu ! 0 = 0x10" "readU16 pdu 3 \<noteq> 0"
  proof -
    have b: "G_CommandSequence \<le> unat (readU16 pdu 1)"
      "unat (readU16 pdu 1) + length (readWords pdu 6 (unat (readU16 pdu 3))) \<le> G_CommandTtlSeconds + 1"
      using assms(2) that by (auto simp: writeAllowed_def)
    with window_apply [OF assms(1) b] window_overwrite [OF assms(1) b] show ?thesis by simp
  qed
  show ?thesis using single range by (auto simp: node_pdu_def Let_def)
qed

text \<open>Every frame, well formed or not, goes through the same admission.\<close>

lemma adu_as_mbap:
  assumes "12 \<le> length adu" "length adu = 6 + unat (readU16 adu 4)" "readU16 adu 2 = 0"
  shows "adu = mbap (readU16 adu 0) (adu ! 6) (drop 7 adu)"
proof -
  have n: "of_nat (length (drop 7 adu) + 1) = readU16 adu 4"
    using assms(1,2) by (intro word_unat_eq_iff [THEN iffD2]) (simp add: unat_of_nat take_bit_nat_eq_self)
  have "take 7 adu = [adu ! 0, adu ! 1, adu ! 2, adu ! 3, adu ! 4, adu ! 5, adu ! 6]"
    using assms(1) by (intro nth_equalityI) (auto simp: less_Suc_eq numeral_eq_Suc)
  moreover have "[adu ! 0, adu ! 1] = u16_bytes (readU16 adu 0)" "[adu ! 2, adu ! 3] = u16_bytes (readU16 adu 2)"
    "[adu ! 4, adu ! 5] = u16_bytes (readU16 adu 4)"
    using assms(1) u16_bytes_readU16 [of 0 adu] u16_bytes_readU16 [of 2 adu] u16_bytes_readU16 [of 4 adu] by auto
  ultimately have "take 7 adu = u16_bytes (readU16 adu 0) @ u16_bytes 0 @ u16_bytes (readU16 adu 4) @ [adu ! 6]"
    using assms(3) by (metis append_Cons append_Nil)
  then show ?thesis
    unfolding mbap_def n using append_take_drop_id [of 7 adu] by (metis append_assoc)
qed

lemma eth_handle_window:
  assumes "node_ok nd" "length adu = 6 + unat (readU16 adu 4)" "length adu \<le> 260"
  shows "command_window nd (snd (eth_handle cfg nd adu))"
proof (cases "12 \<le> length adu \<and> readU16 adu 2 = 0 \<and> adu ! 6 = ec_unitId cfg")
  case False
  then show ?thesis by (auto simp: eth_handle_def Let_def)
next
  case True
  then have "adu = mbap (readU16 adu 0) (ec_unitId cfg) (drop 7 adu)" using adu_as_mbap assms(2) by metis
  moreover have "5 \<le> length (drop 7 adu)" "length (drop 7 adu) \<le> 254" using True assms(3) by auto
  ultimately show ?thesis
    using eth_handle_mbap [OF assms(1), of "drop 7 adu" cfg "readU16 adu 0"] node_pdu_window [OF assms(1), of "drop 7 adu"]
    by (metis (no_types, lifting) command_window_refl snd_conv)
qed

section \<open>The node as a register server\<close>

lemma map_nth_range:
  "a + n \<le> length regs \<Longrightarrow> map (\<lambda>i. regs ! (a + i)) [0..<n] = take n (drop a regs)"
  by (rule nth_equalityI) auto

lemma byte_count: "unat n \<le> 64 \<Longrightarrow> (ucast (n * 2 :: u16) :: u8) = of_nat (unat n * 2)"
proof -
  assume n: "unat n \<le> 64"
  then have "unat (n * 2) = unat n * 2"
    by (subst unat_mult_lem [THEN iffD1]) auto
  moreover have "unat (of_nat (unat n * 2) :: u8) = unat n * 2" using n by (intro unat_of_nat8) simp
  moreover have "unat (ucast (n * 2) :: u8) = unat (n * 2)" using n calculation(1) by (intro unat_ucast_down8) simp
  ultimately show ?thesis by (intro word_unat_eq_iff [THEN iffD2]) (simp only:)
qed

lemma node_read:
  assumes "f = 0x03 \<or> f = 0x04" "0 < unat n" "unat n \<le> 64" "unat a + unat n \<le> length (nd_registers nd)"
  shows "node_pdu nd (read_pdu f a n) = (read_reply f (take (unat n) (drop (unat a) (nd_registers nd))), nd)"
proof -
  have n: "n \<noteq> 0" "\<not> 64 < n" using assms(2,3) by (auto simp: word_less_nat_alt)
  have "length (take (unat n) (drop (unat a) (nd_registers nd))) = unat n" using assms(4) by simp
  with n assms show ?thesis
    by (auto simp: node_pdu_def Let_def read_reply_def map_nth_range byte_count)
qed

lemma node_write:
  assumes "node_ok nd" "0x14 \<le> unat a" "unat a \<le> 0x17"
  shows "node_pdu nd (write_pdu a v) = (write_pdu a v, nd\<lparr>nd_registers := overwrite (nd_registers nd) (unat a) [v]\<rparr>)"
  using assms window_apply [OF assms(1), of "unat a" "[v]"] overwrite_single [of "unat a" "nd_registers nd" v]
  by (simp add: node_pdu_def Let_def node_ok_def)

lemma node_write_range:
  assumes "node_ok nd" "vs \<noteq> []" "0x14 \<le> unat a" "unat a + length vs \<le> 0x18"
  shows "node_pdu nd (write_range_pdu a vs) = (0x10 # u16_bytes a @ u16_bytes (of_nat (length vs)),
    nd\<lparr>nd_registers := overwrite (nd_registers nd) (unat a) vs\<rparr>)"
proof -
  define n :: u16 where "n = of_nat (length vs)"
  have un: "unat n = length vs" using assms(3,4) by (simp add: n_def unat_of_nat16)
  have n: "n \<noteq> 0" using assms(2) un by auto
  have bc: "unat (of_nat (length vs * 2) :: u8) = length vs * 2"
    using assms(3,4) by (intro unat_of_nat8) simp
  have rn: "readU16 (write_range_pdu a vs) 3 = n" by (simp add: n_def)
  have rw: "readWords (write_range_pdu a vs) 6 (unat n) = vs" by (simp add: un)
  have len: "length (write_range_pdu a vs) = 6 + length vs * 2" by simp
  show ?thesis
    using assms n bc window_apply [OF assms(1), of "unat a" vs]
    unfolding node_pdu_def Let_def rn rw len
    by (simp add: un node_ok_def n_def [symmetric] del: of_nat_mult)
qed

interpretation control: register_server "eth_handle cfg" "ec_unitId cfg" node_ok nd_registers nd_registers 64
  "\<lambda>a k. 0 < k \<and> 0x14 \<le> a \<and> a + k \<le> 0x18" for cfg
proof
  fix s :: mbus_node and a v tid :: u16
  assume ok: "node_ok s" and w: "0 < (1::nat) \<and> 0x14 \<le> unat a \<and> unat a + 1 \<le> 0x18"
  have "node_ok (s\<lparr>nd_registers := overwrite (nd_registers s) (unat a) [v]\<rparr>)"
    using window_overwrite [OF ok, of "unat a" "[v]"] w command_window_ok ok by auto
  with ok w node_write [OF ok, of a v]
  show "\<exists>s'. eth_handle cfg s (mbap tid (ec_unitId cfg) (write_pdu a v)) =
      (mbap tid (ec_unitId cfg) (write_pdu a v), s') \<and> node_ok s' \<and>
      nd_registers s' = overwrite (nd_registers s) (unat a) [v]"
    by (simp add: eth_handle_mbap writeAllowed_def)
next
  fix s :: mbus_node and vs :: "u16 list" and a tid :: u16
  assume ok: "node_ok s" and vs: "vs \<noteq> []" and w: "0 < length vs \<and> 0x14 \<le> unat a \<and> unat a + length vs \<le> 0x18"
  have "node_ok (s\<lparr>nd_registers := overwrite (nd_registers s) (unat a) vs\<rparr>)"
    using window_overwrite [OF ok, of "unat a" vs] w command_window_ok ok by auto
  moreover have "unat (of_nat (length vs) :: u16) = length vs" "(of_nat (length vs) :: u16) \<noteq> 0"
    using w unat_of_nat16 [of "length vs"] by (auto dest!: arg_cong [of "of_nat (length vs) :: u16" 0 unat])
  moreover have "unat a + length vs - Suc 0 \<le> 23" using w by linarith
  ultimately show "\<exists>s'. eth_handle cfg s (mbap tid (ec_unitId cfg) (write_range_pdu a vs)) =
      (mbap tid (ec_unitId cfg) (0x10 # u16_bytes a @ u16_bytes (of_nat (length vs))), s') \<and> node_ok s' \<and>
      nd_registers s' = overwrite (nd_registers s) (unat a) vs"
    using ok w vs node_write_range [OF ok vs, of a]
    by (simp add: eth_handle_mbap writeAllowed_def)
qed (auto simp: eth_handle_mbap node_read writeAllowed_def node_ok_def)

section \<open>The receive buffer\<close>

lemma processFrames_window:
  "node_ok nd \<Longrightarrow> processFrames cfg nd rx = (out, nd', rx', st) \<Longrightarrow> command_window nd nd'"
proof (induction rx arbitrary: nd out nd' rx' st rule: measure_induct_rule [of length])
  case (less rx)
  define total where "total = 6 + unat (readU16 rx 4)"
  show ?case
  proof (cases "length rx < 7 \<or> unat (readU16 rx 4) < 2 \<or> 260 < total \<or> length rx < total")
    case True
    then show ?thesis using less(3) by (subst (asm) processFrames.simps) (auto simp: Let_def total_def split: if_splits)
  next
    case False
    define nd1 where "nd1 = snd (eth_handle cfg nd (take total rx))"
    obtain o2 nd2 rx2 st2 where rest: "processFrames cfg nd1 (drop total rx) = (o2, nd2, rx2, st2)"
      by (metis prod_cases4)
    have w: "command_window nd nd1"
      unfolding nd1_def using False less(2) by (intro eth_handle_window) (auto simp: total_def)
    have "nd' = nd2"
      using less(3) False rest by (subst (asm) processFrames.simps)
        (auto simp: Let_def total_def nd1_def case_prod_beta split: if_splits)
    moreover have "command_window nd1 nd2"
      using less(1) [OF _ command_window_ok [OF w less(2)] rest] False by (auto simp: total_def)
    ultimately show ?thesis using w command_window_trans by blast
  qed
qed

lemma processFrames_step:
  assumes "7 \<le> length rx" "2 \<le> unat (readU16 rx 4)" "6 + unat (readU16 rx 4) \<le> 260" "6 + unat (readU16 rx 4) \<le> length rx"
  shows "processFrames cfg nd rx =
    (let total = 6 + unat (readU16 rx 4); r = eth_handle cfg nd (take total rx);
         q = processFrames cfg (snd r) (drop total rx)
     in (if fst r = [] then fst q else fst r # fst q, snd q))"
  using assms by (subst processFrames.simps) (auto simp: Let_def case_prod_beta)

lemma readU16_append: "i + 1 < length rx \<Longrightarrow> readU16 (rx @ ys) i = readU16 rx i"
  by (simp add: readU16_def nth_append)

text \<open>Bytes that arrive later are processed as if they had been there at once.\<close>

lemma processFrames_append:
  "processFrames cfg nd (rx @ ys) = (case processFrames cfg nd rx of (out, nd', rx', stopped) \<Rightarrow>
     if stopped then (out, nd', rx', True)
     else case processFrames cfg nd' (rx' @ ys) of (out2, r) \<Rightarrow> (out @ out2, r))"
proof (induction rx arbitrary: nd rule: measure_induct_rule [of length])
  case (less rx)
  define total where "total = 6 + unat (readU16 rx 4)"
  consider "length rx < 7" | "7 \<le> length rx" "unat (readU16 rx 4) < 2 \<or> 260 < total"
    | "7 \<le> length rx" "\<not> (unat (readU16 rx 4) < 2 \<or> 260 < total)" "length rx < total"
    | (full) "7 \<le> length rx" "2 \<le> unat (readU16 rx 4)" "total \<le> 260" "total \<le> length rx" by linarith
  then show ?case
  proof cases
    case full
    have f: "readU16 (rx @ ys) 4 = readU16 rx 4" using full by (intro readU16_append) simp
    let ?r = "eth_handle cfg nd (take total rx)"
    have ih: "processFrames cfg (snd ?r) (drop total rx @ ys) = (case processFrames cfg (snd ?r) (drop total rx) of (out, nd', rx', stopped) \<Rightarrow>
       if stopped then (out, nd', rx', True)
       else case processFrames cfg nd' (rx' @ ys) of (out2, r) \<Rightarrow> (out @ out2, r))"
      using less [of "drop total rx" "snd ?r"] full by (simp add: total_def)
    show ?thesis
      using full ih processFrames_step [of rx cfg nd] processFrames_step [of "rx @ ys" cfg nd] f
      by (auto simp: total_def Let_def split: prod.splits if_splits)
  next
    case 2
    then have "readU16 (rx @ ys) 4 = readU16 rx 4" by (intro readU16_append) simp
    with 2 show ?thesis
      by (simp add: processFrames.simps [of cfg nd rx] processFrames.simps [of cfg nd "rx @ ys"] Let_def total_def)
  qed (simp_all add: processFrames.simps [of cfg nd rx] Let_def total_def split: prod.split)
qed

text \<open>Feeding the buffer chunk by chunk, as successive calls of \<^verbatim>\<open>loop\<close> do.\<close>

fun feed :: "eth_config \<Rightarrow> mbus_node \<Rightarrow> u8 list \<Rightarrow> u8 list list \<Rightarrow> u8 list list \<times> mbus_node \<times> u8 list \<times> bool" where
  "feed cfg nd rx [] = ([], nd, rx, False)"
| "feed cfg nd rx (c # cs) = (case processFrames cfg nd (rx @ c) of (out, nd', rx', stopped) \<Rightarrow>
     if stopped then (out, nd', rx', True)
     else case feed cfg nd' rx' cs of (out2, r) \<Rightarrow> (out @ out2, r))"

lemma processFrames_stuck:
  "processFrames cfg nd rx = (out, nd', rx', False) \<Longrightarrow> processFrames cfg nd' rx' = ([], nd', rx', False)"
proof (induction rx arbitrary: nd out rule: measure_induct_rule [of length])
  case (less rx)
  define total where "total = 6 + unat (readU16 rx 4)"
  show ?case
  proof (cases "7 \<le> length rx \<and> 2 \<le> unat (readU16 rx 4) \<and> total \<le> 260 \<and> total \<le> length rx")
    case True
    let ?r = "eth_handle cfg nd (take total rx)"
    have "processFrames cfg (snd ?r) (drop total rx) = (fst (processFrames cfg (snd ?r) (drop total rx)), nd', rx', False)"
      using less(2) True processFrames_step [of rx cfg nd] by (auto simp: total_def Let_def intro: prod_eqI split: if_splits)
    then show ?thesis
      using less(1) [of "drop total rx" "snd ?r"] True by (auto simp: total_def)
  next
    case False
    then have "out = [] \<and> nd' = nd \<and> rx' = rx" using less(2)
      by (auto simp: processFrames.simps [of cfg nd rx] Let_def total_def split: if_splits)
    with less(2) show ?thesis by simp
  qed
qed

lemma feed_concat:
  "processFrames cfg nd rx = ([], nd, rx, False) \<Longrightarrow> feed cfg nd rx cs = processFrames cfg nd (rx @ concat cs)"
proof (induction cs arbitrary: nd rx)
  case (Cons c cs)
  obtain out nd' rx' st where p: "processFrames cfg nd (rx @ c) = (out, nd', rx', st)" by (metis prod_cases4)
  have "feed cfg nd' rx' cs = processFrames cfg nd' (rx' @ concat cs)" if "\<not> st"
    using Cons.IH [of nd' rx'] processFrames_stuck [of cfg nd "rx @ c" out nd' rx'] p that by simp
  with p show ?case
    using processFrames_append [of cfg nd "rx @ c" "concat cs"] by (simp split: prod.split)
qed simp

section \<open>Admission\<close>

text \<open>A connected client always has the configured, non-zero source address.\<close>

definition eth_inv :: "eth_server \<Rightarrow> bool" where
  "eth_inv sv \<longleftrightarrow> (\<forall>ip. es_client sv = Some ip \<longrightarrow> ip \<noteq> 0 \<and> ip = ec_rockPiAddress (es_config sv))"

lemma accept_inv: "eth_inv sv \<Longrightarrow> eth_inv (acceptClient sv env)"
  by (auto simp: eth_inv_def acceptClient_def sourceAllowed_def Let_def split: option.split)

lemma restart_inv [simp]: "eth_inv (eth_restart sv)"
  by (simp add: eth_inv_def eth_restart_def)

lemma accept_config [simp]: "es_config (acceptClient sv env) = es_config sv"
  by (simp add: acceptClient_def Let_def split: option.split)

lemma eth_loop_confined:
  assumes "node_ok nd" "eth_inv sv" "eth_loop sv nd env = (replies, nd', sv')"
  shows "node_ok nd' \<and> eth_inv sv' \<and> command_window nd nd' \<and>
    (nd' \<noteq> nd \<or> replies \<noteq> [] \<longrightarrow>
      (\<exists>ip. ip \<noteq> 0 \<and> ip = ec_rockPiAddress (es_config sv) \<and>
         (es_client sv = Some ip \<and> ev_connectedBefore env \<or> ev_candidate env = Some ip)))"
proof -
  define sv1 where "sv1 = acceptClient sv env"
  have inv: "eth_inv sv1" using accept_inv assms(2) by (simp add: sv1_def)
  obtain rx lm where r: "eth_receive (ev_reads env) (ev_millisRead env) (es_rx sv1) (es_lastByteMs sv1) = (rx, lm)"
    by fastforce
  obtain out nd1 rx1 st where p: "processFrames (es_config sv1) nd rx = (out, nd1, rx1, st)" by (metis prod_cases4)
  have w: "command_window nd nd1" using processFrames_window [OF assms(1) p] .
  show ?thesis
  proof (cases "es_client sv1 = None \<or> \<not> ev_connectedAfter env")
    case True
    then show ?thesis using assms(1,3) inv by (auto simp: eth_loop_def sv1_def [symmetric] Let_def)
  next
    case False
    then have e: "replies = out" "nd' = nd1"
      "eth_inv sv'" using assms(3) inv r p
      by (auto simp: eth_loop_def sv1_def [symmetric] Let_def eth_inv_def split: if_splits)
    from False obtain ip where ip: "es_client sv1 = Some ip" by auto
    then have "ip \<noteq> 0 \<and> ip = ec_rockPiAddress (es_config sv)" using inv by (auto simp: eth_inv_def sv1_def)
    moreover have "es_client sv = Some ip \<and> ev_connectedBefore env \<or> ev_candidate env = Some ip"
      using ip by (auto simp: sv1_def acceptClient_def Let_def split: if_splits option.splits)
    ultimately show ?thesis using e w command_window_ok [OF w assms(1)] by auto
  qed
qed

section \<open>Properties\<close>

text \<open>
  Property C5 (safety). Whatever bytes arrive and whatever the network reports, one call of the server
  loop changes at most the four command registers 0x14 to 0x17: the identity, the address, the
  provisioning registers, the results and the telemetry are out of reach, and the configuration is
  never applied over Ethernet. Replies are written or registers changed only for a client whose
  source address is the configured, non-zero Rock Pi address.
\<close>

theorem node_control_confined:
  assumes "node_ok nd" "eth_inv sv" "eth_loop sv nd env = (replies, nd', sv')"
  shows "node_ok nd' \<and> eth_inv sv' \<and> command_window nd nd' \<and>
    (nd' \<noteq> nd \<or> replies \<noteq> [] \<longrightarrow>
      (\<exists>ip. ip \<noteq> 0 \<and> ip = ec_rockPiAddress (es_config sv) \<and>
         (es_client sv = Some ip \<and> ev_connectedBefore env \<or> ev_candidate env = Some ip)))"
  using assms by (rule eth_loop_confined)

definition example_node :: mbus_node where
  "example_node = new_node \<lparr>cf_address = 7, cf_type = NodeType_Meter, cf_driverId = 9, cf_uid = 0x1234\<rparr>"

lemma example_node_ok: "node_ok example_node"
  unfolding example_node_def by (rule new_node_ok) simp

definition example_eth :: eth_server where
  "example_eth = new_eth_server \<lparr>ec_port = 1502, ec_unitId = 1, ec_rockPiAddress = 0xC0A83201\<rparr>"

theorem node_control_confined_witness:
  "\<exists>replies nd' sv'. eth_loop example_eth example_node
      \<lparr>ev_connectedBefore = False, ev_candidate = Some 0xC0A83201, ev_connectedAfter = True,
       ev_reads = map (\<lambda>b. int (unat b)) (mbap 1 1 (write_pdu 0x15 100)), ev_millisRead = 0, ev_millisEnd = 1\<rparr> =
      (replies, nd', sv') \<and> command_window example_node nd'"
proof -
  have "eth_inv example_eth" by (simp add: eth_inv_def example_eth_def new_eth_server_def)
  note c = node_control_confined [OF example_node_ok this]
  show ?thesis by (metis c prod_cases3)
qed

text \<open>
  Property C25 (equivalence). The node's answers do not depend on how TCP delivers the bytes: feeding
  the receive buffer in any chunks gives the same replies, the same node, the same rest and the same
  verdict as the whole byte string at once.
\<close>

theorem node_chunking:
  "feed cfg nd [] chunks = processFrames cfg nd (concat chunks)"
  using feed_concat [of cfg nd "[]" chunks] by (simp add: processFrames.simps)

text \<open>
  The node serves a command write from the Rock Pi exactly: a block of
  values inside the command window is stored register by register, acknowledged with the standard
  reply, and read back unchanged with function 3 or 4; a write that touches any register outside the
  window is refused with exception 2 and changes nothing.
\<close>

theorem node_command_write:
  assumes "node_ok nd" "vs \<noteq> []" "length vs \<le> 123"
  shows "if G_CommandSequence \<le> unat a \<and> unat a + length vs \<le> G_CommandTtlSeconds + 1
    then \<exists>nd'. eth_handle cfg nd (mbap t1 (ec_unitId cfg) (write_range_pdu a vs)) =
        (mbap t1 (ec_unitId cfg) (0x10 # u16_bytes a @ u16_bytes (of_nat (length vs))), nd') \<and>
      eth_handle cfg nd' (mbap t2 (ec_unitId cfg) (read_pdu 0x03 a (of_nat (length vs)))) =
        (mbap t2 (ec_unitId cfg) (read_reply 0x03 vs), nd')
    else eth_handle cfg nd (mbap t1 (ec_unitId cfg) (write_range_pdu a vs)) =
        (mbap t1 (ec_unitId cfg) [0x90, 0x02], nd)"
proof -
  have un: "unat (of_nat (length vs) :: u16) = length vs" using assms(3) by (simp add: unat_of_nat16)
  show ?thesis
  proof (cases "G_CommandSequence \<le> unat a \<and> unat a + length vs \<le> G_CommandTtlSeconds + 1")
    case True
    then obtain nd' where nd': "eth_handle cfg nd (mbap t1 (ec_unitId cfg) (write_range_pdu a vs)) =
        (mbap t1 (ec_unitId cfg) (0x10 # u16_bytes a @ u16_bytes (of_nat (length vs))), nd')" "node_ok nd'"
        "nd_registers nd' = overwrite (nd_registers nd) (unat a) vs"
      using control.write_range [OF assms(1-3), of a cfg t1] assms(2) by auto
    have fits: "unat a + length vs \<le> length (nd_registers nd)" using True assms(1) by (simp add: node_ok_def)
    then have "eth_handle cfg nd' (mbap t2 (ec_unitId cfg) (read_pdu 0x03 a (of_nat (length vs)))) =
        (mbap t2 (ec_unitId cfg) (read_reply 0x03 vs), nd')"
      using control.read_holding [OF nd'(2), of "of_nat (length vs)" a cfg t2] un True assms(2) nd'(3)
      by (simp add: overwrite_range)
    with nd'(1) True show ?thesis by auto
  next
    case False
    have n0: "(of_nat (length vs) :: u16) \<noteq> 0" using un assms(2) by auto
    have "\<not> writeAllowed 0x10 a (of_nat (length vs))"
    proof -
      have "0 < length vs" "\<not> (20 \<le> unat a \<and> unat a + length vs \<le> 24)" using False assms(2) by simp_all
      then have "\<not> (20 \<le> unat a \<and> unat a + length vs - 1 \<le> 23)" by linarith
      then show ?thesis using n0 un by (auto simp: writeAllowed_def)
    qed
    moreover have "5 \<le> length (write_range_pdu a vs)" "length (write_range_pdu a vs) \<le> 254" using assms(3) by simp_all
    ultimately show ?thesis
      using False eth_handle_mbap [OF assms(1), of "write_range_pdu a vs" cfg t1] by auto
  qed
qed

theorem node_command_write_witness:
  "eth_handle \<lparr>ec_port = 1502, ec_unitId = 1, ec_rockPiAddress = 0xC0A83201\<rparr> example_node
     (mbap 5 1 (write_range_pdu 0x13 [0xA55A, 1])) = (mbap 5 1 [0x90, 0x02], example_node)"
  using node_command_write [OF example_node_ok, of "[0xA55A, 1]" "0x13" "\<lparr>ec_port = 1502, ec_unitId = 1, ec_rockPiAddress = 0xC0A83201\<rparr>" 5 6]
  by simp

end
