(* ===== verification/ProvisioningLine.thy ===== *)
theory ProvisioningLine
  imports Prelude
begin

text \<open>
  The serial line splitter \<^verbatim>\<open>ProvisioningLine\<close>
  (\<^verbatim>\<open>node-esp32-evb/include/gridex/mbus/ProvisioningLine.hpp\<close>): characters go into an 80-byte buffer, a
  line is handed out at its terminator, and an overlong line is discarded as a whole. The array and
  its fill count are the list of the characters stored so far.
\<close>

section \<open>The splitter\<close>

record line_buffer =
  lb_chars :: string
  lb_discarding :: bool

definition new_line_buffer :: line_buffer where
  "new_line_buffer = \<lparr>lb_chars = [], lb_discarding = False\<rparr>"

definition line_capacity :: nat where [simp]: "line_capacity = 80"

definition is_terminator :: "char \<Rightarrow> bool" where
  "is_terminator c \<longleftrightarrow> c = CHR 0x0D \<or> c = CHR 0x0A"

definition push :: "line_buffer \<Rightarrow> char \<Rightarrow> string option \<times> line_buffer" where
  "push b c =
     (if is_terminator c then
        (if \<not> lb_discarding b \<and> length (lb_chars b) \<noteq> 0 then Some (lb_chars b) else None,
         b\<lparr>lb_chars := [], lb_discarding := False\<rparr>)
      else if \<not> lb_discarding b then
        (None, if length (lb_chars b) = line_capacity then b\<lparr>lb_discarding := True\<rparr>
               else b\<lparr>lb_chars := lb_chars b @ [c]\<rparr>)
      else (None, b))"

text \<open>The lines handed out while a string of characters is pushed.\<close>

fun push_all :: "line_buffer \<Rightarrow> string \<Rightarrow> string list \<times> line_buffer" where
  "push_all b [] = ([], b)"
| "push_all b (c # cs) = (case push b c of (l, b') \<Rightarrow> case push_all b' cs of (ls, b'') \<Rightarrow>
     ((case l of None \<Rightarrow> ls | Some x \<Rightarrow> x # ls), b''))"

section \<open>The specification: cut at terminators, keep what fits\<close>

text \<open>The terminated pieces of a text and the rest behind the last terminator.\<close>

fun pieces :: "string \<Rightarrow> string \<Rightarrow> string list \<times> string" where
  "pieces current [] = ([], current)"
| "pieces current (c # cs) = (if is_terminator c then (case pieces [] cs of (ps, r) \<Rightarrow> (current # ps, r))
     else pieces (current @ [c]) cs)"

definition accepted_lines :: "string \<Rightarrow> string list" where
  "accepted_lines text = filter (\<lambda>l. l \<noteq> [] \<and> length l \<le> line_capacity) (fst (pieces [] text))"

text \<open>The buffer after the characters \<open>current\<close> of an unfinished line.\<close>

definition buffer_of :: "string \<Rightarrow> line_buffer" where
  "buffer_of current = \<lparr>lb_chars = take line_capacity current, lb_discarding = (line_capacity < length current)\<rparr>"

lemma push_buffer_of:
  "push (buffer_of current) c = (if is_terminator c
     then (if current \<noteq> [] \<and> length current \<le> line_capacity then Some current else None, buffer_of [])
     else (None, buffer_of (current @ [c])))"
  by (auto simp: push_def buffer_of_def)

lemma push_all_buffer_of:
  "push_all (buffer_of current) cs =
     (filter (\<lambda>l. l \<noteq> [] \<and> length l \<le> line_capacity) (fst (pieces current cs)), buffer_of (snd (pieces current cs)))"
  by (induction current cs rule: pieces.induct) (simp_all add: push_buffer_of case_prod_beta)

section \<open>Properties\<close>

text \<open>
  The splitter implements the plain specification: for every character
  stream, the lines it hands out are the terminated lines of the stream that are neither empty nor
  longer than 80 characters, in order and complete. In particular no suffix of an overlong line is
  ever taken for a command.
\<close>

theorem splitter_refines_lines:
  "fst (push_all new_line_buffer text) = accepted_lines text"
  using push_all_buffer_of [of "[]" "text"] by (simp add: accepted_lines_def new_line_buffer_def buffer_of_def)

end
