(* ===== verification/NodeFirmware.thy ===== *)
theory NodeFirmware
  imports EthernetServer ProvisioningLine "HOL-Library.Monad_Syntax"
begin

text \<open>
  The node's main program (\<^verbatim>\<open>node-esp32-evb/src/main.cpp\<close>) and the device driver interface
  (\<^verbatim>\<open>IDeviceDriver.hpp\<close>): command execution with its time to live, the device-bus supervisor, the health
  and sample registers, the provisioning console and one turn of \<^verbatim>\<open>loop\<close>. A vendor driver is not part
  of the repository; it is a record of operations over its own state, beside the driver the firmware
  creates. \<^verbatim>\<open>unsigned long\<close> has 32 bits on the ESP32, so the clock and its differences wrap. Peripheral
  set-up, \<^verbatim>\<open>String::trim\<close>, \<^verbatim>\<open>IPAddress::fromString\<close> and the hash are arguments. This is the control core
  of the program; theory \<^verbatim>\<open>NodeMain\<close> composes it with the uplink and the update service.
\<close>

section \<open>Device drivers\<close>

record driver_sample =
  ds_actualPowerKwX10 :: u16
  ds_energyWh :: u32
  ds_state :: u16
  ds_alarms :: u16
  ds_quality :: u16

definition default_sample :: driver_sample where
  "default_sample = \<lparr>ds_actualPowerKwX10 = 0, ds_energyWh = 0, ds_state = 0, ds_alarms = 0, ds_quality = 0\<rparr>"

record 'd driver_ops =
  dd_begin :: "('d, bool) state"
  dd_poll :: "('d, driver_sample) state"
  dd_applyPowerCommand :: "u16 \<Rightarrow> ('d, bool) state"
  dd_requiresDeviceBus :: "'d \<Rightarrow> bool"
  dd_healthy :: "'d \<Rightarrow> bool"

text \<open>The object behind the driver pointer: a compiled vendor driver or the unconfigured one.\<close>

datatype 'd driver = Vendor 'd | Unconfigured u16 u16

fun drv_begin :: "'d driver_ops \<Rightarrow> 'd driver \<Rightarrow> bool \<times> 'd driver" where
  "drv_begin ops (Vendor d) = map_prod id Vendor (run_state (dd_begin ops) d)"
| "drv_begin ops (Unconfigured t i) = (False, Unconfigured t i)"

fun drv_poll :: "'d driver_ops \<Rightarrow> 'd driver \<Rightarrow> driver_sample \<times> 'd driver" where
  "drv_poll ops (Vendor d) = map_prod id Vendor (run_state (dd_poll ops) d)"
| "drv_poll ops (Unconfigured t i) =
     (default_sample\<lparr>ds_state := (if i = 0 then NodeState_DriverMissing else t), ds_quality := 0\<rparr>, Unconfigured t i)"

fun drv_apply :: "'d driver_ops \<Rightarrow> u16 \<Rightarrow> 'd driver \<Rightarrow> bool \<times> 'd driver" where
  "drv_apply ops p (Vendor d) = map_prod id Vendor (run_state (dd_applyPowerCommand ops p) d)"
| "drv_apply ops p (Unconfigured t i) = (False, Unconfigured t i)"

fun drv_requiresDeviceBus :: "'d driver_ops \<Rightarrow> 'd driver \<Rightarrow> bool" where
  "drv_requiresDeviceBus ops (Vendor d) = dd_requiresDeviceBus ops d"
| "drv_requiresDeviceBus ops (Unconfigured t i) = False"

fun drv_healthy :: "'d driver_ops \<Rightarrow> 'd driver \<Rightarrow> bool" where
  "drv_healthy ops (Vendor d) = dd_healthy ops d"
| "drv_healthy ops (Unconfigured t i) = False"

section \<open>The program's state\<close>

record nvs =
  nv_node_address :: u8
  nv_node_type :: u16
  nv_driver_id :: u16
  nv_port :: u16
  nv_rockpi_ip :: string
  nv_ota_token_hash :: string

record 'd firmware =
  fw_node :: mbus_node
  fw_driver :: "'d driver"
  fw_control :: eth_server
  fw_nvs :: nvs
  fw_line :: line_buffer
  fw_lastPollMs :: u32
  fw_lastCommandMs :: u32
  fw_lastCommandSequence :: u16
  fw_commandArmed :: bool
  fw_ethernetSeen :: bool
  fw_ethernetUp :: bool
  fw_deviceBusReady :: bool
  fw_driverReady :: bool
  fw_watchdogReady :: bool
  fw_restartControlRequested :: bool
  fw_ethernetRecoveries :: u16
  fw_busRecoveries :: u16
  fw_lastError :: u16
  fw_lastBusRecoveryMs :: u32
  fw_lastSample :: driver_sample
  fw_rebooting :: bool

definition set_reg :: "nat \<Rightarrow> u16 \<Rightarrow> 'd firmware \<Rightarrow> 'd firmware" where
  "set_reg a v fw = fw\<lparr>fw_node := setRegister (fw_node fw) a v\<rparr>"

definition get_reg :: "'d firmware \<Rightarrow> nat \<Rightarrow> u16" where
  "get_reg fw a = registerValue (fw_node fw) a"

definition bool16 :: "bool \<Rightarrow> u16" where
  "bool16 b = (if b then 1 else 0)"

section \<open>Registers published by the firmware\<close>

definition publishHealthRegisters :: "'d firmware \<Rightarrow> 'd firmware" where
  "publishHealthRegisters fw =
     (let totalRecoveries = fw_ethernetRecoveries fw + fw_busRecoveries fw;
          listening = eth_listening (fw_control fw)
      in (set_reg G_LastError (fw_lastError fw) \<circ> set_reg G_BusRecoveryCount (fw_busRecoveries fw) \<circ>
          set_reg G_EthernetRecoveryCount (fw_ethernetRecoveries fw) \<circ> set_reg G_RecoveryCount totalRecoveries \<circ>
          set_reg G_WatchdogStatus (bool16 (fw_watchdogReady fw)) \<circ>
          set_reg G_DeviceBusStatus (bool16 (fw_deviceBusReady fw)) \<circ>
          set_reg G_DriverReady (bool16 (fw_driverReady fw)) \<circ> set_reg G_ModbusTcpStatus (bool16 listening) \<circ>
          set_reg G_EthernetStatus (if fw_ethernetUp fw then 2 else 0)) fw)"

definition publishDriverSample :: "driver_sample \<Rightarrow> 'd firmware \<Rightarrow> 'd firmware" where
  "publishDriverSample s =
     set_reg G_Quality (ds_quality s) \<circ> set_reg G_AlarmBits (ds_alarms s) \<circ> set_reg G_DeviceState (ds_state s) \<circ>
     set_reg G_EnergyWhLow (ucast (ds_energyWh s)) \<circ> set_reg G_EnergyWhHigh (ucast (drop_bit 16 (ds_energyWh s))) \<circ>
     set_reg G_ActualPowerKwX10 (ds_actualPowerKwX10 s)"

section \<open>Commands and the device bus\<close>

definition accept_command :: "'d driver_ops \<Rightarrow> u32 \<Rightarrow> 'd firmware \<Rightarrow> 'd firmware" where
  "accept_command ops nowMs fw =
     (let sequence = get_reg fw G_CommandSequence; ttlSeconds = get_reg fw G_CommandTtlSeconds;
          enabled = (get_reg fw G_CommandEnable = 1);
          ttlValid = (1 \<le> ttlSeconds \<and> ttlSeconds \<le> 30);
          requested = get_reg fw G_RequestedPowerKwX10;
          (accepted, driver') = (if enabled \<and> ttlValid then drv_apply ops requested (fw_driver fw) else (False, fw_driver fw));
          fw1 = fw\<lparr>fw_lastCommandSequence := sequence, fw_lastCommandMs := nowMs, fw_driver := driver'\<rparr>;
          fw2 = set_reg G_AppliedPowerKwX10 (if accepted then requested else 0) fw1;
          fw3 = set_reg G_LastCommandResult (if accepted then 1 else if ttlValid then 2 else 4) fw2
      in fw3\<lparr>fw_commandArmed := accepted\<rparr>)"

definition expire_command :: "'d driver_ops \<Rightarrow> u32 \<Rightarrow> u16 \<Rightarrow> 'd firmware \<Rightarrow> 'd firmware" where
  "expire_command ops nowMs ttlSeconds fw =
     (if fw_commandArmed fw \<and> ucast ttlSeconds * 1000 < nowMs - fw_lastCommandMs fw then
        (let fw1 = fw\<lparr>fw_driver := snd (drv_apply ops 0 (fw_driver fw))\<rparr>;
             fw2 = set_reg G_LastCommandResult 3 (set_reg G_AppliedPowerKwX10 0 fw1)
         in fw2\<lparr>fw_commandArmed := False\<rparr>)
      else fw)"

definition applyCommand :: "'d driver_ops \<Rightarrow> u32 \<Rightarrow> 'd firmware \<Rightarrow> 'd firmware" where
  "applyCommand ops nowMs fw =
     (let ttlSeconds = get_reg fw G_CommandTtlSeconds;
          fw1 = (if get_reg fw G_CommandSequence \<noteq> fw_lastCommandSequence fw then accept_command ops nowMs fw else fw)
      in expire_command ops nowMs ttlSeconds fw1)"

text \<open>\<open>busOk\<close> is the result of \<^verbatim>\<open>initializeDeviceBus\<close>, which programs the peripheral.\<close>

definition superviseDeviceBus :: "'d driver_ops \<Rightarrow> bool \<Rightarrow> u32 \<Rightarrow> 'd firmware \<Rightarrow> 'd firmware" where
  "superviseDeviceBus ops busOk nowMs fw =
     (if \<not> drv_requiresDeviceBus ops (fw_driver fw) \<or> (fw_driverReady fw \<and> drv_healthy ops (fw_driver fw)) \<or>
         nowMs - fw_lastBusRecoveryMs fw < 30000 then fw
      else let (begun, driver') = (if busOk then drv_begin ops (fw_driver fw) else (False, fw_driver fw))
           in fw\<lparr>fw_lastBusRecoveryMs := nowMs, fw_deviceBusReady := busOk, fw_driver := driver',
                fw_driverReady := busOk \<and> begun, fw_busRecoveries := fw_busRecoveries fw + 1,
                fw_lastError := (if busOk \<and> begun then 0 else 2)\<rparr>)"

section \<open>Identity and provisioning\<close>

definition persistNodeConfig :: "'d firmware \<Rightarrow> 'd firmware" where
  "persistNodeConfig fw = (case takeConfigurationChanged (fw_node fw) of (changed, node') \<Rightarrow>
     if \<not> changed then fw\<lparr>fw_node := node'\<rparr>
     else fw\<lparr>fw_node := node', fw_nvs := (fw_nvs fw)\<lparr>nv_node_address := cf_address (nd_config node'),
       nv_node_type := cf_type (nd_config node'), nv_driver_id := cf_driverId (nd_config node')\<rparr>\<rparr>)"

text \<open>\<^verbatim>\<open>sscanf\<close> with \<^verbatim>\<open>%u %u %u\<close>: each conversion skips white space, takes an optional sign and digits, and
  converts as \<^verbatim>\<open>strtoul\<close> does, saturating at 32 bits and negating modulo $2^{32}$.\<close>

definition c_space :: "char \<Rightarrow> bool" where
  "c_space c \<longleftrightarrow> c = CHR '' '' \<or> (of_char c :: nat) \<in> {9..13}"

definition c_digit :: "char \<Rightarrow> bool" where
  "c_digit c \<longleftrightarrow> (of_char c :: nat) \<in> {48..57}"

definition strtoul :: "bool \<Rightarrow> string \<Rightarrow> u32" where
  "strtoul neg ds = (let n = foldl (\<lambda>a c. 10 * a + (of_char c - 48)) (0 :: nat) ds
     in if 0xFFFFFFFF < n then 0xFFFFFFFF else if neg then - of_nat n else of_nat n)"

definition scan_unsigned :: "string \<Rightarrow> (u32 \<times> string) option" where
  "scan_unsigned s =
     (let s0 = dropWhile c_space s;
          signed = (s0 \<noteq> [] \<and> (hd s0 = CHR ''-'' \<or> hd s0 = CHR ''+''));
          s1 = (if signed then tl s0 else s0); ds = takeWhile c_digit s1
      in if ds = [] then None else Some (strtoul (signed \<and> hd s0 = CHR ''-'') ds, dropWhile c_digit s1))"

definition scan_three :: "string \<Rightarrow> (u32 \<times> u32 \<times> u32) option" where
  "scan_three s = do {(a, s1) \<leftarrow> scan_unsigned s; (b, s2) \<leftarrow> scan_unsigned s1; (c, s3) \<leftarrow> scan_unsigned s2; Some (a, b, c)}"

text \<open>What the console uses of the platform: the address parser, the hash, \<^verbatim>\<open>String::trim\<close>, and whether
  opening and writing the store succeed.\<close>

record console_env =
  ce_fromString :: "string \<Rightarrow> u32 option"
  ce_sha256Hex :: "string \<Rightarrow> string"
  ce_trim :: "string \<Rightarrow> string"
  ce_opens :: bool
  ce_writes :: bool

definition provisionNode :: "string \<Rightarrow> 'd firmware \<Rightarrow> 'd firmware" where
  "provisionNode arguments fw = (case scan_three arguments of None \<Rightarrow> fw
     | Some (address, type, driverId) \<Rightarrow>
         if 247 < address \<or> ucast NodeType_SecondCabinet < type \<or> 65535 < driverId then fw
         else case provision (fw_node fw) (ucast address) (ucast type) (ucast driverId) of (ok, node') \<Rightarrow>
           if \<not> ok then fw\<lparr>fw_node := node'\<rparr>
           else let fw1 = persistNodeConfig (fw\<lparr>fw_node := node'\<rparr>)
                in fw1\<lparr>fw_driver := Unconfigured (cf_type (nd_config (fw_node fw1))) (cf_driverId (nd_config (fw_node fw1))),
                     fw_driverReady := False\<rparr>)"

definition starts_with :: "string \<Rightarrow> string \<Rightarrow> bool" where
  "starts_with p s \<longleftrightarrow> take (length p) s = p"

definition processProvisioningLine :: "console_env \<Rightarrow> string \<Rightarrow> 'd firmware \<Rightarrow> 'd firmware" where
  "processProvisioningLine ce rawLine fw =
     (let l = ce_trim ce rawLine in
      if l = ''help'' \<or> l = ''status'' then fw
      else if l = ''ota-clear'' then
        (if \<not> ce_opens ce then fw
         else fw\<lparr>fw_nvs := (fw_nvs fw)\<lparr>nv_ota_token_hash := []\<rparr>, fw_rebooting := True\<rparr>)
      else if starts_with ''node '' l then provisionNode (drop 5 l) fw
      else if starts_with ''ota-key '' l then
        (let token = drop 8 l in
         if length token < 32 \<or> 128 < length token then fw
         else if \<not> ce_opens ce then fw
         else let tokenHash = ce_sha256Hex ce token
              in if tokenHash \<noteq> [] \<and> ce_writes ce
                 then fw\<lparr>fw_nvs := (fw_nvs fw)\<lparr>nv_ota_token_hash := tokenHash\<rparr>, fw_rebooting := True\<rparr>
                 else fw)
      else if \<not> starts_with ''rockpi '' l then fw
      else let v = drop 7 l in
        case ce_fromString ce v of None \<Rightarrow> fw
        | Some address \<Rightarrow>
            if \<not> ce_opens ce then fw
            else if \<not> ce_writes ce then fw
            else fw\<lparr>fw_nvs := (fw_nvs fw)\<lparr>nv_rockpi_ip := v\<rparr>,
                   fw_control := setRockPiAddress (fw_control fw) address\<rparr>)"

text \<open>At most 80 characters per turn; a restart of the board ends the turn. The line passes through a C
  string, which ends at the first zero character.\<close>

definition c_str :: "string \<Rightarrow> string" where
  "c_str s = takeWhile (\<lambda>c. c \<noteq> CHR 0x00) s"

fun console_chars :: "console_env \<Rightarrow> string \<Rightarrow> 'd firmware \<Rightarrow> 'd firmware" where
  "console_chars ce [] fw = fw"
| "console_chars ce (c # cs) fw = (if fw_rebooting fw then fw
     else case push (fw_line fw) c of (l, b) \<Rightarrow>
       let fw1 = fw\<lparr>fw_line := b\<rparr>
       in console_chars ce cs (case l of None \<Rightarrow> fw1 | Some x \<Rightarrow> processProvisioningLine ce (c_str x) fw1))"

definition processProvisioningSerial :: "console_env \<Rightarrow> string \<Rightarrow> 'd firmware \<Rightarrow> 'd firmware" where
  "processProvisioningSerial ce available fw = console_chars ce (take 80 available) fw"

section \<open>Events and the main loop\<close>

datatype eth_event = EthGotIp | EthDisconnected

fun onEvent :: "eth_event \<Rightarrow> 'd firmware \<Rightarrow> 'd firmware" where
  "onEvent EthGotIp fw = fw\<lparr>fw_ethernetSeen := True, fw_ethernetUp := True,
     fw_ethernetRecoveries := (if fw_ethernetSeen fw \<and> \<not> fw_ethernetUp fw then fw_ethernetRecoveries fw + 1
       else fw_ethernetRecoveries fw), fw_restartControlRequested := True\<rparr>"
| "onEvent EthDisconnected fw = fw\<lparr>fw_ethernetUp := False, fw_lastError := 1, fw_restartControlRequested := True\<rparr>"

text \<open>What the platform delivers during one turn: serial input, the network, the clock at each reading,
  and whether the cloud link is up.\<close>

record loop_env =
  le_console :: console_env
  le_serial :: string
  le_eth :: eth_env
  le_millisCommand :: u32
  le_millisBus :: u32
  le_busOk :: bool
  le_millisPoll :: u32
  le_millisPollStart :: u32
  le_millisUptime :: u32
  le_cloudConnected :: bool

definition control_turn :: "loop_env \<Rightarrow> 'd firmware \<Rightarrow> 'd firmware" where
  "control_turn env fw = (case eth_loop (fw_control fw) (fw_node fw) (le_eth env) of (replies, node', control') \<Rightarrow>
     let fw1 = fw\<lparr>fw_node := node', fw_control := control'\<rparr>
     in if fw_restartControlRequested fw1
        then fw1\<lparr>fw_restartControlRequested := False, fw_control := eth_restart control'\<rparr> else fw1)"

definition poll_turn :: "'d driver_ops \<Rightarrow> loop_env \<Rightarrow> 'd firmware \<Rightarrow> 'd firmware" where
  "poll_turn ops env fw =
     (if le_millisPoll env - fw_lastPollMs fw < 500 then fw
      else let (sample, driver') = drv_poll ops (fw_driver fw);
               fw1 = fw\<lparr>fw_lastPollMs := le_millisPollStart env, fw_driver := driver', fw_lastSample := sample\<rparr>;
               fw2 = publishDriverSample sample fw1;
               fw3 = set_reg G_UptimeLow (ucast (le_millisUptime env div 1000)) fw2;
               fw4 = publishHealthRegisters fw3;
               fw5 = set_reg G_Heartbeat (get_reg fw4 G_Heartbeat + 1) fw4
           in set_reg G_CloudConnected (bool16 (le_cloudConnected env)) fw5)"

definition main_loop :: "'d driver_ops \<Rightarrow> loop_env \<Rightarrow> 'd firmware \<Rightarrow> 'd firmware" where
  "main_loop ops env fw =
     (let fw1 = processProvisioningSerial (le_console env) (le_serial env) fw
      in if fw_rebooting fw1 then fw1
         else poll_turn ops env (superviseDeviceBus ops (le_busOk env) (le_millisBus env) (persistNodeConfig
           (applyCommand ops (le_millisCommand env) (control_turn env fw1)))))"

section \<open>Start-up\<close>

definition loadConfig :: "u64 \<Rightarrow> nvs \<Rightarrow> node_config" where
  "loadConfig uid nv = \<lparr>cf_address = nv_node_address nv, cf_type = nv_node_type nv, cf_driverId = nv_driver_id nv, cf_uid = uid\<rparr>"

text \<open>A string that does not parse leaves the default address, which is zero.\<close>

definition loadControlConfig :: "(string \<Rightarrow> u32 option) \<Rightarrow> nvs \<Rightarrow> eth_config" where
  "loadControlConfig parse nv = \<lparr>ec_port = nv_port nv, ec_unitId = 1,
     ec_rockPiAddress = (case parse (nv_rockpi_ip nv) of None \<Rightarrow> 0 | Some a \<Rightarrow> a)\<rparr>"

text \<open>The results of the peripheral calls of \<^verbatim>\<open>setup\<close>. Ethernet events that arrive while it runs are delivered
  where Ethernet is started.\<close>

record setup_env =
  se_fromString :: "string \<Rightarrow> u32 option"
  se_events :: "eth_event list"
  se_busOk :: bool
  se_watchdogOk :: bool
  se_linkUp :: bool

definition globals :: "u64 \<Rightarrow> (string \<Rightarrow> u32 option) \<Rightarrow> nvs \<Rightarrow> 'd firmware" where
  "globals uid parse nv =
     (let node = new_node (loadConfig uid nv) in
      \<lparr>fw_node = node, fw_driver = Unconfigured (cf_type (nd_config node)) (cf_driverId (nd_config node)),
       fw_control = new_eth_server (loadControlConfig parse nv), fw_nvs = nv, fw_line = new_line_buffer,
       fw_lastPollMs = 0, fw_lastCommandMs = 0, fw_lastCommandSequence = 0, fw_commandArmed = False,
       fw_ethernetSeen = False, fw_ethernetUp = False, fw_deviceBusReady = False, fw_driverReady = False,
       fw_watchdogReady = False, fw_restartControlRequested = False, fw_ethernetRecoveries = 0,
       fw_busRecoveries = 0, fw_lastError = 0, fw_lastBusRecoveryMs = 0, fw_lastSample = default_sample,
       fw_rebooting = False\<rparr>)"

definition firmware_setup :: "'d driver_ops \<Rightarrow> u64 \<Rightarrow> setup_env \<Rightarrow> nvs \<Rightarrow> 'd firmware" where
  "firmware_setup ops uid env nv =
     (let fw1 = fold onEvent (se_events env) (globals uid (se_fromString env) nv);
          fw2 = fw1\<lparr>fw_deviceBusReady := se_busOk env, fw_lastError := (if se_busOk env then fw_lastError fw1 else 2)\<rparr>;
          (begun, driver') = (if se_busOk env then drv_begin ops (fw_driver fw2) else (False, fw_driver fw2));
          fw3 = fw2\<lparr>fw_driver := driver', fw_driverReady := se_busOk env \<and> begun,
            fw_control := eth_begin (fw_control fw2), fw_watchdogReady := se_watchdogOk env,
            fw_lastError := (if se_watchdogOk env then fw_lastError fw2 else 3), fw_ethernetUp := se_linkUp env\<rparr>
      in publishHealthRegisters fw3)"

section \<open>Register bookkeeping\<close>

lemma set_reg_simps [simp]:
  "fw_driver (set_reg a v fw) = fw_driver fw" "fw_control (set_reg a v fw) = fw_control fw"
  "fw_commandArmed (set_reg a v fw) = fw_commandArmed fw" "fw_lastCommandMs (set_reg a v fw) = fw_lastCommandMs fw"
  "fw_lastCommandSequence (set_reg a v fw) = fw_lastCommandSequence fw" "fw_driverReady (set_reg a v fw) = fw_driverReady fw"
  "nd_config (fw_node (set_reg a v fw)) = nd_config (fw_node fw)" "fw_nvs (set_reg a v fw) = fw_nvs fw"
  "fw_lastPollMs (set_reg a v fw) = fw_lastPollMs fw" "fw_ethernetRecoveries (set_reg a v fw) = fw_ethernetRecoveries fw"
  "fw_busRecoveries (set_reg a v fw) = fw_busRecoveries fw" "fw_lastError (set_reg a v fw) = fw_lastError fw"
  "nd_configurationChanged (fw_node (set_reg a v fw)) = nd_configurationChanged (fw_node fw)"
  "length (nd_registers (fw_node (set_reg a v fw))) = length (nd_registers (fw_node fw))"
  by (simp_all add: set_reg_def setRegister_def)

lemma get_set_reg:
  "get_reg (set_reg a v fw) b = (if a = b \<and> a < length (nd_registers (fw_node fw)) then v else get_reg fw b)"
  by (simp add: get_reg_def set_reg_def setRegister_def registerValue_def)

lemma get_reg_update [simp]:
  "get_reg (fw\<lparr>fw_driver := x1\<rparr>) b = get_reg fw b" "get_reg (fw\<lparr>fw_commandArmed := x2\<rparr>) b = get_reg fw b"
  "get_reg (fw\<lparr>fw_lastCommandMs := x3\<rparr>) b = get_reg fw b" "get_reg (fw\<lparr>fw_lastCommandSequence := x4\<rparr>) b = get_reg fw b"
  "get_reg (fw\<lparr>fw_lastPollMs := x5\<rparr>) b = get_reg fw b" "get_reg (fw\<lparr>fw_lastSample := x6\<rparr>) b = get_reg fw b"
  "get_reg (fw\<lparr>fw_line := x7\<rparr>) b = get_reg fw b" "get_reg (fw\<lparr>fw_nvs := x8\<rparr>) b = get_reg fw b"
  "get_reg (fw\<lparr>fw_control := x9\<rparr>) b = get_reg fw b" "get_reg (fw\<lparr>fw_rebooting := y1\<rparr>) b = get_reg fw b"
  "get_reg (fw\<lparr>fw_driverReady := y2\<rparr>) b = get_reg fw b"
  by (simp_all add: get_reg_def)

lemma set_reg_ok: "a \<noteq> G_ApplyConfiguration \<Longrightarrow> node_ok (fw_node fw) \<Longrightarrow> node_ok (fw_node (set_reg a v fw))"
  by (auto simp: set_reg_def setRegister_def node_ok_def)

lemma split_u32: "unat (ucast (drop_bit 16 e) :: u16) * 65536 + unat (ucast e :: u16) = unat (e :: u32)"
proof -
  have "unat e < 2 ^ 32" using unsigned_less [of e] by simp
  then show ?thesis
    by (simp add: unat_ucast_take take_bit_eq_mod drop_bit_eq_div unat_div)
qed

section \<open>The power commands a driver receives\<close>

fun driver_log :: "('d \<Rightarrow> u16 list) \<Rightarrow> 'd driver \<Rightarrow> u16 list" where
  "driver_log lg (Vendor d) = lg d"
| "driver_log lg (Unconfigured t i) = []"

fun is_vendor :: "'d driver \<Rightarrow> bool" where
  "is_vendor (Vendor d) = True"
| "is_vendor (Unconfigured t i) = False"

text \<open>
  The contract of an observed vendor driver: a log of the powers it is asked to apply, which only
  \<^verbatim>\<open>applyPowerCommand\<close> extends.
\<close>

locale command_monitor =
  fixes ops :: "'d driver_ops" and lg :: "'d \<Rightarrow> u16 list"
  assumes begin_quiet: "lg (snd (run_state (dd_begin ops) d)) = lg d"
    and poll_quiet: "lg (snd (run_state (dd_poll ops) d)) = lg d"
    and apply_logged: "lg (snd (run_state (dd_applyPowerCommand ops p) d)) = lg d @ [p]"
begin

lemma log_apply: "is_vendor x \<Longrightarrow> driver_log lg (snd (drv_apply ops p x)) = driver_log lg x @ [p]"
  by (cases x) (simp_all add: apply_logged)

lemma log_quiet: "driver_log lg (snd (drv_begin ops x)) = driver_log lg x" "driver_log lg (snd (drv_poll ops x)) = driver_log lg x"
  by (cases x; simp add: begin_quiet poll_quiet)+

lemma vendor_apply [simp]: "is_vendor (snd (drv_apply ops p x)) = is_vendor x"
  by (cases x) simp_all

text \<open>A new command: the request reaches the driver only enabled and with a valid time to live.\<close>

lemma accept_log:
  assumes "is_vendor (fw_driver fw)"
  shows "driver_log lg (fw_driver (accept_command ops now fw)) = driver_log lg (fw_driver fw) @
    (if get_reg fw G_CommandEnable = 1 \<and> 1 \<le> get_reg fw G_CommandTtlSeconds \<and> get_reg fw G_CommandTtlSeconds \<le> 30
     then [get_reg fw G_RequestedPowerKwX10] else [])"
  using assms log_apply by (simp add: accept_command_def Let_def case_prod_beta)

lemma expire_log:
  assumes "is_vendor (fw_driver fw)"
  shows "driver_log lg (fw_driver (expire_command ops now ttl fw)) = driver_log lg (fw_driver fw) @
    (if fw_commandArmed fw \<and> ucast ttl * 1000 < now - fw_lastCommandMs fw then [0] else [])"
  using assms log_apply by (simp add: expire_command_def Let_def)

lemma accept_vendor: "is_vendor (fw_driver (accept_command ops now fw)) = is_vendor (fw_driver fw)"
  by (simp add: accept_command_def Let_def case_prod_beta)

end

definition recording_driver :: "'d driver_ops \<Rightarrow> ('d \<times> u16 list) driver_ops" where
  "recording_driver ops = \<lparr>
     dd_begin = State (\<lambda>(d, l). let r = run_state (dd_begin ops) d in (fst r, (snd r, l))),
     dd_poll = State (\<lambda>(d, l). let r = run_state (dd_poll ops) d in (fst r, (snd r, l))),
     dd_applyPowerCommand = (\<lambda>p. State (\<lambda>(d, l). let r = run_state (dd_applyPowerCommand ops p) d in (fst r, (snd r, l @ [p])))),
     dd_requiresDeviceBus = dd_requiresDeviceBus ops \<circ> fst,
     dd_healthy = dd_healthy ops \<circ> fst\<rparr>"

interpretation drec: command_monitor "recording_driver ops" snd for ops :: "'d driver_ops"
  by unfold_locales (simp_all add: recording_driver_def case_prod_beta Let_def)

lemma accept_effect:
  assumes "length (nd_registers (fw_node fw)) = G_HoldingCount"
  shows "fw_lastCommandSequence (accept_command ops now fw) = get_reg fw G_CommandSequence"
    "fw_lastCommandMs (accept_command ops now fw) = now"
    "get_reg (accept_command ops now fw) G_CommandSequence = get_reg fw G_CommandSequence"
    "get_reg (accept_command ops now fw) G_CommandTtlSeconds = get_reg fw G_CommandTtlSeconds"
    "get_reg (accept_command ops now fw) G_AppliedPowerKwX10 =
      (if fw_commandArmed (accept_command ops now fw) then get_reg fw G_RequestedPowerKwX10 else 0)"
    "fw_commandArmed (accept_command ops now fw) \<Longrightarrow>
      get_reg fw G_CommandEnable = 1 \<and> 1 \<le> get_reg fw G_CommandTtlSeconds \<and> get_reg fw G_CommandTtlSeconds \<le> 30"
  using assms by (auto simp: accept_command_def Let_def case_prod_beta get_set_reg split: if_splits)

section \<open>The invariant of the program\<close>

text \<open>
  The node and the server keep their own invariants, and the stored identity is the running one: a
  restart from the store would give the same configuration.
\<close>

definition fw_ok :: "u64 \<Rightarrow> 'd firmware \<Rightarrow> bool" where
  "fw_ok uid fw \<longleftrightarrow> node_ok (fw_node fw) \<and> eth_inv (fw_control fw) \<and> \<not> nd_configurationChanged (fw_node fw) \<and>
     nv_node_address (fw_nvs fw) \<le> 247 \<and> nd_config (new_node (loadConfig uid (fw_nvs fw))) = nd_config (fw_node fw)"

text \<open>Without a vendor driver nothing is armed and no command counts as accepted (1) or expired (3).\<close>

definition fw_readonly :: "'d firmware \<Rightarrow> bool" where
  "fw_readonly fw \<longleftrightarrow> \<not> is_vendor (fw_driver fw) \<and> \<not> fw_driverReady fw \<and> \<not> fw_commandArmed fw \<and>
     get_reg fw G_AppliedPowerKwX10 = 0 \<and> get_reg fw G_LastCommandResult \<in> {0, 2, 4} \<and> get_reg fw G_DriverReady = 0"

lemma unconfigured_driver:
  assumes "\<not> is_vendor x"
  shows "drv_apply ops p x = (False, x)" "drv_begin ops x = (False, x)" "snd (drv_poll ops x) = x"
    "\<not> drv_requiresDeviceBus ops x"
  using assms by (cases x; simp)+

lemma new_node_config:
  "nd_config (new_node c) = (if cf_address c = 0 then c\<lparr>cf_address := temporaryAddress (cf_uid c)\<rparr> else c)"
  "\<not> nd_configurationChanged (new_node c)"
  by (simp_all add: new_node_def initializeIdentity_def Let_def)

lemma fw_ok_update [simp]:
  "fw_ok uid (fw\<lparr>fw_driver := x1\<rparr>) = fw_ok uid fw" "fw_ok uid (fw\<lparr>fw_commandArmed := x2\<rparr>) = fw_ok uid fw"
  "fw_ok uid (fw\<lparr>fw_lastCommandMs := x3\<rparr>) = fw_ok uid fw" "fw_ok uid (fw\<lparr>fw_lastCommandSequence := x4\<rparr>) = fw_ok uid fw"
  "fw_ok uid (fw\<lparr>fw_lastPollMs := x5\<rparr>) = fw_ok uid fw" "fw_ok uid (fw\<lparr>fw_lastSample := x6\<rparr>) = fw_ok uid fw"
  "fw_ok uid (fw\<lparr>fw_line := x7\<rparr>) = fw_ok uid fw" "fw_ok uid (fw\<lparr>fw_rebooting := x8\<rparr>) = fw_ok uid fw"
  "fw_ok uid (fw\<lparr>fw_driverReady := x9\<rparr>) = fw_ok uid fw"
  by (simp_all add: fw_ok_def)

lemma set_reg_fw_ok: "a \<noteq> G_ApplyConfiguration \<Longrightarrow> fw_ok uid fw \<Longrightarrow> fw_ok uid (set_reg a v fw)"
  using set_reg_ok [of a fw v] by (simp add: fw_ok_def)

lemma set_reg_readonly:
  "fw_readonly fw \<Longrightarrow> a = G_LastCommandResult \<longrightarrow> v \<in> {0, 2, 4} \<Longrightarrow>
   a = G_AppliedPowerKwX10 \<or> a = G_DriverReady \<longrightarrow> v = 0 \<Longrightarrow> fw_readonly (set_reg a v fw)"
  by (auto simp: fw_readonly_def get_set_reg)

lemma publishHealth_inv:
  "fw_ok uid fw \<Longrightarrow> fw_ok uid (publishHealthRegisters fw)"
  "fw_readonly fw \<Longrightarrow> fw_readonly (publishHealthRegisters fw)"
proof -
  show "fw_ok uid fw \<Longrightarrow> fw_ok uid (publishHealthRegisters fw)"
    unfolding publishHealthRegisters_def Let_def o_def by (intro set_reg_fw_ok) simp_all
  assume r: "fw_readonly fw"
  then have "bool16 (fw_driverReady fw) = 0" by (simp add: fw_readonly_def bool16_def)
  with r show "fw_readonly (publishHealthRegisters fw)"
    unfolding publishHealthRegisters_def Let_def o_def by (intro set_reg_readonly) simp_all
qed

lemma publishSample_inv:
  "fw_ok uid fw \<Longrightarrow> fw_ok uid (publishDriverSample s fw)"
  "fw_readonly fw \<Longrightarrow> fw_readonly (publishDriverSample s fw)"
  by (simp_all add: publishDriverSample_def set_reg_fw_ok set_reg_readonly)

lemma poll_turn_inv:
  "fw_ok uid fw \<Longrightarrow> fw_ok uid (poll_turn ops env fw)"
  "fw_readonly fw \<Longrightarrow> fw_readonly (poll_turn ops env fw)"
proof -
  show "fw_ok uid fw \<Longrightarrow> fw_ok uid (poll_turn ops env fw)"
    by (simp add: poll_turn_def Let_def case_prod_beta publishSample_inv publishHealth_inv set_reg_fw_ok)
  assume "fw_readonly fw"
  then have "fw_readonly (fw\<lparr>fw_lastPollMs := t, fw_driver := snd (drv_poll ops (fw_driver fw)), fw_lastSample := s\<rparr>)" for t s
    by (simp add: fw_readonly_def unconfigured_driver)
  with \<open>fw_readonly fw\<close> show "fw_readonly (poll_turn ops env fw)"
    by (simp add: poll_turn_def Let_def case_prod_beta publishSample_inv publishHealth_inv set_reg_readonly)
qed

lemma superviseDeviceBus_inv:
  "fw_ok uid fw \<Longrightarrow> fw_ok uid (superviseDeviceBus ops ok now fw)"
  "fw_readonly fw \<Longrightarrow> fw_readonly (superviseDeviceBus ops ok now fw)"
  by (simp add: superviseDeviceBus_def fw_ok_def Let_def split: prod.split)
    (simp add: superviseDeviceBus_def fw_readonly_def unconfigured_driver)

lemma applyCommand_inv:
  "fw_ok uid fw \<Longrightarrow> fw_ok uid (applyCommand ops now fw)"
  "fw_readonly fw \<Longrightarrow> fw_readonly (applyCommand ops now fw)"
proof -
  show "fw_ok uid fw \<Longrightarrow> fw_ok uid (applyCommand ops now fw)"
    by (simp add: applyCommand_def accept_command_def expire_command_def Let_def case_prod_beta set_reg_fw_ok)
  assume r: "fw_readonly fw"
  then have "fw_readonly (accept_command ops now fw)"
    by (auto simp: accept_command_def Let_def case_prod_beta fw_readonly_def unconfigured_driver get_set_reg)
  with r show "fw_readonly (applyCommand ops now fw)"
    by (simp add: applyCommand_def Let_def expire_command_def fw_readonly_def)
qed

lemma control_turn_inv:
  assumes "fw_ok uid fw"
  shows "fw_ok uid (control_turn env fw)" "fw_readonly fw \<Longrightarrow> fw_readonly (control_turn env fw)"
proof -
  obtain replies nd' sv' where e: "eth_loop (fw_control fw) (fw_node fw) (le_eth env) = (replies, nd', sv')" by (metis prod_cases3)
  have ok: "node_ok (fw_node fw)" "eth_inv (fw_control fw)" using assms by (simp_all add: fw_ok_def)
  have w: "eth_inv sv'" "command_window (fw_node fw) nd'" using eth_loop_confined [OF ok e] by simp_all
  have n: "node_ok nd'" using command_window_ok [OF w(2) ok(1)] .
  have same: "nd_config nd' = nd_config (fw_node fw)" "nd_configurationChanged nd' = nd_configurationChanged (fw_node fw)"
    using w(2) unfolding command_window_def by blast+
  show "fw_ok uid (control_turn env fw)"
    using assms w(1) n same by (simp add: control_turn_def e Let_def fw_ok_def restart_inv)
  have "registerValue nd' i = registerValue (fw_node fw) i" if "G_CommandTtlSeconds < i" for i
    using w(2) that by (simp add: command_window_def registerValue_def)
  then show "fw_readonly fw \<Longrightarrow> fw_readonly (control_turn env fw)"
    by (simp add: control_turn_def e Let_def fw_readonly_def get_reg_def)
qed

lemma persist_inv:
  "fw_ok uid fw \<Longrightarrow> persistNodeConfig fw = fw"
  by (simp add: persistNodeConfig_def takeConfigurationChanged_def fw_ok_def)

lemma registerValue_changed: "registerValue (nd\<lparr>nd_configurationChanged := c\<rparr>) i = registerValue nd i"
  by (simp add: registerValue_def)

lemma provisionNode_inv:
  assumes "fw_ok uid fw"
  shows "fw_ok uid (provisionNode args fw) \<and> (fw_readonly fw \<longrightarrow> fw_readonly (provisionNode args fw))"
proof (cases "scan_three args")
  case None
  then show ?thesis using assms by (simp add: provisionNode_def)
next
  case (Some x)
  obtain a t d where x: "x = (a, t, d)" by (cases x) auto
  have ok: "node_ok (fw_node fw)" "\<not> nd_configurationChanged (fw_node fw)" using assms by (simp_all add: fw_ok_def)
  obtain b nd' where p: "provision (fw_node fw) (ucast a) (ucast t) (ucast d) = (b, nd')" by fastforce
  show ?thesis
  proof (cases "247 < a \<or> ucast NodeType_SecondCabinet < t \<or> 65535 < d \<or> \<not> b")
    case True
    then have "provisionNode args fw = fw"
      using p by (auto simp: provisionNode_def Some x provision_def split: if_splits)
    then show ?thesis using assms by simp
  next
    case False
    define fw' where "fw' = provisionNode args fw"
    have nd: "node_ok nd'" "nd_configurationChanged nd'" "1 \<le> cf_address (nd_config nd')" "cf_address (nd_config nd') \<le> 247"
      "cf_uid (nd_config nd') = cf_uid (nd_config (fw_node fw))"
      "\<forall>i > G_CommandTtlSeconds. registerValue nd' i = registerValue (fw_node fw) i"
      using p False provision_ok [OF ok(1), of "ucast a" "ucast t" "ucast d"]
      by (auto simp: provision_def registerValue_def one_le_word not_less split: if_splits)
    have f: "fw' = fw\<lparr>fw_node := nd'\<lparr>nd_configurationChanged := False\<rparr>, fw_nvs := (fw_nvs fw)\<lparr>nv_node_address := cf_address (nd_config nd'),
       nv_node_type := cf_type (nd_config nd'), nv_driver_id := cf_driverId (nd_config nd')\<rparr>,
       fw_driver := Unconfigured (cf_type (nd_config nd')) (cf_driverId (nd_config nd')), fw_driverReady := False\<rparr>"
      using False p nd(2) by (auto simp: fw'_def provisionNode_def Some x persistNodeConfig_def takeConfigurationChanged_def Let_def)
    have "cf_uid (nd_config (new_node (loadConfig uid n))) = uid" for n
      by (simp add: new_node_config loadConfig_def)
    then have "cf_uid (nd_config (fw_node fw)) = uid" using assms unfolding fw_ok_def by metis
    then have "fw_ok uid fw'"
      using assms nd by (auto simp: f fw_ok_def node_ok_def new_node_config loadConfig_def)
    moreover have "fw_readonly fw \<Longrightarrow> fw_readonly fw'"
      using nd(6) by (simp add: f fw_readonly_def get_reg_def registerValue_changed)
    ultimately show ?thesis by (simp add: fw'_def)
  qed
qed

lemma processLine_inv:
  assumes "fw_ok uid fw"
  shows "fw_ok uid (processProvisioningLine ce l fw) \<and> (fw_readonly fw \<longrightarrow> fw_readonly (processProvisioningLine ce l fw))"
proof -
  have nvs: "fw_ok uid (fw\<lparr>fw_nvs := (fw_nvs fw)\<lparr>nv_ota_token_hash := h\<rparr>\<rparr>)"
    "fw_ok uid (fw\<lparr>fw_nvs := (fw_nvs fw)\<lparr>nv_rockpi_ip := v\<rparr>, fw_control := setRockPiAddress (fw_control fw) ip\<rparr>)" for h v ip
    using assms by (simp_all add: fw_ok_def loadConfig_def eth_inv_def setRockPiAddress_def)
  have ro: "fw_readonly fw \<Longrightarrow> fw_readonly (fw\<lparr>fw_nvs := n, fw_rebooting := True\<rparr>)"
    "fw_readonly fw \<Longrightarrow> fw_readonly (fw\<lparr>fw_nvs := n, fw_control := c\<rparr>)" for n c
    by (simp_all add: fw_readonly_def)
  show ?thesis
    using assms nvs ro provisionNode_inv [OF assms] by (simp add: processProvisioningLine_def Let_def split: option.split)
qed

lemma console_chars_inv:
  "fw_ok uid fw \<Longrightarrow> fw_ok uid (console_chars ce cs fw) \<and> (fw_readonly fw \<longrightarrow> fw_readonly (console_chars ce cs fw))"
proof (induction cs arbitrary: fw)
  case (Cons c cs)
  obtain l b where p: "push (fw_line fw) c = (l, b)" by fastforce
  define fw1 where "fw1 = fw\<lparr>fw_line := b\<rparr>"
  have "fw_ok uid fw1" "fw_readonly fw \<Longrightarrow> fw_readonly fw1"
    using Cons.prems by (simp_all add: fw1_def fw_readonly_def)
  then show ?case
    using Cons.IH [of fw1] Cons.IH [of "processProvisioningLine ce (c_str (the l)) fw1"] processLine_inv [of uid fw1 ce "c_str (the l)"] Cons.prems
    by (cases l) (simp_all add: p Let_def fw1_def [symmetric])
qed simp

lemma onEvent_inv: "fw_ok uid (onEvent e fw) = fw_ok uid fw" "fw_readonly (onEvent e fw) = fw_readonly fw"
  by (cases e; simp add: fw_ok_def fw_readonly_def get_reg_def)+

lemma events_inv: "fw_ok uid (fold onEvent es fw) = fw_ok uid fw" "fw_readonly (fold onEvent es fw) = fw_readonly fw"
  by (induction es arbitrary: fw) (simp_all add: onEvent_inv)

lemma globals_inv:
  assumes "nv_node_address nv \<le> 247"
  shows "fw_ok uid (globals uid parse nv)" "fw_readonly (globals uid parse nv)"
proof -
  have ok: "node_ok (new_node (loadConfig uid nv))"
    using assms by (intro new_node_ok) (simp add: loadConfig_def)
  then show "fw_ok uid (globals uid parse nv)"
    using assms by (simp add: globals_def Let_def fw_ok_def new_node_config eth_inv_def new_eth_server_def)
  show "fw_readonly (globals uid parse nv)"
    by (simp add: globals_def Let_def fw_readonly_def get_reg_def registerValue_def new_node_def initializeIdentity_def)
qed

lemma setup_inv:
  assumes "nv_node_address nv \<le> 247"
  shows "fw_ok uid (firmware_setup ops uid env nv)" "fw_readonly (firmware_setup ops uid env nv)"
proof -
  define fw1 :: "'a firmware" where "fw1 = fold onEvent (se_events env) (globals uid (se_fromString env) nv)"
  have ok: "fw_ok uid fw1" and ro: "fw_readonly fw1" using globals_inv [OF assms] by (simp_all add: fw1_def events_inv)
  have "\<not> is_vendor (fw_driver fw1)" using ro by (simp add: fw_readonly_def)
  note d = unconfigured_driver [OF this]
  show "fw_ok uid (firmware_setup ops uid env nv)"
    unfolding firmware_setup_def fw1_def [symmetric] Let_def case_prod_beta
    by (intro publishHealth_inv) (use ok in \<open>simp add: fw_ok_def\<close>)
  show "fw_readonly (firmware_setup ops uid env nv)"
    unfolding firmware_setup_def fw1_def [symmetric] Let_def case_prod_beta
    by (intro publishHealth_inv) (use ro d in \<open>simp add: fw_readonly_def get_reg_def\<close>)
qed

section \<open>The console and the command path\<close>

text \<open>Registers of the command block and everything behind it, the armed command and its clock.\<close>

definition command_state :: "'d firmware \<Rightarrow> u16 list \<times> bool \<times> u16 \<times> u32" where
  "command_state fw = (drop G_CommandSequence (nd_registers (fw_node fw)), fw_commandArmed fw, fw_lastCommandSequence fw, fw_lastCommandMs fw)"

definition console_quiet :: "'d firmware \<Rightarrow> 'd firmware \<Rightarrow> bool" where
  "console_quiet fw fw' \<longleftrightarrow> command_state fw' = command_state fw \<and> (fw_driver fw' = fw_driver fw \<or> \<not> is_vendor (fw_driver fw'))"

lemma console_quiet_refl [simp]: "console_quiet fw fw"
  by (simp add: console_quiet_def)

lemma console_quiet_trans: "console_quiet a b \<Longrightarrow> console_quiet b c \<Longrightarrow> console_quiet a c"
  unfolding console_quiet_def by metis

lemma console_quiet_fields:
  "command_state (fw\<lparr>fw_nvs := n\<rparr>) = command_state fw" "command_state (fw\<lparr>fw_rebooting := b\<rparr>) = command_state fw"
  "command_state (fw\<lparr>fw_control := c\<rparr>) = command_state fw" "command_state (fw\<lparr>fw_driver := d\<rparr>) = command_state fw"
  "command_state (fw\<lparr>fw_driverReady := r\<rparr>) = command_state fw" "command_state (fw\<lparr>fw_line := l\<rparr>) = command_state fw"
  by (simp_all add: command_state_def)

lemma command_state_node:
  "drop G_CommandSequence (nd_registers nd') = drop G_CommandSequence (nd_registers (fw_node fw)) \<Longrightarrow>
   command_state (fw\<lparr>fw_node := nd'\<rparr>) = command_state fw"
  by (simp add: command_state_def)

lemma provision_registers: "drop G_CommandSequence (nd_registers (snd (provision nd a t d))) = drop G_CommandSequence (nd_registers nd)"
  by (simp add: provision_def)

lemma provisionNode_quiet: "console_quiet fw (provisionNode args fw)"
proof (cases "scan_three args")
  case (Some x)
  obtain a t d where x: "x = (a, t, d)" by (cases x) auto
  obtain b nd' where p: "provision (fw_node fw) (ucast a) (ucast t) (ucast d) = (b, nd')" by fastforce
  have "command_state (fw\<lparr>fw_node := nd'\<rparr>) = command_state fw"
    "command_state (fw\<lparr>fw_node := nd'\<lparr>nd_configurationChanged := False\<rparr>\<rparr>) = command_state fw"
    using provision_registers [of "fw_node fw" "ucast a" "ucast t" "ucast d"] by (simp_all add: p command_state_node)
  then show ?thesis
    by (simp add: provisionNode_def Some x p persistNodeConfig_def takeConfigurationChanged_def Let_def console_quiet_def console_quiet_fields)
qed (simp add: provisionNode_def)

lemma processLine_quiet: "console_quiet fw (processProvisioningLine ce l fw)"
proof -
  have "console_quiet fw (fw\<lparr>fw_nvs := n, fw_rebooting := b\<rparr>)" "console_quiet fw (fw\<lparr>fw_nvs := n, fw_control := c\<rparr>)" for n b c
    by (simp_all add: console_quiet_def console_quiet_fields)
  then show ?thesis
    by (simp add: processProvisioningLine_def Let_def provisionNode_quiet split: option.split)
qed

lemma console_chars_quiet: "console_quiet fw (console_chars ce cs fw)"
proof (induction cs arbitrary: fw)
  case (Cons c cs)
  obtain l b where p: "push (fw_line fw) c = (l, b)" by fastforce
  define fw1 where "fw1 = fw\<lparr>fw_line := b\<rparr>"
  define fw2 where "fw2 = (case l of None \<Rightarrow> fw1 | Some x \<Rightarrow> processProvisioningLine ce (c_str x) fw1)"
  have "console_quiet fw fw1" by (simp add: fw1_def console_quiet_def command_state_def)
  moreover have "console_quiet fw1 fw2" by (simp add: fw2_def processLine_quiet split: option.split)
  ultimately have "console_quiet fw (console_chars ce cs fw2)"
    using Cons.IH [of fw2] console_quiet_trans by blast
  then show ?case by (cases l) (simp_all add: p Let_def fw2_def fw1_def)
qed simp

section \<open>Properties\<close>


definition ack_driver :: "unit driver_ops" where
  "ack_driver = \<lparr>dd_begin = State (\<lambda>d. (True, d)), dd_poll = State (\<lambda>d. (default_sample, d)),
     dd_applyPowerCommand = (\<lambda>p. State (\<lambda>d. (True, d))), dd_requiresDeviceBus = (\<lambda>d. True), dd_healthy = (\<lambda>d. True)\<rparr>"

definition boot_firmware :: "'d driver \<Rightarrow> 'd firmware" where
  "boot_firmware drv = \<lparr>fw_node = example_node, fw_driver = drv, fw_control = example_eth,
     fw_nvs = \<lparr>nv_node_address = 7, nv_node_type = 4, nv_driver_id = 9, nv_port = 1502, nv_rockpi_ip = ''192.168.50.1'', nv_ota_token_hash = []\<rparr>,
     fw_line = new_line_buffer, fw_lastPollMs = 0, fw_lastCommandMs = 0, fw_lastCommandSequence = 0,
     fw_commandArmed = False, fw_ethernetSeen = False, fw_ethernetUp = True, fw_deviceBusReady = True,
     fw_driverReady = False, fw_watchdogReady = True, fw_restartControlRequested = False,
     fw_ethernetRecoveries = 0, fw_busRecoveries = 0, fw_lastError = 0, fw_lastBusRecoveryMs = 0,
     fw_lastSample = default_sample, fw_rebooting = False\<rparr>"


text \<open>
  Property C11 (liveness). The time to live is enforced: while a command is armed and its sequence
  stands, the first turn later than the time to live (measured on the wrapping 32-bit clock) sends
  zero power to the driver, clears the applied power, reports result 3 and disarms; an earlier turn
  changes nothing at all.
\<close>

theorem ttl_zeroes_power:
  assumes "is_vendor (fw_driver fw)" "length (nd_registers (fw_node fw)) = G_HoldingCount" "fw_commandArmed fw"
    "get_reg fw G_CommandSequence = fw_lastCommandSequence fw"
  shows "let fw' = applyCommand (recording_driver ops) now fw in
    if ucast (get_reg fw G_CommandTtlSeconds) * 1000 < now - fw_lastCommandMs fw
    then driver_log snd (fw_driver fw') = driver_log snd (fw_driver fw) @ [0] \<and>
      get_reg fw' G_AppliedPowerKwX10 = 0 \<and> get_reg fw' G_LastCommandResult = 3 \<and> \<not> fw_commandArmed fw'
    else fw' = fw"
  using assms drec.log_apply [of "fw_driver fw" ops 0]
  by (auto simp: applyCommand_def expire_command_def Let_def get_set_reg)

theorem ttl_zeroes_power_witness:
  "let fw = (set_reg G_CommandTtlSeconds 10 (boot_firmware (Vendor ((), [50]))))\<lparr>fw_commandArmed := True, fw_lastCommandMs := 0xFFFFF000\<rparr>
   in driver_log snd (fw_driver (applyCommand (recording_driver ack_driver) 0x3000 fw)) = [50, 0]"
proof -
  define fw :: "(unit \<times> u16 list) firmware" where "fw = (set_reg G_CommandTtlSeconds 10 (boot_firmware (Vendor ((), [50]))))\<lparr>fw_commandArmed := True, fw_lastCommandMs := 0xFFFFF000\<rparr>"
  have len: "length (nd_registers example_node) = 128" using example_node_ok by (simp add: node_ok_def)
  have "is_vendor (fw_driver fw)" "length (nd_registers (fw_node fw)) = G_HoldingCount" "fw_commandArmed fw"
    using len by (simp_all add: fw_def boot_firmware_def set_reg_def setRegister_def)
  moreover have "get_reg fw G_CommandSequence = fw_lastCommandSequence fw"
    using len by (simp add: fw_def boot_firmware_def set_reg_def setRegister_def get_reg_def registerValue_def example_node_def
        new_node_def initializeIdentity_def Let_def)
  moreover have "get_reg fw G_CommandTtlSeconds = 10" "fw_lastCommandMs fw = 0xFFFFF000" "driver_log snd (fw_driver fw) = [50]"
    using len by (simp_all add: fw_def boot_firmware_def set_reg_def setRegister_def get_reg_def registerValue_def)
  ultimately show ?thesis
    using ttl_zeroes_power [of fw ack_driver "0x3000"] unfolding fw_def [symmetric] by (simp add: Let_def)
qed

definition blank_nvs :: nvs where
  "blank_nvs = \<lparr>nv_node_address = 0, nv_node_type = 0, nv_driver_id = 0, nv_port = 1502, nv_rockpi_ip = [], nv_ota_token_hash = []\<rparr>"

definition bench_setup :: setup_env where
  "bench_setup = \<lparr>se_fromString = (\<lambda>s. None), se_events = [], se_busOk = True, se_watchdogOk = True, se_linkUp = True\<rparr>"


text \<open>
  Property C28 (error). A rejected command leaves the device where it was: when a command is armed and
  a new sequence arrives that is not enabled or has no valid time to live, the applied-power register
  reads zero and the command is disarmed, but no power is sent to the driver, and no later turn sends
  the zero fallback while that sequence stands.
\<close>

theorem rejected_command_keeps_output:
  assumes "is_vendor (fw_driver fw)" "length (nd_registers (fw_node fw)) = G_HoldingCount"
    "get_reg fw G_CommandSequence \<noteq> fw_lastCommandSequence fw"
    "get_reg fw G_CommandEnable \<noteq> 1 \<or> \<not> (1 \<le> get_reg fw G_CommandTtlSeconds \<and> get_reg fw G_CommandTtlSeconds \<le> 30)"
  shows "let fw' = applyCommand (recording_driver ops) now fw in
    driver_log snd (fw_driver fw') = driver_log snd (fw_driver fw) \<and> \<not> fw_commandArmed fw' \<and>
    get_reg fw' G_AppliedPowerKwX10 = 0 \<and> get_reg fw' G_LastCommandResult \<in> {2, 4} \<and>
    applyCommand (recording_driver ops) later fw' = fw'"
proof -
  define fa where "fa = accept_command (recording_driver ops) now fw"
  note e = accept_effect [OF assms(2), of "recording_driver ops" now, folded fa_def]
  have armed: "\<not> fw_commandArmed fa" using e(6) assms(4) by blast
  then have f: "applyCommand (recording_driver ops) now fw = fa" using assms(3) by (simp add: applyCommand_def expire_command_def Let_def fa_def)
  have "driver_log snd (fw_driver fa) = driver_log snd (fw_driver fw)"
    unfolding fa_def using assms(4) drec.accept_log [OF assms(1), of ops now] by simp
  moreover have "get_reg fa G_LastCommandResult \<in> {2, 4}"
    using assms(2,4) by (auto simp: fa_def accept_command_def Let_def get_set_reg)
  moreover have "applyCommand (recording_driver ops) later fa = fa"
    using e(1,3) armed by (simp add: applyCommand_def expire_command_def Let_def)
  ultimately show ?thesis using e(5) armed f by (simp add: Let_def)
qed

theorem rejected_command_keeps_output_witness:
  "let fw = (set_reg G_CommandSequence 2 (boot_firmware (Vendor ((), [50]))))\<lparr>fw_commandArmed := True, fw_lastCommandSequence := 1\<rparr>
   in driver_log snd (fw_driver (applyCommand (recording_driver ack_driver) 5 fw)) = [50]"
proof -
  define fw :: "(unit \<times> u16 list) firmware" where
    "fw = (set_reg G_CommandSequence 2 (boot_firmware (Vendor ((), [50]))))\<lparr>fw_commandArmed := True, fw_lastCommandSequence := 1\<rparr>"
  have len: "length (nd_registers example_node) = 128" using example_node_ok by (simp add: node_ok_def)
  have "is_vendor (fw_driver fw)" "length (nd_registers (fw_node fw)) = G_HoldingCount"
    using len by (simp_all add: fw_def boot_firmware_def)
  moreover have "get_reg fw G_CommandSequence \<noteq> fw_lastCommandSequence fw"
    using len by (simp add: fw_def get_set_reg boot_firmware_def)
  moreover have "get_reg fw G_CommandEnable \<noteq> 1"
    by (simp add: fw_def boot_firmware_def set_reg_def setRegister_def get_reg_def registerValue_def example_node_def
        new_node_def initializeIdentity_def Let_def)
  moreover have "driver_log snd (fw_driver fw) = [50]" by (simp add: fw_def boot_firmware_def)
  ultimately show ?thesis
    using rejected_command_keeps_output [of fw ack_driver 5] unfolding fw_def [symmetric] by (simp add: Let_def)
qed

text \<open>
  A due poll publishes the driver's sample and the health of the node: the
  energy counter is split over two registers without loss, the heartbeat advances by one (modulo
  $2^{16}$), and a turn less than 500 ms after the last poll, on the wrapping clock, changes nothing.
\<close>

theorem poll_publishes:
  assumes "length (nd_registers (fw_node fw)) = G_HoldingCount"
  shows "let s = fst (drv_poll ops (fw_driver fw)); fw' = poll_turn ops env fw in
    if le_millisPoll env - fw_lastPollMs fw < 500 then fw' = fw
    else unat (get_reg fw' G_EnergyWhHigh) * 65536 + unat (get_reg fw' G_EnergyWhLow) = unat (ds_energyWh s) \<and>
      get_reg fw' G_ActualPowerKwX10 = ds_actualPowerKwX10 s \<and> get_reg fw' G_DeviceState = ds_state s \<and>
      get_reg fw' G_AlarmBits = ds_alarms s \<and> get_reg fw' G_Quality = ds_quality s \<and>
      get_reg fw' G_Heartbeat = get_reg fw G_Heartbeat + 1 \<and>
      get_reg fw' G_RecoveryCount = fw_ethernetRecoveries fw + fw_busRecoveries fw \<and>
      get_reg fw' G_LastError = fw_lastError fw \<and> fw_lastPollMs fw' = le_millisPollStart env"
proof (cases "le_millisPoll env - fw_lastPollMs fw < 500")
  case True
  then show ?thesis by (simp add: poll_turn_def)
next
  case False
  then show ?thesis using assms
    by (simp add: poll_turn_def Let_def case_prod_beta publishHealthRegisters_def publishDriverSample_def get_set_reg split_u32)
qed

definition bench_loop :: loop_env where
  "bench_loop = \<lparr>le_console = \<lparr>ce_fromString = (\<lambda>s. None), ce_sha256Hex = (\<lambda>s. []), ce_trim = id, ce_opens = True, ce_writes = True\<rparr>,
     le_serial = [], le_eth = \<lparr>ev_connectedBefore = False, ev_candidate = None, ev_connectedAfter = False, ev_reads = [],
       ev_millisRead = 0, ev_millisEnd = 0\<rparr>,
     le_millisCommand = 600, le_millisBus = 600, le_busOk = True, le_millisPoll = 600, le_millisPollStart = 600,
     le_millisUptime = 600, le_cloudConnected = False\<rparr>"

theorem poll_publishes_witness:
  "get_reg (poll_turn ack_driver bench_loop (set_reg G_Heartbeat 0xFFFF (boot_firmware (Unconfigured 4 9)))) G_Heartbeat = 0"
proof -
  have "length (nd_registers example_node) = 128" using example_node_ok by (simp add: node_ok_def)
  then show ?thesis
    using poll_publishes [of "set_reg G_Heartbeat 0xFFFF (boot_firmware (Unconfigured 4 9))" ack_driver bench_loop]
    by (simp add: boot_firmware_def bench_loop_def get_set_reg Let_def)
qed

end
