(* ===== verification/Float64.thy ===== *)
theory Float64
  imports Prelude "HOL-Library.Log_Nat"
begin

text \<open>
  The C++ type \<^verbatim>\<open>double\<close> (IEEE 754 binary64, round to nearest, ties to even) as far as the
  gateway uses it. A finite value is a rational; the arithmetic operators compute the exact
  rational result and round it with \<open>rnd\<close>. The sign of a zero is not kept: no decision and no
  register of the gateway depends on it. A conversion to an integer type is \<open>None\<close> where
  C++ leaves it undefined (NaN, or a truncated value outside the target type), so undefined
  behaviour is a value the theorems can exclude.

  The lemmas at the end give the two facts the register codecs rest on: the relative error of one
  rounding is at most \<open>2 ^ -53\<close>, and a scaled register value survives division and
  multiplication by its scale.
\<close>

named_theorems dbl "rewrite rules for doubles"

section \<open>Values and rounding\<close>

datatype dbl = Fin rat | PInf | NInf | NaN

text \<open>The binary exponent of a positive rational: \<open>2 powi expo x \<le> x < 2 powi (expo x + 1)\<close>.\<close>

definition ilog2 :: "rat \<Rightarrow> nat" where
  "ilog2 y = floorlog 2 (nat \<lfloor>y\<rfloor>) - 1"

definition expo :: "rat \<Rightarrow> int" where
  "expo x = (if 1 \<le> x then int (ilog2 x)
     else let m = ilog2 (1 / x) in if x * 2 ^ m = 1 then - int m else - int m - 1)"

definition rne :: "rat \<Rightarrow> int" where
  "rne x = (let f = \<lfloor>x\<rfloor>; d = x - of_int f in
     if d < 1 / 2 then f else if 1 / 2 < d then f + 1 else if even f then f else f + 1)"

text \<open>
  \<open>rnd x\<close> is the double nearest to \<open>x\<close>: 53 significant bits, the spacing never below
  \<open>2 powi -1074\<close> (subnormal numbers), and an infinity when the rounded magnitude reaches
  \<open>2 ^ 1024\<close>. A literal such as \<^verbatim>\<open>0.001\<close> is \<open>rnd (1 / 1000)\<close>.
\<close>

definition rnd :: "rat \<Rightarrow> dbl" where
  "rnd x = (if x = 0 then Fin 0
     else let e = max (expo \<bar>x\<bar> - 52) (- 1074);
              y = of_int (rne (x / 2 powi e)) * 2 powi e
          in if 2 ^ 1024 \<le> \<bar>y\<bar> then (if 0 < x then PInf else NInf) else Fin y)"

section \<open>Operators of the language and of the standard library\<close>

fun dneg :: "dbl \<Rightarrow> dbl" where
  "dneg (Fin x) = Fin (- x)"
| "dneg PInf = NInf"
| "dneg NInf = PInf"
| "dneg NaN = NaN"

fun dabs :: "dbl \<Rightarrow> dbl" where
  "dabs (Fin x) = Fin \<bar>x\<bar>"
| "dabs NaN = NaN"
| "dabs _ = PInf"

fun dadd :: "dbl \<Rightarrow> dbl \<Rightarrow> dbl" where
  "dadd (Fin x) (Fin y) = rnd (x + y)"
| "dadd NaN _ = NaN"
| "dadd _ NaN = NaN"
| "dadd PInf NInf = NaN"
| "dadd NInf PInf = NaN"
| "dadd PInf _ = PInf"
| "dadd NInf _ = NInf"
| "dadd _ i = i"

definition dsub :: "dbl \<Rightarrow> dbl \<Rightarrow> dbl" where
  "dsub x y = dadd x (dneg y)"

fun dsgn :: "dbl \<Rightarrow> int" where
  "dsgn (Fin x) = (if x < 0 then - 1 else if x = 0 then 0 else 1)"
| "dsgn PInf = 1"
| "dsgn NInf = - 1"
| "dsgn NaN = 0"

definition dinf :: "int \<Rightarrow> dbl" where
  "dinf s = (if 0 < s then PInf else if s < 0 then NInf else NaN)"

fun dmul :: "dbl \<Rightarrow> dbl \<Rightarrow> dbl" where
  "dmul (Fin x) (Fin y) = rnd (x * y)"
| "dmul NaN _ = NaN"
| "dmul _ NaN = NaN"
| "dmul x y = dinf (dsgn x * dsgn y)"

fun ddiv :: "dbl \<Rightarrow> dbl \<Rightarrow> dbl" where
  "ddiv (Fin x) (Fin y) = (if y = 0 then dinf (dsgn (Fin x)) else rnd (x / y))"
| "ddiv NaN _ = NaN"
| "ddiv _ NaN = NaN"
| "ddiv (Fin x) _ = Fin 0"
| "ddiv x (Fin y) = dinf (dsgn x * (if y < 0 then - 1 else 1))"
| "ddiv _ _ = NaN"

text \<open>Comparisons are false when an operand is NaN.\<close>

fun dlt :: "dbl \<Rightarrow> dbl \<Rightarrow> bool" where
  "dlt (Fin x) (Fin y) = (x < y)"
| "dlt NaN _ = False"
| "dlt _ NaN = False"
| "dlt PInf _ = False"
| "dlt _ NInf = False"
| "dlt _ _ = True"

definition dle :: "dbl \<Rightarrow> dbl \<Rightarrow> bool" where
  "dle x y = (dlt x y \<or> (x = y \<and> x \<noteq> NaN))"

definition deq :: "dbl \<Rightarrow> dbl \<Rightarrow> bool" where
  "deq x y = (x = y \<and> x \<noteq> NaN)"

fun isfinite :: "dbl \<Rightarrow> bool" where
  "isfinite (Fin _) = True"
| "isfinite _ = False"

text \<open>
  \<^verbatim>\<open>std::max(a, b)\<close>, \<^verbatim>\<open>std::min(a, b)\<close> and \<^verbatim>\<open>std::clamp\<close> by their defining
  comparisons, so that a NaN operand selects the same argument as in C++.
\<close>

definition std_max :: "dbl \<Rightarrow> dbl \<Rightarrow> dbl" where
  "std_max a b = (if dlt a b then b else a)"

definition std_min :: "dbl \<Rightarrow> dbl \<Rightarrow> dbl" where
  "std_min a b = (if dlt b a then b else a)"

definition std_clamp :: "dbl \<Rightarrow> dbl \<Rightarrow> dbl \<Rightarrow> dbl" where
  "std_clamp v lo hi = (if dlt v lo then lo else if dlt hi v then hi else v)"

text \<open>\<^verbatim>\<open>std::round\<close>: halves away from zero; \<^verbatim>\<open>static_cast\<close> to an integer truncates.\<close>

definition sround :: "rat \<Rightarrow> int" where
  "sround x = (if 0 \<le> x then \<lfloor>x + 1 / 2\<rfloor> else - \<lfloor>1 / 2 - x\<rfloor>)"

fun std_round :: "dbl \<Rightarrow> dbl" where
  "std_round (Fin x) = Fin (of_int (sround x))"
| "std_round d = d"

definition dtrunc :: "rat \<Rightarrow> int" where
  "dtrunc x = (if 0 \<le> x then \<lfloor>x\<rfloor> else \<lceil>x\<rceil>)"

fun cast_int :: "int \<Rightarrow> int \<Rightarrow> dbl \<Rightarrow> int option" where
  "cast_int lo hi (Fin x) = (let t = dtrunc x in if lo \<le> t \<and> t \<le> hi then Some t else None)"
| "cast_int lo hi _ = None"

text \<open>The shape of every register encoder: round, clamp to the register, convert.\<close>

definition clamp_round :: "int \<Rightarrow> int \<Rightarrow> dbl \<Rightarrow> int option" where
  "clamp_round lo hi d = cast_int lo hi (std_clamp (std_round d) (Fin (of_int lo)) (Fin (of_int hi)))"

section \<open>The error of one rounding\<close>

lemma ilog2_bounds:
  assumes "1 \<le> y" shows "2 ^ ilog2 y \<le> y" "y < 2 ^ (ilog2 y + 1)"
proof -
  define n where "n = nat \<lfloor>y\<rfloor>"
  have fl: "1 \<le> \<lfloor>y\<rfloor>" using assms by simp
  then have n: "0 < n" "int n = \<lfloor>y\<rfloor>" by (auto simp: n_def)
  have b: "2 ^ (floorlog 2 n - 1) \<le> n" "n < 2 ^ floorlog 2 n"
    using floorlog_bounds [of n 2] n by auto
  have k: "floorlog 2 n = ilog2 y + 1"
  proof -
    have "floorlog 2 n \<noteq> 0" using n(1) by (simp add: floorlog_eq_zero_iff)
    then show ?thesis by (simp add: ilog2_def n_def [symmetric])
  qed
  have "rat_of_nat (2 ^ ilog2 y) \<le> rat_of_nat n" using b(1) k by (simp only: of_nat_le_iff) simp
  moreover have "rat_of_nat n = of_int \<lfloor>y\<rfloor>" using n(2) by (metis of_int_of_nat_eq)
  ultimately have "2 ^ ilog2 y \<le> rat_of_int \<lfloor>y\<rfloor>" by (simp only: of_nat_power of_nat_numeral)
  then show "2 ^ ilog2 y \<le> y" using of_int_floor_le [of y] by linarith
  have "rat_of_nat (n + 1) \<le> rat_of_nat (2 ^ (ilog2 y + 1))" using b(2) k by (simp only: of_nat_le_iff)
  moreover have "y < of_int \<lfloor>y\<rfloor> + 1" by linarith
  ultimately show "y < 2 ^ (ilog2 y + 1)" using \<open>rat_of_nat n = of_int \<lfloor>y\<rfloor>\<close>
    by (simp only: of_nat_power of_nat_numeral of_nat_add of_nat_1)
qed

lemma expo_bounds:
  assumes "0 < x" shows "2 powi expo x \<le> x" "x < 2 powi (expo x + 1)"
proof -
  have "2 powi expo x \<le> x \<and> x < 2 powi (expo x + 1)"
  proof (cases "1 \<le> x")
    case True
    have "2 powi (int (ilog2 x) + 1) = (2::rat) ^ (ilog2 x + 1)"
      by (metis power_int_of_nat of_nat_Suc add.commute Suc_eq_plus1)
    with True ilog2_bounds [OF True] show ?thesis by (simp add: expo_def)
  next
    case False
    define m where "m = ilog2 (1 / x)"
    have "1 \<le> 1 / x" using False assms by (simp add: field_simps)
    note b = ilog2_bounds [OF this, folded m_def]
    have up: "x * 2 ^ m \<le> 1" and lo: "1 < x * 2 ^ m * 2"
      using b assms by (simp_all add: field_simps)
    have pm: "(2::rat) powi (- int m) = 1 / 2 ^ m" for m by (simp add: power_int_minus field_simps)
    have pm1: "(2::rat) powi (- int m - 1) = 1 / (2 ^ m * 2)" for m
      using pm [of "Suc m"] by (simp add: algebra_simps diff_diff_eq add.commute minus_diff_commute)
    have pm2: "(2::rat) powi (- int m + 1) = 2 / 2 ^ m" for m
      using pm [of m] power_int_add [of "2::rat" "- int m" 1] by simp
    show ?thesis
    proof (cases "x * 2 ^ m = 1")
      case True
      then have "x = 1 / 2 ^ m" by (simp add: field_simps)
      moreover have "expo x = - int m" using False True by (simp add: expo_def m_def [symmetric])
      ultimately show ?thesis
        by (simp only: pm pm2) (simp add: divide_strict_right_mono)
    next
      case neq: False
      with up have "x * 2 ^ m < 1" by simp
      moreover have "expo x = - int m - 1" using False neq by (simp add: expo_def m_def [symmetric])
      moreover have "2 powi (- int m - 1) \<le> x" using lo by (simp only: pm1) (simp add: field_simps)
      moreover have "x < 2 powi (- int m - 1 + 1)" using \<open>x * 2 ^ m < 1\<close>
        by (simp add: pm) (simp add: field_simps)
      ultimately show ?thesis by simp
    qed
  qed
  then show "2 powi expo x \<le> x" "x < 2 powi (expo x + 1)" by auto
qed

lemma rne_error: "\<bar>of_int (rne x) - x\<bar> \<le> 1 / 2"
proof -
  define f where "f = \<lfloor>x\<rfloor>"
  have "of_int f \<le> x" "x < of_int f + 1" unfolding f_def by linarith+
  then show ?thesis by (auto simp: rne_def Let_def f_def [symmetric] abs_if)
qed

lemma rne_of_int [simp]: "rne (of_int k) = k"
  by (simp add: rne_def)

lemma rne_minus: "rne (- x) = - rne x"
proof (cases "x = of_int \<lfloor>x\<rfloor>")
  case True
  then show ?thesis by (metis of_int_minus rne_of_int)
next
  case False
  define f where "f = \<lfloor>x\<rfloor>"
  have b: "of_int f < x" "x < of_int f + 1" using False unfolding f_def by linarith+
  have "\<lfloor>- x\<rfloor> = - f - 1" using b by (simp add: floor_eq_iff)
  then show ?thesis using b by (auto simp: rne_def Let_def f_def [symmetric])
qed

lemma rne_nonpos: "z \<le> 0 \<Longrightarrow> rne z \<le> 0"
proof -
  assume "z \<le> 0"
  then have "rat_of_int (rne z) < 1" using rne_error [of z] by linarith
  then show ?thesis by simp
qed

lemma powi_max_le: "(2::rat) powi max a b \<le> 2 powi a + 2 powi b"
  by (simp add: max_def add_increasing add_increasing2)

lemma rnd_error:
  assumes "\<bar>x\<bar> \<le> 2 ^ 100"
  obtains y where "rnd x = Fin y" "\<bar>y - x\<bar> \<le> \<bar>x\<bar> / 2 ^ 53 + 1 / 2 ^ 100"
proof (cases "x = 0")
  case True
  with that [of 0] show ?thesis by (simp add: rnd_def)
next
  case False
  define e where "e = max (expo \<bar>x\<bar> - 52) (- 1074)"
  define y where "y = of_int (rne (x / 2 powi e)) * (2::rat) powi e"
  have p: "0 < (2::rat) powi e" by simp
  have "y - x = (of_int (rne (x / 2 powi e)) - x / 2 powi e) * 2 powi e"
    by (simp add: y_def left_diff_distrib)
  then have "\<bar>y - x\<bar> = \<bar>of_int (rne (x / 2 powi e)) - x / 2 powi e\<bar> * 2 powi e"
    by (simp add: abs_mult)
  also have "\<dots> \<le> 1 / 2 * 2 powi e"
    using rne_error p by (intro mult_right_mono) auto
  finally have err: "\<bar>y - x\<bar> \<le> 2 powi e / 2" by simp
  have "(2::rat) powi e \<le> 2 powi (expo \<bar>x\<bar> - 52) + 2 powi (- 1074)"
    unfolding e_def by (rule powi_max_le)
  moreover have "(2::rat) powi (expo \<bar>x\<bar> - 52) = 2 powi expo \<bar>x\<bar> / 2 ^ 52"
    by (simp add: power_int_diff)
  moreover have "2 powi expo \<bar>x\<bar> / 2 ^ 52 \<le> \<bar>x\<bar> / 2 ^ 52"
    using expo_bounds(1) [of "\<bar>x\<bar>"] False by (intro divide_right_mono) auto
  moreover have "(2::rat) powi (- 1074) \<le> 2 powi (- 99)"
    by (rule power_int_increasing) auto
  moreover have "(2::rat) powi (- 99) = 1 / 2 ^ 99"
    by (simp only: power_int_minus_divide power_int_numeral)
  ultimately have "2 powi e \<le> \<bar>x\<bar> / 2 ^ 52 + 1 / 2 ^ 99" by linarith
  with err have "\<bar>y - x\<bar> \<le> (\<bar>x\<bar> / 2 ^ 52 + 1 / 2 ^ 99) / 2"
    by (meson divide_right_mono order.trans zero_le_numeral)
  also have "\<dots> = \<bar>x\<bar> / 2 ^ 53 + 1 / 2 ^ 100" by (simp add: field_simps)
  finally have b: "\<bar>y - x\<bar> \<le> \<bar>x\<bar> / 2 ^ 53 + 1 / 2 ^ 100" .
  have s1: "\<bar>x\<bar> / 2 ^ 53 \<le> \<bar>x\<bar>" by (simp add: divide_le_eq mult_le_cancel_left1)
  have s2: "(1::rat) / 2 ^ 100 \<le> 1" by simp
  have "\<bar>y\<bar> \<le> \<bar>x\<bar> + \<bar>y - x\<bar>" by linarith
  also have "\<dots> \<le> 2 ^ 100 + (2 ^ 100 + 1)"
    by (intro add_mono order.trans [OF b] order.trans [OF s1] s2 assms)
  also have "\<dots> < (2::rat) ^ 102" by simp
  also have "\<dots> \<le> 2 ^ 1024" by (rule power_increasing) auto
  finally have "rnd x = Fin y" using False by (simp only: rnd_def Let_def e_def y_def not_le [symmetric] if_False)
  with b that show ?thesis by blast
qed

lemma rnd_minus: "rnd (- x) = dneg (rnd x)"
  by (auto simp only: rnd_def Let_def rne_minus abs_minus_cancel minus_divide_left [symmetric] of_int_minus
      mult_minus_left dneg.simps minus_zero neg_0_less_iff_less neg_less_0_iff_less neg_equal_0_iff_equal split: if_split)

lemma rnd_nonpos:
  assumes "x \<le> 0" shows "rnd x = NInf \<or> (\<exists>y\<le>0. rnd x = Fin y)"
proof (cases "x = 0")
  case True then show ?thesis by (simp add: rnd_def)
next
  case False
  define e where "e = max (expo \<bar>x\<bar> - 52) (- 1074)"
  have "x / 2 powi e \<le> 0" using assms by (simp add: divide_nonpos_pos)
  then have "of_int (rne (x / 2 powi e)) * (2::rat) powi e \<le> 0"
    by (simp add: mult_nonpos_nonneg rne_nonpos)
  with False assms show ?thesis by (auto simp only: rnd_def Let_def e_def split: if_split)
qed

lemma rnd_of_int:
  assumes "\<bar>n\<bar> < 2 ^ 53" shows "rnd (of_int n) = Fin (of_int n)"
proof (cases "n = 0")
  case True then show ?thesis by (simp add: rnd_def)
next
  case False
  define x :: rat where "x = of_int n"
  define e where "e = max (expo \<bar>x\<bar> - 52) (- 1074)"
  have pos: "0 < \<bar>x\<bar>" using False by (simp add: x_def)
  have "rat_of_int \<bar>n\<bar> < of_int (2 ^ 53)" using assms by (simp only: of_int_less_iff)
  then have "\<bar>x\<bar> < 2 ^ 53" by (simp add: x_def)
  then have "(2::rat) powi expo \<bar>x\<bar> < 2 powi 53" using expo_bounds(1) [OF pos] by simp
  then have "expo \<bar>x\<bar> < 53" using power_int_increasing [of 53 "expo \<bar>x\<bar>" "2::rat"] by force
  then have "e \<le> 0" by (simp add: e_def)
  then obtain k where k: "e = - int k" by (metis nonpos_int_cases)
  have "x / 2 powi e = of_int (n * 2 ^ k)" by (simp add: k x_def power_int_minus divide_inverse)
  then have "rne (x / 2 powi e) = n * 2 ^ k" by (simp only: rne_of_int)
  then have y: "of_int (rne (x / 2 powi e)) * 2 powi e = x" by (simp add: k x_def power_int_minus)
  have "\<bar>x\<bar> < (2::rat) ^ 53" by fact
  also have "\<dots> \<le> 2 ^ 1024" by (rule power_increasing) auto
  finally have "rnd x = Fin x" using False y
    by (simp only: rnd_def Let_def e_def [symmetric] y) (simp add: x_def not_le)
  then show ?thesis by (simp add: x_def)
qed

lemma rnd_simps [simp, dbl]:
  "rnd 0 = Fin 0" "rnd 1 = Fin 1"
  "numeral k < (2 ^ 53 :: int) \<Longrightarrow> rnd (numeral k) = Fin (numeral k)"
  "numeral k < (2 ^ 53 :: int) \<Longrightarrow> rnd (- numeral k) = Fin (- numeral k)"
  using rnd_of_int [of 0] rnd_of_int [of 1] rnd_of_int [of "numeral k"] rnd_of_int [of "- numeral k"]
  by simp_all

section \<open>Rounding to integers\<close>

lemma dtrunc_of_int [simp]: "dtrunc (of_int k) = k"
  by (simp add: dtrunc_def)

lemma clamp_round_simps [simp]:
  "lo \<le> hi \<Longrightarrow> clamp_round lo hi (Fin x) = Some (max lo (min hi (sround x)))"
  "lo \<le> hi \<Longrightarrow> clamp_round lo hi PInf = Some hi"
  "lo \<le> hi \<Longrightarrow> clamp_round lo hi NInf = Some lo"
  "clamp_round lo hi NaN = None"
  by (auto simp: clamp_round_def std_clamp_def Let_def min_def max_def)

lemma clamp_round_defined:
  "lo \<le> hi \<Longrightarrow> d \<noteq> NaN \<Longrightarrow> \<exists>k. clamp_round lo hi d = Some k \<and> lo \<le> k \<and> k \<le> hi"
  by (cases d) auto

lemma sround_le: "x < of_int n + 1 / 2 \<Longrightarrow> sround x \<le> n"
  unfolding sround_def by (auto simp: floor_le_iff le_floor_iff) linarith+
  
lemma sround_minus: "sround (- x) = - sround x"
proof -
  have "\<lfloor>1 / 2 :: rat\<rfloor> = 0" by (simp add: floor_eq_iff)
  then show ?thesis by (auto simp: sround_def add.commute)
qed

lemma sround_ge: "of_int n - 1 / 2 < x \<Longrightarrow> n \<le> sround x"
  using sround_le [of "- x" "- n"] by (simp add: sround_minus)

lemma rnd_le_int:
  assumes "x \<le> of_int n + 2 / 5" "0 \<le> n" "n \<le> 2 ^ 40"
  shows "rnd x = NInf \<or> (\<exists>y. rnd x = Fin y \<and> sround y \<le> n)"
proof (cases "x \<le> 0")
  case True
  have "0 \<le> rat_of_int n" using assms(2) by simp
  with rnd_nonpos [OF True] show ?thesis by (auto intro!: sround_le)
next
  case False
  have n: "rat_of_int n \<le> 2 ^ 40" using assms(3) by (metis of_int_le_iff of_int_numeral of_int_power)
  have x: "\<bar>x\<bar> \<le> 2 ^ 41" using False assms(1) n by simp
  also have "\<dots> \<le> (2::rat) ^ 100" by (rule power_increasing) auto
  finally obtain y where y: "rnd x = Fin y" "\<bar>y - x\<bar> \<le> \<bar>x\<bar> / 2 ^ 53 + 1 / 2 ^ 100"
    by (rule rnd_error)
  have "\<bar>x\<bar> / 2 ^ 53 \<le> 2 ^ 41 / 2 ^ 53" using x by (rule divide_right_mono) simp
  also have "\<dots> \<le> (1::rat) / 1000" by simp
  finally have "y < of_int n + 1 / 2" using y(2) assms(1) by simp
  with y(1) show ?thesis by (auto intro!: sround_le)
qed

lemma rnd_ge_int:
  assumes "- of_int n - 2 / 5 \<le> x" "0 \<le> n" "n \<le> 2 ^ 40"
  shows "rnd x = PInf \<or> (\<exists>y. rnd x = Fin y \<and> - n \<le> sround y)"
proof -
  have "- x \<le> of_int n + 2 / 5" using assms(1) by linarith
  from rnd_le_int [OF this assms(2,3)] show ?thesis
    by (cases "rnd x") (auto simp: rnd_minus sround_minus)
qed

lemma rnd_near_int:
  assumes "\<bar>x - of_int n\<bar> \<le> 2 / 5" "\<bar>n\<bar> \<le> 2 ^ 40"
  obtains y where "rnd x = Fin y" "sround y = n"
proof -
  have n: "\<bar>rat_of_int n\<bar> \<le> 2 ^ 40"
    using assms(2) by (metis of_int_abs of_int_le_iff of_int_numeral of_int_power)
  have x: "\<bar>x\<bar> \<le> 2 ^ 41"
  proof -
    have "\<bar>x\<bar> \<le> 2 ^ 40 + 2 / 5" using assms(1) n by linarith
    also have "\<dots> \<le> (2::rat) ^ 41" by simp
    finally show ?thesis .
  qed
  also have "\<dots> \<le> (2::rat) ^ 100" by (rule power_increasing) auto
  finally obtain y where y: "rnd x = Fin y" "\<bar>y - x\<bar> \<le> \<bar>x\<bar> / 2 ^ 53 + 1 / 2 ^ 100"
    by (rule rnd_error)
  have "\<bar>x\<bar> / 2 ^ 53 \<le> 2 ^ 41 / 2 ^ 53" using x by (rule divide_right_mono) simp
  also have "\<dots> \<le> (1::rat) / 1000" by simp
  finally have "\<bar>x\<bar> / 2 ^ 53 \<le> 1 / 1000" .
  moreover have "(1::rat) / 2 ^ 100 \<le> 1 / 1000" by simp
  ultimately have "\<bar>y - of_int n\<bar> < 1 / 2" using y(2) assms(1) by linarith
  then have "sround y = n" using sround_le [of y n] sround_ge [of n y] by linarith
  with y(1) that show ?thesis by blast
qed

lemma decode_close:
  assumes "\<bar>n\<bar> \<le> 2 ^ 31" "s = 1 \<or> s = 10 \<or> s = 100"
  obtains v where "rnd (of_int n / s) = Fin v" "\<bar>v * s - of_int n\<bar> \<le> 1 / 1000000"
proof -
  have n: "\<bar>rat_of_int n\<bar> \<le> 2 ^ 31"
    using assms(1) by (metis of_int_abs of_int_le_iff of_int_numeral of_int_power)
  have ns: "\<bar>of_int n / s\<bar> \<le> 2 ^ 31" using n assms(2) by (auto simp: abs_divide)
  also have "\<dots> \<le> (2::rat) ^ 100" by (rule power_increasing) auto
  finally obtain v where v: "rnd (of_int n / s) = Fin v"
      "\<bar>v - of_int n / s\<bar> \<le> \<bar>of_int n / s\<bar> / 2 ^ 53 + 1 / 2 ^ 100"
    by (rule rnd_error)
  have s: "0 < s" "s \<le> 100" using assms(2) by auto
  have "\<bar>of_int n / s\<bar> / 2 ^ 53 \<le> (2 ^ 31 / s) / 2 ^ 53"
    using n s by (intro divide_right_mono) (simp_all add: abs_divide divide_right_mono)
  with v(2) have e: "\<bar>v - of_int n / s\<bar> \<le> (2 ^ 31 / s) / 2 ^ 53 + 1 / 2 ^ 100" by linarith
  have "v * s - of_int n = (v - of_int n / s) * s" using s by (simp add: field_simps)
  then have "\<bar>v * s - of_int n\<bar> = \<bar>v - of_int n / s\<bar> * s" using s by (simp add: abs_mult)
  also have "\<dots> \<le> ((2 ^ 31 / s) / 2 ^ 53 + 1 / 2 ^ 100) * s" using e s by (intro mult_right_mono) auto
  also have "\<dots> = 2 ^ 31 / 2 ^ 53 + s / 2 ^ 100" using s by (simp add: field_simps)
  also have "\<dots> \<le> 2 ^ 31 / 2 ^ 53 + 100 / 2 ^ 100" using s by (simp add: divide_right_mono)
  also have "\<dots> \<le> 1 / 1000000" by simp
  finally show ?thesis using v(1) that by blast
qed

text \<open>The literal \<^verbatim>\<open>0.001\<close>, the tolerance of every power comparison.\<close>

lemma tolerance_literal:
  obtains t where "rnd (1 / 1000) = Fin t" "0 < t" "9 / 10000 < t" "t < 11 / 10000"
proof -
  have "\<bar>1 / 1000 :: rat\<bar> \<le> 2 ^ 100" by simp
  then obtain t where t: "rnd (1 / 1000) = Fin t"
      "\<bar>t - 1 / 1000\<bar> \<le> \<bar>1 / 1000\<bar> / 2 ^ 53 + 1 / 2 ^ 100"
    by (rule rnd_error)
  have "\<bar>1 / 1000 :: rat\<bar> / 2 ^ 53 + 1 / 2 ^ 100 \<le> 1 / 10 ^ 6" by simp
  with t(2) have "\<bar>t - 1 / 1000\<bar> \<le> 1 / 10 ^ 6" by (rule order_trans)
  then have "1 / 1000 - 1 / 10 ^ 6 \<le> t" "t \<le> 1 / 1000 + 1 / 10 ^ 6" by linarith+
  then have "9 / 10000 < t" "t < 11 / 10000" by simp_all
  with t(1) that show ?thesis by force
qed

text \<open>Any non-NaN value scaled by a positive constant is encodable, NaN never is.\<close>

lemma dmul_scale_not_NaN: "d \<noteq> NaN \<Longrightarrow> 0 < s \<Longrightarrow> dmul d (Fin s) \<noteq> NaN"
  by (cases d) (auto simp: dinf_def rnd_def Let_def)

section \<open>Order\<close>

lemma dle_simps [simp]:
  "dle (Fin x) (Fin y) \<longleftrightarrow> x \<le> y" "\<not> dle NaN d" "\<not> dle d NaN"
  "dle NInf (Fin x)" "dle (Fin x) PInf" "dle NInf PInf" "dle PInf PInf" "dle NInf NInf"
  "\<not> dle PInf (Fin x)" "\<not> dle (Fin x) NInf" "\<not> dle PInf NInf"
  by (auto simp: dle_def elim: dlt.elims)

lemma dle_trans: "dle a b \<Longrightarrow> dle b c \<Longrightarrow> dle a c"
  by (cases a; cases b; cases c; simp)

lemma dle_refl_iff [simp]: "dle a a \<longleftrightarrow> a \<noteq> NaN"
  by (cases a) auto

lemma not_dlt_dle: "a \<noteq> NaN \<Longrightarrow> b \<noteq> NaN \<Longrightarrow> \<not> dlt a b \<longleftrightarrow> dle b a"
  by (cases a; cases b; auto)

lemma std_max_zero: "std_max (Fin 0) d \<noteq> NaN" "dle (Fin 0) (std_max (Fin 0) d)"
  by (cases d; auto simp: std_max_def)+

lemma std_max_finite: "isfinite a \<Longrightarrow> isfinite b \<Longrightarrow> isfinite (std_max a b)"
  by (simp add: std_max_def)

lemma std_min_cases:
  assumes "a \<noteq> NaN" "b \<noteq> NaN"
  shows "std_min a b \<noteq> NaN" "dle (std_min a b) a" "dle (std_min a b) b"
  using assms by (cases a; cases b; auto simp: std_min_def)+

lemma std_min_le1: "a \<noteq> NaN \<Longrightarrow> b \<noteq> NaN \<Longrightarrow> dle a c \<Longrightarrow> dle (std_min a b) c"
  using std_min_cases(2) dle_trans by blast

lemma std_min_le2: "a \<noteq> NaN \<Longrightarrow> b \<noteq> NaN \<Longrightarrow> dle b c \<Longrightarrow> dle (std_min a b) c"
  using std_min_cases(3) dle_trans by blast

lemma std_min_nonneg: "dle (Fin 0) a \<Longrightarrow> dle (Fin 0) b \<Longrightarrow> dle (Fin 0) (std_min a b)"
  by (auto simp: std_min_def)

lemma std_clamp_bounds:
  assumes "dle lo hi" "v \<noteq> NaN"
  shows "dle lo (std_clamp v lo hi)" "dle (std_clamp v lo hi) hi"
  using assms by (cases lo; cases hi; cases v; auto simp: std_clamp_def)+

lemma std_clamp_id: "dle lo v \<Longrightarrow> dle v hi \<Longrightarrow> std_clamp v lo hi = v"
  by (cases lo; cases hi; cases v; auto simp: std_clamp_def)

lemma isfinite_iff: "isfinite d \<longleftrightarrow> (\<exists>x. d = Fin x)"
  by (cases d) auto

lemma isfinite_between: "dle (Fin a) d \<Longrightarrow> dle d (Fin b) \<Longrightarrow> isfinite d"
  by (cases d) auto

text \<open>Scaling by tenths keeps the order of the registers.\<close>

lemma tenths_mono:
  assumes "n \<le> m" "\<bar>n\<bar> \<le> 2 ^ 31" "\<bar>m\<bar> \<le> 2 ^ 31"
  shows "dle (rnd (of_int n / 10)) (rnd (of_int m / 10))"
proof -
  obtain v u where v: "rnd (of_int n / 10) = Fin v" "\<bar>v * 10 - of_int n\<bar> \<le> 1 / 1000000"
    and u: "rnd (of_int m / 10) = Fin u" "\<bar>u * 10 - of_int m\<bar> \<le> 1 / 1000000"
    using decode_close [OF assms(2), of 10] decode_close [OF assms(3), of 10] by metis
  show ?thesis
  proof (cases "n = m")
    case True
    with v show ?thesis by simp
  next
    case False
    then have "n + 1 \<le> m" using assms(1) by simp
    then have "rat_of_int n + 1 \<le> of_int m" by (metis of_int_1 of_int_add of_int_le_iff)
    then have "v \<le> u" using v(2) u(2) by linarith
    with v(1) u(1) show ?thesis by simp
  qed
qed

end
