(* ===== verification/Texts.thy ===== *)
theory Texts
  imports Float64
begin

text \<open>
  The parts of the C++ standard library the gateway uses to read and write text: decimal numbers,
  \<^verbatim>\<open>operator<<\<close> of a \<^verbatim>\<open>double\<close> with the default precision of six digits, \<^verbatim>\<open>std::put_time\<close> of a UTC time, and the
  \<^verbatim>\<open>std::sto*\<close> conversions. The sign of a zero is not kept, as in theory \<^verbatim>\<open>Float64\<close>.
\<close>

section \<open>Numbers to text\<close>

fun show_nat :: "nat \<Rightarrow> string" where
  "show_nat n = (if n < 10 then [char_of (48 + n)] else show_nat (n div 10) @ [char_of (48 + n mod 10)])"

declare show_nat.simps [simp del]

definition show_int :: "int \<Rightarrow> string" where
  "show_int i = (if i < 0 then CHR ''-'' # show_nat (nat (- i)) else show_nat (nat i))"

definition pad0 :: "nat \<Rightarrow> string \<Rightarrow> string" where
  "pad0 width s = replicate (width - length s) (CHR ''0'') @ s"

text \<open>The decimal exponent of a positive number: \<open>10 powi dexp y \<le> y < 10 powi (dexp y + 1)\<close>.\<close>

definition dexp :: "rat \<Rightarrow> int" where
  "dexp y = (if 1 \<le> y then int (length (show_nat (nat \<lfloor>y\<rfloor>))) - 1
     else - int (length (show_nat (nat (\<lceil>1 / y\<rceil> - 1)))))"

definition strip0 :: "string \<Rightarrow> string" where
  "strip0 ds = rev (dropWhile (\<lambda>c. c = CHR ''0'') (rev ds))"

definition point :: "string \<Rightarrow> string \<Rightarrow> string" where
  "point whole fraction = (let f = strip0 fraction in if f = [] then whole else whole @ ''.'' @ f)"

text \<open>The format \<^verbatim>\<open>%g\<close> with six significant digits.\<close>

definition fmt_positive :: "rat \<Rightarrow> string" where
  "fmt_positive y =
     (let e0 = dexp y; n0 = nat (rne (y / 10 powi (e0 - 5)));
          (e, n) = (if n0 = 1000000 then (e0 + 1, 100000) else (e0, n0))
      in if - 4 \<le> e \<and> e < 6
         then let k = nat (5 - e) in point (show_nat (n div 10 ^ k)) (pad0 k (show_nat (n mod 10 ^ k)))
         else point (show_nat (n div 100000)) (pad0 5 (show_nat (n mod 100000))) @ ''e'' @
           (if e < 0 then ''-'' else ''+'') @ pad0 2 (show_nat (nat \<bar>e\<bar>)))"

fun fmt_double :: "dbl \<Rightarrow> string" where
  "fmt_double (Fin x) = (if x = 0 then ''0'' else if x < 0 then CHR ''-'' # fmt_positive (- x) else fmt_positive x)"
| "fmt_double PInf = ''inf''"
| "fmt_double NInf = ''-inf''"
| "fmt_double NaN = ''nan''"

section \<open>UTC time\<close>

text \<open>Year, month and day of a day number, counted from 1970-01-01 in the Gregorian calendar.\<close>

definition civil :: "int \<Rightarrow> int \<times> int \<times> int" where
  "civil days =
     (let z = days + 719468; era = z div 146097; doe = z mod 146097;
          yoe = (doe - doe div 1460 + doe div 36524 - doe div 146096) div 365;
          doy = doe - (365 * yoe + yoe div 4 - yoe div 100); mp = (5 * doy + 2) div 153;
          d = doy - (153 * mp + 2) div 5 + 1; m = (if mp < 10 then mp + 3 else mp - 9)
      in (yoe + era * 400 + (if m \<le> 2 then 1 else 0), m, d))"

definition two :: "int \<Rightarrow> string" where
  "two n = pad0 2 (show_int n)"

definition utc_text :: "int \<Rightarrow> string" where
  "utc_text seconds =
     (case civil (seconds div 86400) of (y, m, d) \<Rightarrow>
      let s = seconds mod 86400
      in pad0 4 (show_int y) @ ''-'' @ two m @ ''-'' @ two d @ ''T'' @ two (s div 3600) @ '':'' @
         two (s mod 3600 div 60) @ '':'' @ two (s mod 60) @ ''Z'')"

section \<open>Text to numbers\<close>

definition std_space :: "char \<Rightarrow> bool" where
  "std_space c \<longleftrightarrow> (of_char c :: nat) \<in> {9, 10, 11, 12, 13, 32}"

definition std_digit :: "char \<Rightarrow> bool" where
  "std_digit c \<longleftrightarrow> (of_char c :: nat) \<in> {48..57}"

definition digits_value :: "string \<Rightarrow> nat" where
  "digits_value ds = foldl (\<lambda>a c. 10 * a + (of_char c - 48)) 0 ds"

text \<open>Leading white space, an optional sign, then digits; what follows is ignored. \<open>None\<close> without digits.\<close>

definition scan_integer :: "string \<Rightarrow> (bool \<times> nat) option" where
  "scan_integer v =
     (let s0 = dropWhile std_space v;
          signed = (s0 \<noteq> [] \<and> (hd s0 = CHR ''-'' \<or> hd s0 = CHR ''+''));
          ds = takeWhile std_digit (if signed then tl s0 else s0)
      in if ds = [] then None else Some (signed \<and> hd s0 = CHR ''-'', digits_value ds))"

text \<open>\<open>None\<close> is an exception: no number, or out of range.\<close>

definition stoi :: "string \<Rightarrow> int option" where
  "stoi v = (case scan_integer v of None \<Rightarrow> None
     | Some (neg, n) \<Rightarrow> let i = (if neg then - int n else int n)
         in if - (2 ^ 31) \<le> i \<and> i < 2 ^ 31 then Some i else None)"

definition stoul :: "string \<Rightarrow> u64 option" where
  "stoul v = (case scan_integer v of None \<Rightarrow> None
     | Some (neg, n) \<Rightarrow> if 2 ^ 64 \<le> n then None else Some (if neg then - of_nat n else of_nat n))"

section \<open>Facts\<close>

lemma show_nat_digits: "list_all std_digit (show_nat n)"
proof (induction n rule: show_nat.induct)
  case (1 n)
  have d: "std_digit (char_of (48 + k))" if "k < 10" for k :: nat using that by (simp add: std_digit_def)
  show ?case
  proof (cases "n < 10")
    case True
    then show ?thesis using d [of n] by (subst show_nat.simps) simp
  next
    case False
    then show ?thesis using 1 d [of "n mod 10"] by (subst show_nat.simps) simp
  qed
qed

lemma show_nat_nonempty [simp]: "show_nat n \<noteq> []"
  by (subst show_nat.simps) simp

lemma digits_value_snoc: "digits_value (ds @ [c]) = 10 * digits_value ds + (of_char c - 48)"
  by (simp add: digits_value_def)

lemma digits_value_show_nat [simp]: "digits_value (show_nat n) = n"
proof (induction n rule: show_nat.induct)
  case (1 n)
  have c: "of_char (char_of (48 + k) :: char) = 48 + k" if "k < 10" for k :: nat using that by simp
  show ?case
  proof (cases "n < 10")
    case True
    then show ?thesis by (subst show_nat.simps) (simp add: digits_value_def c)
  next
    case False
    then show ?thesis using 1 by (subst show_nat.simps) (simp add: digits_value_snoc c)
  qed
qed

end
