(* ===== verification/CloudTelemetry.thy ===== *)
theory CloudTelemetry
  imports NodeFirmware Texts
begin

text \<open>
  The node's optional telemetry uplink \<^verbatim>\<open>MqttTelemetryService\<close>
  (\<^verbatim>\<open>node-esp32-evb/src/MqttTelemetryService.cpp\<close>). The MQTT client library is a record of operations over
  a world \<open>'m\<close>; the Ethernet link and the millisecond clock are arguments, one per call the code makes.
  The library's text of a double with one decimal is the parameter \<open>oneDecimal\<close>.
\<close>

section \<open>State\<close>

record 'm mqtt_ops =
  mo_connect :: "string \<Rightarrow> string \<Rightarrow> string \<Rightarrow> string \<Rightarrow> nat \<Rightarrow> bool \<Rightarrow> string \<Rightarrow> ('m, bool) state"
  mo_connected :: "('m, bool) state"
  mo_loop :: "('m, unit) state"
  mo_publish :: "string \<Rightarrow> string \<Rightarrow> bool \<Rightarrow> ('m, bool) state"

record cloud_config =
  cc_enabled :: bool
  cc_host :: string
  cc_port :: u16
  cc_realm :: string
  cc_serviceUser :: string
  cc_serviceSecret :: string
  cc_clientId :: string
  cc_assetId :: string
  cc_caCertificate :: string

record cloud =
  cl_config :: cloud_config
  cl_tlsCa :: "string option"
  cl_server :: "(string \<times> u16) option"
  cl_nextReconnectMs :: u32
  cl_active :: bool

definition new_cloud :: "cloud_config \<Rightarrow> cloud" where
  "new_cloud config = \<lparr>cl_config = config, cl_tlsCa = None, cl_server = None, cl_nextReconnectMs = 0, cl_active = False\<rparr>"

section \<open>Operations\<close>

definition cloud_begin :: "cloud \<Rightarrow> bool \<times> cloud" where
  "cloud_begin cl = (let config = cl_config cl in
     if \<not> cc_enabled config \<or> cc_host config = [] \<or> cc_serviceUser config = [] \<or> cc_serviceSecret config = [] \<or>
        cc_clientId config = [] \<or> cc_assetId config = [] \<or> cc_caCertificate config = [] then (False, cl)
     else (True, cl\<lparr>cl_tlsCa := Some (cc_caCertificate config), cl_server := Some (cc_host config, cc_port config), cl_active := True\<rparr>))"

definition cloud_topic :: "cloud_config \<Rightarrow> string \<Rightarrow> string" where
  "cloud_topic config attribute =
     cc_realm config @ ''/'' @ cc_clientId config @ ''/writeattributevalue/'' @ attribute @ ''/'' @ cc_assetId config"

definition publishValue :: "'m mqtt_ops \<Rightarrow> cloud \<Rightarrow> string \<Rightarrow> string \<Rightarrow> ('m, bool) state" where
  "publishValue ops cl attribute v = mo_publish ops (cloud_topic (cl_config cl) attribute) v False"

definition connectMqtt :: "'m mqtt_ops \<Rightarrow> bool \<Rightarrow> cloud \<Rightarrow> ('m, bool) state" where
  "connectMqtt ops linkUp cl =
     (if \<not> linkUp then State_Monad.return False
      else let config = cl_config cl;
               username = (if CHR '':'' \<in> set (cc_serviceUser config) then cc_serviceUser config
                           else cc_realm config @ '':'' @ cc_serviceUser config)
           in do {
             ok \<leftarrow> mo_connect ops (cc_clientId config) username (cc_serviceSecret config) (cloud_topic config ''online'') 1 True ''false'';
             _ \<leftarrow> (if ok then publishValue ops cl ''online'' ''true'' else State_Monad.return False);
             State_Monad.return ok
           })"

text \<open>\<open>link\<close> is the link state at the two places the code asks for it, \<open>check\<close> and \<open>after\<close> the clock before and behind the attempt.\<close>

definition cloud_loop :: "'m mqtt_ops \<Rightarrow> bool \<times> bool \<Rightarrow> u32 \<Rightarrow> u32 \<Rightarrow> cloud \<Rightarrow> ('m, cloud) state" where
  "cloud_loop ops link check after cl =
     (if \<not> cl_active cl \<or> \<not> fst link then State_Monad.return cl
      else do {
        connected \<leftarrow> mo_connected ops;
        if \<not> connected then
          (if cl_nextReconnectMs cl \<le> check then do {
             _ \<leftarrow> connectMqtt ops (snd link) cl;
             State_Monad.return (cl\<lparr>cl_nextReconnectMs := after + 5000\<rparr>)
           } else State_Monad.return cl)
        else do { _ \<leftarrow> mo_loop ops; State_Monad.return cl }
      })"

definition cloud_publish :: "'m mqtt_ops \<Rightarrow> (dbl \<Rightarrow> string) \<Rightarrow> driver_sample \<Rightarrow> u16 \<Rightarrow> cloud \<Rightarrow> ('m, unit) state" where
  "cloud_publish ops oneDecimal sample heartbeat cl =
     (if \<not> cl_active cl then State_Monad.return ()
      else do {
        connected \<leftarrow> mo_connected ops;
        if \<not> connected then State_Monad.return ()
        else do {
          _ \<leftarrow> publishValue ops cl ''actualPowerKw'' (oneDecimal (ddiv (Fin (of_int (sint (ds_actualPowerKwX10 sample)))) (Fin 10)));
          _ \<leftarrow> publishValue ops cl ''energyWh'' (show_nat (unat (ds_energyWh sample)));
          _ \<leftarrow> publishValue ops cl ''deviceState'' (show_nat (unat (ds_state sample)));
          _ \<leftarrow> publishValue ops cl ''alarmBits'' (show_nat (unat (ds_alarms sample)));
          _ \<leftarrow> publishValue ops cl ''quality'' (show_nat (unat (ds_quality sample)));
          _ \<leftarrow> publishValue ops cl ''heartbeat'' (show_nat (unat heartbeat));
          State_Monad.return ()
        }
      })"

definition cloud_connected :: "'m mqtt_ops \<Rightarrow> cloud \<Rightarrow> ('m, bool) state" where
  "cloud_connected ops cl = (if cl_active cl then mo_connected ops else State_Monad.return False)"

text \<open>The part of the board's main loop that publishes every 2 seconds, measured on the wrapping clock.\<close>

definition cloud_publish_turn :: "'m mqtt_ops \<Rightarrow> (dbl \<Rightarrow> string) \<Rightarrow> u32 \<Rightarrow> u32 \<Rightarrow> 'd firmware \<Rightarrow> cloud \<Rightarrow> u32 \<Rightarrow> ('m, u32) state" where
  "cloud_publish_turn ops oneDecimal check stamp fw cl lastCloudPublishMs =
     (if 2000 \<le> check - lastCloudPublishMs then do {
        _ \<leftarrow> cloud_publish ops oneDecimal (fw_lastSample fw) (get_reg fw G_Heartbeat) cl;
        State_Monad.return stamp
      } else State_Monad.return lastCloudPublishMs)"

section \<open>What reaches the broker\<close>

text \<open>A client that is never connected and counts the attempts, as seen from the board.\<close>

definition offline_ops :: "nat mqtt_ops" where
  "offline_ops = \<lparr>mo_connect = (\<lambda>_ _ _ _ _ _ _. State (\<lambda>n. (False, n + 1))), mo_connected = State_Monad.return False,
     mo_loop = State_Monad.return (), mo_publish = (\<lambda>_ _ _. State_Monad.return False)\<rparr>"

text \<open>The attempts of successive turns, each at one clock value.\<close>

fun offline_run :: "u32 list \<Rightarrow> cloud \<Rightarrow> nat \<Rightarrow> cloud \<times> nat" where
  "offline_run [] cl n = (cl, n)"
| "offline_run (t # ts) cl n = (case run_state (cloud_loop offline_ops (True, True) t t cl) n of (cl', n') \<Rightarrow> offline_run ts cl' n')"

lemma offline_turn:
  "run_state (cloud_loop offline_ops (True, True) t t cl) n =
     (if \<not> cl_active cl then (cl, n) else if cl_nextReconnectMs cl \<le> t then (cl\<lparr>cl_nextReconnectMs := t + 5000\<rparr>, n + 1) else (cl, n))"
  by (simp add: cloud_loop_def connectMqtt_def offline_ops_def Let_def)

lemma offline_waits:
  "cl_active cl \<Longrightarrow> list_all (\<lambda>t. t < cl_nextReconnectMs cl) ts \<Longrightarrow> offline_run ts cl n = (cl, n)"
  by (induction ts) (auto simp: offline_turn)

section \<open>Properties\<close>

text \<open>
  The reconnect timer is not safe across the wrap of the 32-bit millisecond clock. As
  long as the deadline does not wrap, an attempt is followed by none at any clock value below the
  deadline: none within 5 seconds, but also none after a wrap, until the clock comes around to the
  deadline again. An attempt in the last 5 seconds before the wrap is repeated at once, on every turn,
  without any pause.
\<close>

theorem cloud_reconnect_wraps:
  assumes "cl_active cl" "cl_nextReconnectMs cl \<le> t"
  shows "let cl' = cl\<lparr>cl_nextReconnectMs := t + 5000\<rparr> in
    run_state (cloud_loop offline_ops (True, True) t t cl) n = (cl', n + 1) \<and>
    (unat t + 5000 < 2 ^ 32 \<longrightarrow> list_all (\<lambda>u. u < t + 5000) ts \<longrightarrow> offline_run ts cl' (n + 1) = (cl', n + 1)) \<and>
    (2 ^ 32 \<le> unat t + 5000 \<longrightarrow> offline_run (replicate k t) cl' (n + 1) = (cl', n + 1 + k))"
proof -
  define cl' where "cl' = cl\<lparr>cl_nextReconnectMs := t + 5000\<rparr>"
  have a: "cl_active cl'" "cl_nextReconnectMs cl' = t + 5000" using assms(1) by (simp_all add: cl'_def)
  have "offline_run (replicate k t) cl' m = (cl', m + k)" if "2 ^ 32 \<le> unat t + 5000" for m
  proof (induction k arbitrary: m)
    case (Suc k)
    have "unat (t + 5000) < 5000" using that unsigned_less [of t, where 'a = nat] by (simp add: unat_plus_if')
    moreover have "5000 \<le> unat t" using that by simp
    ultimately have "t + 5000 \<le> t" by (simp add: word_le_nat_alt)
    then have "run_state (cloud_loop offline_ops (True, True) t t cl') m = (cl', m + 1)" using a by (simp add: offline_turn cl'_def)
    then show ?case using Suc by simp
  qed simp
  then show ?thesis
    unfolding Let_def cl'_def [symmetric] using offline_waits [OF a(1), of ts] a(2) assms by (auto simp: offline_turn cl'_def)
qed

end
