(* ===== verification/Sha256.thy ===== *)
theory Sha256
  imports Prelude "HOL-Library.Monad_Syntax"
begin

text \<open>
  The SHA-256 class of the update tool (\<^verbatim>\<open>base-rockpie/src/OtaApply.cpp\<close>): the block buffer, the streaming
  \<^verbatim>\<open>update\<close>, the padding in \<^verbatim>\<open>finish\<close> and the compression function with its message array. The while loop
  of \<^verbatim>\<open>update\<close> would spin on a full buffer, so it is a partial function and its termination is a lemma.

  The reference is the standard's own formulation (FIPS 180-4): pad the whole message, cut it into
  blocks, and iterate the compression with the recursively defined message schedule. The lemmas show
  that the class computes it for every way of cutting the input into \<^verbatim>\<open>update\<close> calls.
\<close>

section \<open>The class\<close>

text \<open>The table as the class has it, four constants to a row.\<close>

definition kRound :: "u32 list" where
  "kRound = concat
    [[0x428a2f98, 0x71374491, 0xb5c0fbcf, 0xe9b5dba5],
     [0x3956c25b, 0x59f111f1, 0x923f82a4, 0xab1c5ed5],
     [0xd807aa98, 0x12835b01, 0x243185be, 0x550c7dc3],
     [0x72be5d74, 0x80deb1fe, 0x9bdc06a7, 0xc19bf174],
     [0xe49b69c1, 0xefbe4786, 0x0fc19dc6, 0x240ca1cc],
     [0x2de92c6f, 0x4a7484aa, 0x5cb0a9dc, 0x76f988da],
     [0x983e5152, 0xa831c66d, 0xb00327c8, 0xbf597fc7],
     [0xc6e00bf3, 0xd5a79147, 0x06ca6351, 0x14292967],
     [0x27b70a85, 0x2e1b2138, 0x4d2c6dfc, 0x53380d13],
     [0x650a7354, 0x766a0abb, 0x81c2c92e, 0x92722c85],
     [0xa2bfe8a1, 0xa81a664b, 0xc24b8b70, 0xc76c51a3],
     [0xd192e819, 0xd6990624, 0xf40e3585, 0x106aa070],
     [0x19a4c116, 0x1e376c08, 0x2748774c, 0x34b0bcb5],
     [0x391c0cb3, 0x4ed8aa4a, 0x5b9cca4f, 0x682e6ff3],
     [0x748f82ee, 0x78a5636f, 0x84c87814, 0x8cc70208],
     [0x90befffa, 0xa4506ceb, 0xbef9a3f7, 0xc67178f2]]"

definition initial_state :: "u32 list" where
  "initial_state = [0x6a09e667, 0xbb67ae85, 0x3c6ef372, 0xa54ff53a, 0x510e527f, 0x9b05688c, 0x1f83d9ab, 0x5be0cd19]"

record sha256 =
  sh_state :: "u32 list"
  sh_block :: "u8 list"
  sh_used :: nat
  sh_bitCount :: u64

definition new_sha256 :: sha256 where
  "new_sha256 = \<lparr>sh_state = initial_state, sh_block = replicate 64 0, sh_used = 0, sh_bitCount = 0\<rparr>"

definition rotateRight :: "u32 \<Rightarrow> nat \<Rightarrow> u32" where
  "rotateRight v count = drop_bit count v OR push_bit (32 - count) v"

definition be32_at :: "u8 list \<Rightarrow> nat \<Rightarrow> u32" where
  "be32_at bytes i = push_bit 24 (ucast (bytes ! (i * 4))) OR push_bit 16 (ucast (bytes ! (i * 4 + 1))) OR
     push_bit 8 (ucast (bytes ! (i * 4 + 2))) OR ucast (bytes ! (i * 4 + 3))"

definition extend_word :: "u32 list \<Rightarrow> nat \<Rightarrow> u32 list" where
  "extend_word words i =
     (let s0 = rotateRight (words ! (i - 15)) 7 XOR rotateRight (words ! (i - 15)) 18 XOR drop_bit 3 (words ! (i - 15));
          s1 = rotateRight (words ! (i - 2)) 17 XOR rotateRight (words ! (i - 2)) 19 XOR drop_bit 10 (words ! (i - 2))
      in words[i := words ! (i - 16) + s0 + words ! (i - 7) + s1])"

definition message_words :: "u8 list \<Rightarrow> u32 list" where
  "message_words bytes = foldl extend_word
     (foldl (\<lambda>ws i. ws[i := be32_at bytes i]) (replicate 64 0) [0..<16]) [16..<64]"

type_synonym vars8 = "u32 \<times> u32 \<times> u32 \<times> u32 \<times> u32 \<times> u32 \<times> u32 \<times> u32"

definition sha_round :: "u32 list \<Rightarrow> vars8 \<Rightarrow> nat \<Rightarrow> vars8" where
  "sha_round words = (\<lambda>(a, b, c, d, e, f, g, h) i.
     let s1 = rotateRight e 6 XOR rotateRight e 11 XOR rotateRight e 25;
         choice = (e AND f) XOR (NOT e AND g);
         temp1 = h + s1 + choice + kRound ! i + words ! i;
         s0 = rotateRight a 2 XOR rotateRight a 13 XOR rotateRight a 22;
         majority = (a AND b) XOR (a AND c) XOR (b AND c);
         temp2 = s0 + majority
     in (temp1 + temp2, a, b, c, d + temp1, e, f, g))"

definition transform :: "u32 list \<Rightarrow> u8 list \<Rightarrow> u32 list" where
  "transform st bytes =
     (case foldl (sha_round (message_words bytes)) (st ! 0, st ! 1, st ! 2, st ! 3, st ! 4, st ! 5, st ! 6, st ! 7) [0..<64] of
        (a, b, c, d, e, f, g, h) \<Rightarrow>
          [st ! 0 + a, st ! 1 + b, st ! 2 + c, st ! 3 + d, st ! 4 + e, st ! 5 + f, st ! 6 + g, st ! 7 + h])"

definition update_step :: "sha256 \<Rightarrow> u8 list \<Rightarrow> sha256 \<times> u8 list" where
  "update_step s input =
     (let available = 64 - sh_used s; copySize = min available (length input);
          s1 = s\<lparr>sh_block := overwrite (sh_block s) (sh_used s) (take copySize input), sh_used := sh_used s + copySize,
                 sh_bitCount := sh_bitCount s + of_nat copySize * 8\<rparr>
      in (if sh_used s1 = 64 then s1\<lparr>sh_state := transform (sh_state s1) (sh_block s1), sh_used := 0\<rparr> else s1,
          drop copySize input))"

partial_function (option) sha_update :: "sha256 \<Rightarrow> u8 list \<Rightarrow> sha256 option" where
  "sha_update s input = (if input = [] then Some s
     else case update_step s input of (s', rest) \<Rightarrow> sha_update s' rest)"

declare sha_update.simps [code]

function zero_fill :: "nat \<Rightarrow> u8 list \<Rightarrow> nat \<Rightarrow> u8 list \<times> nat" where
  "zero_fill limit block used = (if used < limit then zero_fill limit (block[used := 0]) (used + 1) else (block, used))"
  by pat_completeness auto
termination
  by (relation "measure (\<lambda>(limit, block, used). limit - used)") auto

declare zero_fill.simps [simp del]

definition state_bytes :: "u32 list \<Rightarrow> u8 list" where
  "state_bytes st = concat (map (\<lambda>w. map (\<lambda>byte. ucast (drop_bit ((3 - byte) * 8) w)) [0..<4]) st)"

definition sha_finish :: "sha256 \<Rightarrow> u8 list" where
  "sha_finish s =
     (let block0 = (sh_block s)[sh_used s := 0x80]; used0 = sh_used s + 1;
          (st1, block1, used1) =
            (if 56 < used0 then (case zero_fill 64 block0 used0 of (b, u) \<Rightarrow> (transform (sh_state s) b, b, 0))
             else (sh_state s, block0, used0));
          (block2, used2) = zero_fill 56 block1 used1;
          block3 = foldl (\<lambda>b i. b[63 - i := ucast (drop_bit (i * 8) (sh_bitCount s))]) block2 [0..<8]
      in state_bytes (transform st1 block3))"

definition hex_digits :: string where
  "hex_digits = ''0123456789abcdef''"

definition hexDigest :: "u8 list \<Rightarrow> string" where
  "hexDigest digest = concat (map (\<lambda>v. [hex_digits ! unat (drop_bit 4 v), hex_digits ! unat (v AND 0x0F)]) digest)"

definition selfTest :: bool where
  "selfTest \<longleftrightarrow> map_option (hexDigest \<circ> sha_finish) (sha_update new_sha256 (map of_char ''abc'')) =
     Some ''ba7816bf8f01cfea414140de5dae2223b00361a396177a9cb410ff61f20015ad''"

section \<open>The standard\<close>

definition Ch :: "u32 \<Rightarrow> u32 \<Rightarrow> u32 \<Rightarrow> u32" where
  "Ch x y z = (x AND y) XOR (NOT x AND z)"

definition Maj :: "u32 \<Rightarrow> u32 \<Rightarrow> u32 \<Rightarrow> u32" where
  "Maj x y z = (x AND y) XOR (x AND z) XOR (y AND z)"

definition Sigma0 :: "u32 \<Rightarrow> u32" where
  "Sigma0 x = word_rotr 2 x XOR word_rotr 13 x XOR word_rotr 22 x"

definition Sigma1 :: "u32 \<Rightarrow> u32" where
  "Sigma1 x = word_rotr 6 x XOR word_rotr 11 x XOR word_rotr 25 x"

definition sigma0 :: "u32 \<Rightarrow> u32" where
  "sigma0 x = word_rotr 7 x XOR word_rotr 18 x XOR drop_bit 3 x"

definition sigma1 :: "u32 \<Rightarrow> u32" where
  "sigma1 x = word_rotr 17 x XOR word_rotr 19 x XOR drop_bit 10 x"

fun schedule :: "u8 list \<Rightarrow> nat \<Rightarrow> u32" where
  "schedule M t = (if t < 16 then be32_at M t
     else sigma1 (schedule M (t - 2)) + schedule M (t - 7) + sigma0 (schedule M (t - 15)) + schedule M (t - 16))"

declare schedule.simps [simp del]

fun fips_round :: "vars8 \<Rightarrow> u32 \<times> u32 \<Rightarrow> vars8" where
  "fips_round (a, b, c, d, e, f, g, h) (k, w) =
     (let T1 = h + Sigma1 e + Ch e f g + k + w; T2 = Sigma0 a + Maj a b c
      in (T1 + T2, a, b, c, d + T1, e, f, g))"

definition compress :: "u32 list \<Rightarrow> u8 list \<Rightarrow> u32 list" where
  "compress H M =
     (case foldl fips_round (H ! 0, H ! 1, H ! 2, H ! 3, H ! 4, H ! 5, H ! 6, H ! 7) (zip kRound (map (schedule M) [0..<64])) of
        (a, b, c, d, e, f, g, h) \<Rightarrow>
          [a + H ! 0, b + H ! 1, c + H ! 2, d + H ! 3, e + H ! 4, f + H ! 5, g + H ! 6, h + H ! 7])"

definition length_bytes :: "nat \<Rightarrow> u8 list" where
  "length_bytes n = map (\<lambda>i. ucast (drop_bit ((7 - i) * 8) (of_nat (8 * n) :: u64))) [0..<8]"

definition padding :: "nat \<Rightarrow> u8 list" where
  "padding n = [0x80] @ replicate ((119 - n mod 64) mod 64) 0 @ length_bytes n"

function hash_blocks :: "u32 list \<Rightarrow> u8 list \<Rightarrow> u32 list \<times> u8 list" where
  "hash_blocks H m = (if length m < 64 then (H, m) else hash_blocks (compress H (take 64 m)) (drop 64 m))"
  by pat_completeness auto
termination
  by (relation "measure (\<lambda>(H, m). length m)") auto

declare hash_blocks.simps [simp del]

definition fips_sha256 :: "u8 list \<Rightarrow> u8 list" where
  "fips_sha256 m = state_bytes (fst (hash_blocks initial_state (m @ padding (length m))))"

section \<open>The compression function\<close>

lemma rotateRight_rotr: "0 < n \<Longrightarrow> n < 32 \<Longrightarrow> rotateRight x n = word_rotr n x"
proof (rule bit_word_eqI)
  fix k assume n: "0 < n" "n < 32" and k: "k < LENGTH(32)"
  have "(k + n) mod 32 = (if k + n < 32 then k + n else k - (32 - n))" using n k by (simp add: mod_if)
  moreover have "\<not> bit x (k + n)" if "32 \<le> k + n" using that by (auto dest: bit_imp_le_length)
  ultimately show "bit (rotateRight x n) k = bit (word_rotr n x) k"
    using n k by (auto simp: rotateRight_def bit_simps bit_word_rotr_iff add.commute)
qed

lemma first_words:
  "n \<le> 16 \<Longrightarrow> foldl (\<lambda>ws i. ws[i := be32_at bytes i]) (replicate 64 0) [0..<n] = map (schedule bytes) [0..<n] @ replicate (64 - n) 0"
proof (induction n)
  case (Suc n)
  then have "replicate (64 - n) (0 :: u32) = 0 # replicate (64 - Suc n) 0"
    by (simp flip: replicate_Suc add: Suc_diff_Suc)
  with Suc show ?case by (simp add: schedule.simps [of bytes n] list_update_append)
qed simp

lemma extended_words:
  assumes "16 \<le> n" "n \<le> 64"
  shows "foldl extend_word (map (schedule bytes) [0..<16] @ replicate 48 0) [16..<n] = map (schedule bytes) [0..<n] @ replicate (64 - n) 0"
  using assms
proof (induction n rule: nat_induct_at_least)
  case (Suc n)
  define ws where "ws = map (schedule bytes) [0..<n] @ replicate (64 - n) (0 :: u32)"
  have r: "replicate (64 - n) (0 :: u32) = 0 # replicate (64 - Suc n) 0"
    using Suc.prems by (simp flip: replicate_Suc add: Suc_diff_Suc)
  have "ws ! (n - k) = schedule bytes (n - k)" if "0 < k" "k \<le> 16" for k
    using that Suc.hyps by (simp add: ws_def nth_append)
  then have "extend_word ws n = ws[n := schedule bytes n]"
    using Suc.hyps by (simp add: extend_word_def Let_def schedule.simps [of bytes n] sigma0_def sigma1_def rotateRight_rotr ac_simps)
  moreover have "ws[n := schedule bytes n] = map (schedule bytes) [0..<Suc n] @ replicate (64 - Suc n) 0"
    by (simp add: ws_def r list_update_append)
  ultimately show ?case using Suc by (simp add: ws_def)
qed simp

lemma message_words_schedule: "message_words bytes = map (schedule bytes) [0..<64]"
  unfolding message_words_def using first_words [of 16 bytes] extended_words [of 64 bytes] by simp

lemma prod_cases8: obtains a b c d e f g h where "v = (a, b, c, d, e, f, g, h)"
  by (cases v) auto

lemma sha_round_fips: "sha_round words v i = fips_round v (kRound ! i, words ! i)"
  by (cases v rule: prod_cases8) (simp add: sha_round_def Let_def Sigma0_def Sigma1_def Ch_def Maj_def rotateRight_rotr)

lemma length_kRound [simp]: "length kRound = 64"
  by (simp add: kRound_def)

lemma transform_compress: "transform H M = compress H M"
proof -
  have z: "zip kRound (map (schedule M) [0..<64]) = map (\<lambda>i. (kRound ! i, map (schedule M) [0..<64] ! i)) [0..<64]"
    by (rule nth_equalityI) simp_all
  have "foldl (sha_round (message_words M)) v [0..<64] = foldl fips_round v (zip kRound (map (schedule M) [0..<64]))" for v
    unfolding z by (simp add: foldl_map sha_round_fips [abs_def] message_words_schedule del: upt_Suc)
  then show ?thesis by (simp add: transform_def compress_def add.commute split: prod.split)
qed

section \<open>Streaming\<close>

lemma hash_blocks_append:
  "hash_blocks H (m @ x) = (case hash_blocks H m of (H', r) \<Rightarrow> hash_blocks H' (r @ x))"
proof (induction H m rule: hash_blocks.induct)
  case (1 H m)
  show ?case
  proof (cases "length m < 64")
    case True
    then show ?thesis by (simp add: hash_blocks.simps [of H m])
  next
    case False
    then show ?thesis
      using 1 by (simp add: hash_blocks.simps [of H m] hash_blocks.simps [of H "m @ x"])
  qed
qed

lemma hash_blocks_rest: "length (snd (hash_blocks H m)) = length m mod 64"
proof (induction H m rule: hash_blocks.induct)
  case (1 H m)
  then show ?case by (subst hash_blocks.simps) (simp add: le_mod_geq)
qed

text \<open>The object after the message \<open>m\<close>: whole blocks are absorbed, the rest waits in the buffer.\<close>

definition sha_holds :: "sha256 \<Rightarrow> u8 list \<Rightarrow> bool" where
  "sha_holds s m \<longleftrightarrow> hash_blocks initial_state m = (sh_state s, take (sh_used s) (sh_block s)) \<and>
     sh_used s < 64 \<and> length (sh_block s) = 64 \<and> sh_bitCount s = of_nat (8 * length m)"

lemma new_sha256_holds: "sha_holds new_sha256 []"
  by (simp add: sha_holds_def new_sha256_def hash_blocks.simps)

lemma update_step_holds:
  assumes "sha_holds s m" "input \<noteq> []"
  obtains k where "0 < k" "k \<le> length input" "snd (update_step s input) = drop k input"
    "sha_holds (fst (update_step s input)) (m @ take k input)"
proof -
  define k where "k = min (64 - sh_used s) (length input)"
  have u: "sh_used s < 64" "length (sh_block s) = 64" and bc: "sh_bitCount s = of_nat (8 * length m)"
    and hb: "hash_blocks initial_state m = (sh_state s, take (sh_used s) (sh_block s))"
    using assms(1) by (simp_all add: sha_holds_def)
  have k: "0 < k" "k \<le> length input" "sh_used s + k \<le> 64" using u assms(2) by (auto simp: k_def)
  define b where "b = overwrite (sh_block s) (sh_used s) (take k input)"
  have lb: "length b = 64" using u k by (simp add: b_def)
  have tb: "take (sh_used s + k) b = take (sh_used s) (sh_block s) @ take k input"
    using u k by (simp add: b_def overwrite_def)
  have h: "hash_blocks initial_state (m @ take k input) = hash_blocks (sh_state s) (take (sh_used s + k) b)"
    using hash_blocks_append [of initial_state m "take k input"] by (simp add: hb tb)
  have cnt: "of_nat (8 * length m) + of_nat k * 8 = (of_nat (8 * length (m @ take k input)) :: u64)"
    using k(2) by (simp add: algebra_simps)
  have "sha_holds (fst (update_step s input)) (m @ take k input)"
  proof (cases "sh_used s + k = 64")
    case True
    then have "hash_blocks initial_state (m @ take k input) = (transform (sh_state s) b, [])"
      using h lb hash_blocks.simps [of "sh_state s" b] hash_blocks.simps [of "compress (sh_state s) b" "[]"]
      by (simp add: transform_compress)
    then show ?thesis using True lb bc cnt
      by (simp add: sha_holds_def update_step_def Let_def k_def [symmetric] b_def [symmetric])
  next
    case False
    then have "hash_blocks initial_state (m @ take k input) = (sh_state s, take (sh_used s + k) b)"
      using h k(3) lb hash_blocks.simps [of "sh_state s" "take (sh_used s + k) b"] by simp
    then show ?thesis using False k(3) lb bc cnt
      by (simp add: sha_holds_def update_step_def Let_def k_def [symmetric] b_def [symmetric])
  qed
  with k show thesis by (intro that [of k]) (simp_all add: update_step_def Let_def k_def)
qed

text \<open>The loop ends and absorbs its whole input.\<close>

lemma sha_update_holds:
  "sha_holds s m \<Longrightarrow> \<exists>s'. sha_update s input = Some s' \<and> sha_holds s' (m @ input)"
proof (induction "length input" arbitrary: s m input rule: less_induct)
  case less
  show ?case
  proof (cases "input = []")
    case True
    then show ?thesis using less.prems by (subst sha_update.simps) simp
  next
    case False
    obtain k where k: "0 < k" "k \<le> length input" "snd (update_step s input) = drop k input"
      "sha_holds (fst (update_step s input)) (m @ take k input)"
      by (rule update_step_holds [OF less.prems False])
    have "length (drop k input) < length input" using k(1) False by simp
    from less.hyps [OF this k(4)] show ?thesis
      using False k(3) by (subst sha_update.simps) (simp add: case_prod_beta)
  qed
qed

fun sha_updates :: "sha256 \<Rightarrow> u8 list list \<Rightarrow> sha256 option" where
  "sha_updates s [] = Some s"
| "sha_updates s (c # cs) = (case sha_update s c of None \<Rightarrow> None | Some s' \<Rightarrow> sha_updates s' cs)"

lemma sha_updates_holds:
  "sha_holds s m \<Longrightarrow> \<exists>s'. sha_updates s chunks = Some s' \<and> sha_holds s' (m @ concat chunks)"
proof (induction chunks arbitrary: s m)
  case (Cons c cs)
  obtain s1 where "sha_update s c = Some s1" "sha_holds s1 (m @ c)" using sha_update_holds [OF Cons.prems] by blast
  with Cons.IH [of s1 "m @ c"] show ?case by simp
qed simp

section \<open>Padding\<close>

lemma zero_fill_spec:
  "used \<le> limit \<Longrightarrow> limit \<le> length b \<Longrightarrow>
     zero_fill limit b used = (take used b @ replicate (limit - used) 0 @ drop limit b, limit)"
proof (induction limit b used rule: zero_fill.induct)
  case (1 limit b used)
  show ?case
  proof (cases "used < limit")
    case True
    then have "zero_fill limit b used = (take (used + 1) (b[used := 0]) @ replicate (limit - (used + 1)) 0 @ drop limit b, limit)"
      using 1 by (subst zero_fill.simps) simp
    moreover have "take (used + 1) (b[used := 0]) = take used b @ [0]"
      using True 1(3) by (simp add: take_Suc_conv_app_nth)
    moreover have "0 # replicate (limit - Suc used) 0 = replicate (limit - used) (0 :: u8)"
      using True by (simp flip: replicate_Suc add: Suc_diff_Suc)
    ultimately show ?thesis by simp
  next
    case False
    with 1(2) show ?thesis by (subst zero_fill.simps) simp
  qed
qed

lemma length_writes:
  assumes "length b = 64"
  shows "foldl (\<lambda>b i. b[63 - i := ucast (drop_bit (i * 8) (of_nat (8 * n) :: u64))]) b [0..<8] = take 56 b @ length_bytes n"
proof -
  obtain xs y0 y1 y2 y3 y4 y5 y6 y7 where b: "b = xs @ [y0, y1, y2, y3, y4, y5, y6, y7]" "length xs = 56"
  proof -
    have eight: "\<exists>y0 y1 y2 y3 y4 y5 y6 y7. ys = [y0, y1, y2, y3, y4, y5, y6, y7]" if "length ys = 8" for ys :: "u8 list"
      using that by (auto simp: length_Suc_conv eval_nat_numeral)
    have "length (drop 56 b) = 8" "length (take 56 b) = 56" using assms by simp_all
    with eight [of "drop 56 b"] show thesis using that [of "take 56 b"] append_take_drop_id [of 56 b] by metis
  qed
  show ?thesis unfolding b(1) by (simp add: upt_rec length_bytes_def list_update_append b(2))
qed

lemma length_length_bytes [simp]: "length (length_bytes n) = 8"
  by (simp add: length_bytes_def)

lemma hash_one: "length b = 64 \<Longrightarrow> hash_blocks H (b @ x) = hash_blocks (compress H b) x"
  by (subst hash_blocks.simps) simp

lemma hash_nil: "hash_blocks H [] = (H, [])"
  by (subst hash_blocks.simps) simp

lemma sha_finish_fips:
  assumes "sha_holds s m" shows "sha_finish s = fips_sha256 m"
proof -
  define u where "u = sh_used s"
  define r where "r = take u (sh_block s)"
  have hb: "hash_blocks initial_state m = (sh_state s, r)" and u: "u < 64" and len: "length (sh_block s) = 64"
    and bc: "sh_bitCount s = of_nat (8 * length m)"
    using assms by (simp_all add: sha_holds_def u_def r_def)
  have lr: "length r = u" using u len by (simp add: r_def)
  have um: "length m mod 64 = u" using hash_blocks_rest [of initial_state m] hb lr by simp
  have fips: "fips_sha256 m = state_bytes (fst (hash_blocks (sh_state s) (r @ padding (length m))))"
    using hash_blocks_append [of initial_state m "padding (length m)"] by (simp add: fips_sha256_def hb)
  define block0 where "block0 = (sh_block s)[u := 0x80]"
  have b0: "take (u + 1) block0 = r @ [0x80]" "length block0 = 64"
    using u len by (simp_all add: block0_def r_def take_Suc_conv_app_nth)
  show ?thesis
  proof (cases "56 < u + 1")
    case False
    then have zf: "zero_fill 56 block0 (u + 1) = (r @ [0x80] @ replicate (55 - u) 0 @ drop 56 block0, 56)"
      using zero_fill_spec [of "u + 1" 56 block0] b0 by simp
    define last where "last = r @ [0x80] @ replicate (55 - u) 0 @ length_bytes (length m)"
    have "(119 - u) mod 64 = 55 - u" using False by (simp add: mod_if)
    then have "r @ padding (length m) = last" "length last = 64"
      using False lr by (simp_all add: padding_def um last_def)
    moreover have "56 - u = Suc (55 - u)" using False by simp
    then have "sha_finish s = state_bytes (transform (sh_state s) last)"
      using False zf length_writes [of "r @ [0x80] @ replicate (55 - u) 0 @ drop 56 block0" "length m"] b0 lr bc
      by (simp add: sha_finish_def Let_def u_def [symmetric] block0_def [symmetric] last_def)
    ultimately show ?thesis
      using fips hash_one [of last "sh_state s" "[]"] by (simp add: hash_nil transform_compress)
  next
    case True
    define first where "first = r @ [0x80] @ replicate (63 - u) 0"
    define last where "last = replicate 56 0 @ length_bytes (length m)"
    have l: "length first = 64" "length last = 64" using lr u by (simp_all add: first_def last_def)
    have "(119 - u) mod 64 = 63 - u + 56" using True u by (simp add: mod_if)
    then have "r @ padding (length m) = first @ last"
      by (simp only: padding_def um first_def last_def replicate_add append_assoc)
    moreover have "zero_fill 64 block0 (u + 1) = (first, 64)"
      using zero_fill_spec [of "u + 1" 64 block0] b0 u by (simp add: first_def)
    moreover have "zero_fill 56 first 0 = (replicate 56 0 @ drop 56 first, 56)"
      using zero_fill_spec [of 0 56 first] l by simp
    ultimately have "sha_finish s = state_bytes (transform (transform (sh_state s) first) last)"
      using True length_writes [of "replicate 56 0 @ drop 56 first" "length m"] l bc
      by (simp add: sha_finish_def Let_def u_def [symmetric] block0_def [symmetric] last_def)
    then show ?thesis
      using fips \<open>r @ padding (length m) = first @ last\<close> hash_one [OF l(1), of "sh_state s" last]
        hash_one [OF l(2), of "compress (sh_state s) first" "[]"] by (simp add: hash_nil transform_compress)
  qed
qed

section \<open>A hash engine\<close>

text \<open>
  What a client needs of a hash engine that is fed piece by piece: a context that can be started,
  updated and finished, each step possibly failing, and a finished context yields the digest of all
  the bytes it was fed.
\<close>

record 'h hash_ops =
  ho_starts :: "'h option"
  ho_update :: "'h \<Rightarrow> u8 list \<Rightarrow> 'h option"
  ho_finish :: "'h \<Rightarrow> u8 list option"

fun hash_feed :: "'h hash_ops \<Rightarrow> 'h \<Rightarrow> u8 list list \<Rightarrow> 'h option" where
  "hash_feed ops h [] = Some h"
| "hash_feed ops h (c # cs) = (case ho_update ops h c of None \<Rightarrow> None | Some h' \<Rightarrow> hash_feed ops h' cs)"

locale hash_engine =
  fixes ops :: "'h hash_ops" and digest :: "u8 list \<Rightarrow> u8 list"
  assumes finish_digest: "ho_starts ops = Some h \<Longrightarrow> hash_feed ops h chunks = Some h' \<Longrightarrow> ho_finish ops h' = Some d \<Longrightarrow>
    d = digest (concat chunks)"
begin

text \<open>A context reached from a start by the updates \<open>chunks\<close>.\<close>

definition holds :: "'h \<Rightarrow> u8 list \<Rightarrow> bool" where
  "holds h m \<longleftrightarrow> (\<exists>h0 chunks. ho_starts ops = Some h0 \<and> hash_feed ops h0 chunks = Some h \<and> concat chunks = m)"

lemma feed_snoc: "hash_feed ops h (cs @ [c]) = (case hash_feed ops h cs of None \<Rightarrow> None | Some h' \<Rightarrow> ho_update ops h' c)"
  by (induction cs arbitrary: h) (auto split: option.split)

lemma holds_start: "ho_starts ops = Some h \<Longrightarrow> holds h []"
  unfolding holds_def by (metis concat.simps(1) hash_feed.simps(1))

lemma holds_update: "holds h m \<Longrightarrow> ho_update ops h c = Some h' \<Longrightarrow> holds h' (m @ c)"
  unfolding holds_def
  by (elim exE conjE) (rule exI, rule_tac x = "chunks @ [c]" in exI, auto simp: feed_snoc)

lemma holds_finish: "holds h m \<Longrightarrow> ho_finish ops h = Some d \<Longrightarrow> d = digest m"
  unfolding holds_def using finish_digest by blast

end

definition sha256_engine :: "sha256 hash_ops" where
  "sha256_engine = \<lparr>ho_starts = Some new_sha256, ho_update = sha_update, ho_finish = Some \<circ> sha_finish\<rparr>"

lemma sha256_engine_feed: "hash_feed sha256_engine s chunks = sha_updates s chunks"
  by (induction chunks arbitrary: s) (simp_all add: sha256_engine_def split: option.split)

interpretation sha_engine: hash_engine sha256_engine fips_sha256
proof
  fix h h' chunks d
  assume "ho_starts sha256_engine = Some h" "hash_feed sha256_engine h chunks = Some h'" "ho_finish sha256_engine h' = Some d"
  then show "d = fips_sha256 (concat chunks)"
    using sha_updates_holds [OF new_sha256_holds, of chunks] sha_finish_fips
    unfolding sha256_engine_feed by (auto simp: sha256_engine_def)
qed

section \<open>Hexadecimal digests\<close>

lemma length_state_bytes: "length (state_bytes st) = 4 * length st"
  by (induction st) (simp_all add: state_bytes_def)

lemma length_fips [simp]: "length (fips_sha256 m) = 32"
proof -
  have "length (fst (hash_blocks H m)) = 8" if "length H = 8" for H and m :: "u8 list"
    using that
  proof (induction H m rule: hash_blocks.induct)
    case (1 H m)
    then show ?case by (subst hash_blocks.simps) (simp add: compress_def split: prod.split)
  qed
  from this [of initial_state] show ?thesis by (simp add: fips_sha256_def length_state_bytes initial_state_def)
qed

lemma length_hexDigest [simp]: "length (hexDigest d) = 2 * length d"
  by (induction d) (simp_all add: hexDigest_def)

lemma hexDigest_Cons: "hexDigest (v # d) =
    [hex_digits ! unat (drop_bit 4 v), hex_digits ! unat (v AND 0x0F)] @ hexDigest d"
  by (simp add: hexDigest_def)

lemma length_hex_digits: "length hex_digits = 16"
  by (simp add: hex_digits_def)

lemma nibbles: "unat (drop_bit 4 (v :: u8)) < 16" "unat (v AND 0x0F) < 16"
proof -
  show "unat (drop_bit 4 (v :: u8)) < 16"
    using unsigned_less [of v, where ?'a = nat] by (simp add: drop_bit_eq_div unat_div less_mult_imp_div_less)
  have "v AND 0x0F = take_bit 4 v" by (simp add: take_bit_eq_mask mask_eq_exp_minus_1)
  then show "unat (v AND 0x0F) < 16" by (simp add: take_bit_eq_mod unat_mod)
qed

lemma hexDigest_chars: "set (hexDigest d) \<subseteq> set hex_digits"
proof (induction d)
  case (Cons v d)
  have "hex_digits ! unat (drop_bit 4 v) \<in> set hex_digits"
    "hex_digits ! unat (v AND 0x0F) \<in> set hex_digits"
    using nibbles [of v] by (auto simp: length_hex_digits intro: nth_mem)
  then show ?case using Cons unfolding hexDigest_Cons by simp
qed (simp add: hexDigest_def)

section \<open>Properties\<close>

text \<open>
  Property C16 (equivalence). The streaming hash is SHA-256: for every message and every way of
  handing it over in pieces, the update loops end and the digest is the one the standard defines on
  the whole message.
\<close>

theorem streaming_sha256:
  "\<exists>s. sha_updates new_sha256 chunks = Some s \<and> sha_finish s = fips_sha256 (concat chunks)"
  using sha_updates_holds [OF new_sha256_holds, of chunks] sha_finish_fips by auto

text \<open>
  The tool's built-in self test passes: the class computes the published
  digest of \<^verbatim>\<open>abc\<close>.
\<close>

theorem self_test_passes: "selfTest"
  by code_simp

text \<open>
  The update loop ends from every state of the object whose buffer counter is
  in range, whatever the input, and leaves the counter below the block size: also from a full buffer,
  where the first iteration copies nothing. It counts every input byte, modulo 2 to the 64 bits.
\<close>

theorem update_terminates:
  assumes "sh_used s \<le> 64"
  shows "\<exists>s'. sha_update s input = Some s' \<and> sh_used s' \<le> 64 \<and> (input = [] \<or> sh_used s' < 64) \<and>
    sh_bitCount s' = sh_bitCount s + 8 * of_nat (length input)"
  using assms
proof (induction "2 * length input + (if sh_used s = 64 then 1 else 0)" arbitrary: s input rule: less_induct)
  case less
  show ?case
  proof (cases "input = []")
    case True
    then show ?thesis using less.prems by (subst sha_update.simps) simp
  next
    case False
    define k where "k = min (64 - sh_used s) (length input)"
    define s1 where "s1 = fst (update_step s input)"
    have s1: "sh_used s1 < 64" "sh_bitCount s1 = sh_bitCount s + of_nat k * 8" "snd (update_step s input) = drop k input"
      using less.prems False by (auto simp: s1_def update_step_def Let_def k_def [symmetric]) (simp add: k_def)
    have "0 < k \<or> sh_used s = 64" using less.prems False by (auto simp: k_def)
    then have "2 * length (drop k input) + (if sh_used s1 = 64 then 1 else 0) < 2 * length input + (if sh_used s = 64 then 1 else 0)"
      using s1(1) False by (cases input) auto
    from less.hyps [OF this] s1(1) obtain s' where s': "sha_update s1 (drop k input) = Some s'" "sh_used s' \<le> 64"
        "drop k input = [] \<or> sh_used s' < 64" "sh_bitCount s' = sh_bitCount s1 + 8 * of_nat (length input - k)" by auto
    have eq: "sha_update s input = sha_update s1 (drop k input)"
      using False s1(3) by (subst sha_update.simps) (simp add: s1_def case_prod_beta)
    have "sh_used s' < 64"
    proof (cases "drop k input = []")
      case True
      with s'(1) s1(1) show ?thesis by (subst (asm) sha_update.simps) simp
    qed (use s'(3) in simp)
    moreover have "k + (length input - k) = length input" by (simp add: k_def)
    then have "of_nat k * 8 + 8 * of_nat (length input - k) = (8 * of_nat (length input) :: u64)"
      by (metis (no_types, lifting) distrib_left mult.commute of_nat_add)
    ultimately show ?thesis using s'(1,4) s1(2) eq by (simp add: add.assoc)
  qed
qed

end
