(* ===== verification/EspOta.thy ===== *)
theory EspOta
  imports Sha256
begin

text \<open>
  The node's firmware update endpoint \<^verbatim>\<open>EspOtaService\<close> (\<^verbatim>\<open>node-esp32-evb/src/EspOtaService.cpp\<close>). The Arduino
  web server, the flash writer \<^verbatim>\<open>Update\<close> and the hash engine \<^verbatim>\<open>mbedtls\<close> are not part of the repository: the
  server is the sequence of upload events it reports, flash and hash are records of operations. The
  code relies on the hash engine to yield the digest of the bytes fed (locale \<open>hash_engine\<close>), which is
  discharged here for the SHA-256 class of theory \<^verbatim>\<open>Sha256\<close>.
\<close>

section \<open>Platform\<close>

record 'f flash_ops =
  fl_begin :: "('f, bool) state"
  fl_write :: "u8 list \<Rightarrow> ('f, nat) state"
  fl_end :: "('f, bool) state"
  fl_abort :: "('f, unit) state"

datatype upload_event =
    UploadStart (ue_remote: u32) (ue_sha: string) (ue_token: string)
  | UploadWrite "u8 list"
  | UploadEnd
  | UploadAborted

section \<open>The service\<close>

record ota_config =
  ota_port :: u16
  ota_rockPiAddress :: u32
  ota_tokenHash :: string

record ('h, 'f) ota =
  os_config :: ota_config
  os_started :: bool
  os_accepted :: bool
  os_completed :: bool
  os_restartPending :: bool
  os_restartAtMs :: u32
  os_rejectedRequests :: u32
  os_writtenBytes :: u32
  os_expectedSha256 :: string
  os_failureReason :: string
  os_hash :: "'h option"
  os_flash :: 'f

definition kMaxFirmwareBytes :: u32 where
  "kMaxFirmwareBytes = 3 * 1024 * 1024"

definition new_ota :: "ota_config \<Rightarrow> 'f \<Rightarrow> ('h, 'f) ota" where
  "new_ota config flash = \<lparr>os_config = config, os_started = False, os_accepted = False, os_completed = False,
     os_restartPending = False, os_restartAtMs = 0, os_rejectedRequests = 0, os_writtenBytes = 0,
     os_expectedSha256 = [], os_failureReason = ''not started'', os_hash = None, os_flash = flash\<rparr>"

definition is_hex :: "char \<Rightarrow> bool" where
  "is_hex c = (let n = of_char c :: nat in (48 \<le> n \<and> n \<le> 57) \<or> (97 \<le> n \<and> n \<le> 102) \<or> (65 \<le> n \<and> n \<le> 70))"

definition validSha256 :: "string \<Rightarrow> bool" where
  "validSha256 v \<longleftrightarrow> length v = 64 \<and> list_all is_hex v"

text \<open>The loop accumulates the differences of all characters.\<close>

definition secureEquals :: "string \<Rightarrow> string \<Rightarrow> bool" where
  "secureEquals left right = (if length left \<noteq> length right then False
     else foldl (\<lambda>difference i. difference OR ((of_char (left ! i) :: u8) XOR of_char (right ! i))) 0 [0..<length left] = 0)"

definition ota_enabled :: "ota_config \<Rightarrow> bool" where
  "ota_enabled config \<longleftrightarrow> ota_rockPiAddress config \<noteq> 0 \<and> validSha256 (ota_tokenHash config)"

definition ota_sourceAllowed :: "ota_config \<Rightarrow> u32 \<Rightarrow> bool" where
  "ota_sourceAllowed config remote \<longleftrightarrow> ota_enabled config \<and> remote = ota_rockPiAddress config"

definition sha256Hex :: "'h hash_ops \<Rightarrow> string \<Rightarrow> string" where
  "sha256Hex ops v = (case ho_starts ops of None \<Rightarrow> []
     | Some h \<Rightarrow> (case ho_update ops h (map of_char v) of None \<Rightarrow> []
       | Some h' \<Rightarrow> (case ho_finish ops h' of None \<Rightarrow> [] | Some digest \<Rightarrow> hexDigest digest)))"

definition finishFirmwareHash :: "'h hash_ops \<Rightarrow> 'h option \<Rightarrow> string" where
  "finishFirmwareHash ops context = (case context of None \<Rightarrow> []
     | Some h \<Rightarrow> (case ho_finish ops h of None \<Rightarrow> [] | Some digest \<Rightarrow> hexDigest digest))"

definition requestAuthorized :: "'h hash_ops \<Rightarrow> ota_config \<Rightarrow> u32 \<Rightarrow> string \<Rightarrow> string \<Rightarrow> bool" where
  "requestAuthorized ops config remote sha token \<longleftrightarrow> ota_sourceAllowed config remote \<and> validSha256 sha \<and>
     secureEquals (sha256Hex ops token) (ota_tokenHash config)"

definition ota_begin :: "('h, 'f) ota \<Rightarrow> ('h, 'f) ota" where
  "ota_begin sv = (if os_started sv \<or> \<not> ota_enabled (os_config sv) then sv else sv\<lparr>os_started := True\<rparr>)"

definition ota_fail :: "string \<Rightarrow> ('h, 'f) ota \<Rightarrow> ('h, 'f) ota" where
  "ota_fail reason sv = sv\<lparr>os_failureReason := reason\<rparr>"

text \<open>What every rejecting branch of the upload handler does after cleaning up.\<close>

definition upload_rejected :: "string \<Rightarrow> ('h, 'f) ota \<Rightarrow> ('h, 'f) ota" where
  "upload_rejected reason sv =
     (ota_fail reason (sv\<lparr>os_accepted := False\<rparr>))\<lparr>os_rejectedRequests := os_rejectedRequests sv + 1\<rparr>"

definition flash_abort :: "'f flash_ops \<Rightarrow> ('h, 'f) ota \<Rightarrow> ('h, 'f) ota" where
  "flash_abort fl sv = sv\<lparr>os_flash := snd (run_state (fl_abort fl) (os_flash sv))\<rparr>"

text \<open>The chunk guards are evaluated left to right: flash is written before the hash is updated.\<close>

fun handleUpload :: "'h hash_ops \<Rightarrow> 'f flash_ops \<Rightarrow> upload_event \<Rightarrow> ('h, 'f) ota \<Rightarrow> ('h, 'f) ota" where
  "handleUpload ops fl (UploadStart remote sha token) sv =
     (let sv1 = sv\<lparr>os_accepted := requestAuthorized ops (os_config sv) remote sha token, os_completed := False,
            os_failureReason := ''upload incomplete'', os_writtenBytes := 0, os_expectedSha256 := sha\<rparr>
      in if \<not> os_accepted sv1 then upload_rejected ''authorization'' sv1
         else case run_state (fl_begin fl) (os_flash sv1) of (begun, flash1) \<Rightarrow>
           let sv2 = sv1\<lparr>os_flash := flash1\<rparr>
           in if \<not> begun then upload_rejected ''flash initialization'' sv2
              else case ho_starts ops of None \<Rightarrow> upload_rejected ''hash initialization'' (flash_abort fl sv2)
                   | Some h \<Rightarrow> sv2\<lparr>os_hash := Some h\<rparr>)"
| "handleUpload ops fl (UploadWrite buf) sv =
     (if \<not> os_accepted sv then sv
      else if buf = [] \<or> kMaxFirmwareBytes < os_writtenBytes sv + of_nat (length buf)
        then upload_rejected ''chunk write or size'' (flash_abort fl sv)
      else case run_state (fl_write fl buf) (os_flash sv) of (n, flash1) \<Rightarrow>
        let sv1 = sv\<lparr>os_flash := flash1\<rparr>
        in if n \<noteq> length buf then upload_rejected ''chunk write or size'' (flash_abort fl sv1)
           else case Option.bind (os_hash sv1) (\<lambda>h. ho_update ops h buf) of
             None \<Rightarrow> upload_rejected ''chunk write or size'' (flash_abort fl sv1)
           | Some h \<Rightarrow> sv1\<lparr>os_hash := Some h, os_writtenBytes := os_writtenBytes sv1 + of_nat (length buf)\<rparr>)"
| "handleUpload ops fl UploadEnd sv =
     (if \<not> os_accepted sv then sv
      else let digest = finishFirmwareHash ops (os_hash sv); sv1 = sv\<lparr>os_hash := None\<rparr>
        in if os_writtenBytes sv1 = 0 \<or> \<not> secureEquals digest (os_expectedSha256 sv1)
           then upload_rejected ''integrity or flash finalization'' (flash_abort fl sv1)
           else case run_state (fl_end fl) (os_flash sv1) of (ok, flash1) \<Rightarrow>
             let sv2 = sv1\<lparr>os_flash := flash1\<rparr>
             in if \<not> ok then upload_rejected ''integrity or flash finalization'' (flash_abort fl sv2)
                else sv2\<lparr>os_completed := True\<rparr>)"
| "handleUpload ops fl UploadAborted sv =
     (if \<not> os_accepted sv then sv else upload_rejected ''upload aborted'' (flash_abort fl sv))"

definition handleResult :: "u32 \<Rightarrow> ('h, 'f) ota \<Rightarrow> (nat \<times> string) \<times> ('h, 'f) ota" where
  "handleResult now sv = (if \<not> os_completed sv then ((422, os_failureReason sv), sv)
     else ((200, ''OTA accepted; restarting''), sv\<lparr>os_restartPending := True, os_restartAtMs := now + 250\<rparr>))"

definition ota_reject :: "nat \<Rightarrow> string \<Rightarrow> ('h, 'f) ota \<Rightarrow> (nat \<times> string) \<times> ('h, 'f) ota" where
  "ota_reject status message sv = ((status, message), sv\<lparr>os_rejectedRequests := os_rejectedRequests sv + 1\<rparr>)"

text \<open>Whether a turn restarts the board; the difference is read as a signed 32-bit number.\<close>

definition ota_restart_due :: "u32 \<Rightarrow> ('h, 'f) ota \<Rightarrow> bool" where
  "ota_restart_due now sv \<longleftrightarrow> os_restartPending sv \<and> 0 \<le> sint (now - os_restartAtMs sv)"

section \<open>Comparison without early exit\<close>

lemma fold_or_zero:
  "foldl (\<lambda>d i. d OR f i) d xs = (0 :: u8) \<longleftrightarrow> d = 0 \<and> (\<forall>i \<in> set xs. f i = 0)"
  by (induction xs arbitrary: d) (auto simp: or_eq_0_iff)

lemma xor_zero: "(a XOR b = 0) \<longleftrightarrow> a = (b :: u8)"
  by (metis xor.left_neutral xor.right_neutral xor_self_eq bit.xor_left_self)

lemma of_char_inj: "(of_char a :: u8) = of_char b \<longleftrightarrow> a = b"
proof
  assume e: "(of_char a :: u8) = of_char b"
  have "unat (of_char c :: u8) = of_char c" for c
  proof -
    have "(of_char c :: nat) < 2 ^ 8" using nat_of_char_less_256 [of c] by simp
    then have "unat (of_nat (of_char c) :: u8) = of_char c" by (simp add: unsigned_of_nat take_bit_nat_eq_self)
    then show ?thesis by (simp add: of_nat_of_char)
  qed
  then have "(of_char a :: nat) = of_char b" using e by metis
  then show "a = b" by (simp add: of_char_eq_iff)
qed simp

lemma secureEquals_iff: "secureEquals left right \<longleftrightarrow> left = right"
proof (cases "length left = length right")
  case True
  then show ?thesis unfolding secureEquals_def fold_or_zero xor_zero of_char_inj
    by (auto intro: nth_equalityI)
qed (auto simp: secureEquals_def)

section \<open>What the flash holds\<close>

text \<open>
  The contract of an observed flash writer: the bytes written since \<^verbatim>\<open>begin\<close> and the image made bootable by
  \<^verbatim>\<open>end\<close>. A short write may leave anything behind, but nothing other than \<^verbatim>\<open>end\<close> makes an image bootable.
\<close>

locale flash_monitor =
  fixes fl :: "'f flash_ops" and written :: "'f \<Rightarrow> u8 list" and bootable :: "'f \<Rightarrow> u8 list option"
  assumes begin_law: "run_state (fl_begin fl) f = (b, f') \<Longrightarrow> bootable f' = bootable f \<and> (b \<longrightarrow> written f' = [])"
    and write_law: "run_state (fl_write fl buf) f = (n, f') \<Longrightarrow> bootable f' = bootable f \<and> (n = length buf \<longrightarrow> written f' = written f @ buf)"
    and end_law: "run_state (fl_end fl) f = (b, f') \<Longrightarrow> bootable f' = (if b then Some (written f) else bootable f)"
    and abort_law: "bootable (snd (run_state (fl_abort fl) f)) = bootable f"

text \<open>Any flash writer, with a ghost log beside it.\<close>

type_synonym 'f logged = "'f \<times> u8 list \<times> u8 list option"

definition recording_flash :: "'f flash_ops \<Rightarrow> 'f logged flash_ops" where
  "recording_flash fl = \<lparr>
     fl_begin = State (\<lambda>(f, w, b). let r = run_state (fl_begin fl) f in (fst r, (snd r, [], b))),
     fl_write = (\<lambda>buf. State (\<lambda>(f, w, b). let r = run_state (fl_write fl buf) f in (fst r, (snd r, w @ buf, b)))),
     fl_end = State (\<lambda>(f, w, b). let r = run_state (fl_end fl) f in (fst r, (snd r, w, if fst r then Some w else b))),
     fl_abort = State (\<lambda>(f, w, b). let r = run_state (fl_abort fl) f in (fst r, (snd r, [], b)))\<rparr>"

definition log_written :: "'f logged \<Rightarrow> u8 list" where "log_written = fst \<circ> snd"
definition log_bootable :: "'f logged \<Rightarrow> u8 list option" where "log_bootable = snd \<circ> snd"

interpretation frec: flash_monitor "recording_flash fl" log_written log_bootable for fl :: "'f flash_ops"
  by unfold_locales (auto simp: recording_flash_def log_written_def log_bootable_def case_prod_beta Let_def)

lemma config_same: "os_config (handleUpload ops fl e sv) = os_config sv"
  by (cases e) (simp_all add: upload_rejected_def ota_fail_def flash_abort_def Let_def case_prod_beta split: option.split)

lemma configs_same: "os_config (fold (handleUpload ops fl) events sv) = os_config sv"
  by (induction events arbitrary: sv) (simp_all add: config_same)

section \<open>Only verified images become bootable\<close>

definition max_image :: nat where [simp]: "max_image = 3145728"

definition chunk_small :: "upload_event \<Rightarrow> bool" where
  "chunk_small e = (case e of UploadWrite buf \<Rightarrow> length buf < 65536 | _ \<Rightarrow> True)"

text \<open>An image some authorised request announced.\<close>

definition announced :: "(u8 list \<Rightarrow> u8 list) \<Rightarrow> 'h hash_ops \<Rightarrow> ota_config \<Rightarrow> upload_event list \<Rightarrow> u8 list \<Rightarrow> bool" where
  "announced digest ops config events m \<longleftrightarrow> m \<noteq> [] \<and> length m \<le> max_image \<and>
     (\<exists>remote sha token. UploadStart remote sha token \<in> set events \<and> requestAuthorized ops config remote sha token \<and>
        sha = hexDigest (digest m))"

locale ota_update = hash_engine ops digest + flash_monitor fl written bootable
  for ops :: "'h hash_ops" and digest and fl :: "'f flash_ops" and written bootable
begin

text \<open>\<open>earlier\<close> holds of the images that were bootable before the service was created.\<close>

definition ota_inv :: "(u8 list \<Rightarrow> bool) \<Rightarrow> upload_event list \<Rightarrow> ('h, 'f) ota \<Rightarrow> bool" where
  "ota_inv earlier events sv \<longleftrightarrow>
     (\<forall>m. bootable (os_flash sv) = Some m \<longrightarrow> earlier m \<or> announced digest ops (os_config sv) events m) \<and>
     (os_accepted sv \<longrightarrow> (\<exists>remote token. UploadStart remote (os_expectedSha256 sv) token \<in> set events \<and>
        requestAuthorized ops (os_config sv) remote (os_expectedSha256 sv) token)) \<and>
     (\<forall>h. os_accepted sv \<longrightarrow> os_hash sv = Some h \<longrightarrow> holds h (written (os_flash sv)) \<and>
        os_writtenBytes sv = of_nat (length (written (os_flash sv))) \<and> length (written (os_flash sv)) \<le> max_image)"

lemma announced_mono: "announced digest ops c es m \<Longrightarrow> announced digest ops c (es @ [e]) m"
  unfolding announced_def by auto

lemma fail_inv:
  "ota_inv Q es sv \<Longrightarrow> bootable (os_flash sv') = bootable (os_flash sv) \<Longrightarrow> os_config sv' = os_config sv \<Longrightarrow> ota_inv Q (es @ [e]) (upload_rejected r sv')"
  by (auto simp: ota_inv_def upload_rejected_def ota_fail_def announced_mono)

lemma inv_mono: "ota_inv Q es sv \<Longrightarrow> ota_inv Q (es @ [e]) sv"
  unfolding ota_inv_def using announced_mono by (metis Un_iff set_append)

lemma abort_same: "bootable (os_flash (flash_abort fl sv)) = bootable (os_flash sv)" "os_config (flash_abort fl sv) = os_config sv"
  by (simp_all add: flash_abort_def abort_law)

lemma start_inv: "ota_inv Q es sv \<Longrightarrow> ota_inv Q (es @ [UploadStart remote sha token]) (handleUpload ops fl (UploadStart remote sha token) sv)"
proof -
  assume inv: "ota_inv Q es sv"
  define sv1 where "sv1 = sv\<lparr>os_accepted := requestAuthorized ops (os_config sv) remote sha token, os_completed := False,
    os_failureReason := ''upload incomplete'', os_writtenBytes := 0, os_expectedSha256 := sha\<rparr>"
  obtain b f1 where r: "run_state (fl_begin fl) (os_flash sv1) = (b, f1)" by fastforce
  have f1: "bootable f1 = bootable (os_flash sv)" "b \<longrightarrow> written f1 = []" using begin_law [OF r] by (simp_all add: sv1_def)
  note fail = fail_inv [OF inv, of _ "UploadStart remote sha token"]
  show ?thesis
  proof (cases "os_accepted sv1 \<and> b \<and> ho_starts ops \<noteq> None")
    case False
    then show ?thesis
      using fail f1 r by (auto simp: sv1_def [symmetric] Let_def abort_same intro!: fail split: option.split) (auto simp: sv1_def)
  next
    case True
    then obtain h where h: "ho_starts ops = Some h" by auto
    show ?thesis
      using True h r f1 inv holds_start [OF h] by (auto simp: sv1_def ota_inv_def Let_def announced_mono)
  qed
qed

lemma write_inv:
  assumes inv: "ota_inv Q es sv" and small: "length buf < 65536"
  shows "ota_inv Q (es @ [UploadWrite buf]) (handleUpload ops fl (UploadWrite buf) sv)"
proof -
  note fail = fail_inv [OF inv]
  obtain n f1 where r: "run_state (fl_write fl buf) (os_flash sv) = (n, f1)" by fastforce
  have f1: "bootable f1 = bootable (os_flash sv)" "n = length buf \<Longrightarrow> written f1 = written (os_flash sv) @ buf"
    using write_law [OF r] by simp_all
  define up where "up = Option.bind (os_hash sv) (\<lambda>h. ho_update ops h buf)"
  show ?thesis
  proof (cases "os_accepted sv \<and> buf \<noteq> [] \<and> \<not> kMaxFirmwareBytes < os_writtenBytes sv + of_nat (length buf) \<and> n = length buf \<and> up \<noteq> None")
    case False
    then show ?thesis
      using inv_mono [OF inv] f1(1) r by (auto simp: up_def [symmetric] Let_def abort_same intro!: fail split: option.split)
  next
    case True
    then obtain h h' where h: "os_hash sv = Some h" "ho_update ops h buf = Some h'" by (auto simp: up_def split: Option.bind_splits)
    define m where "m = written (os_flash sv)"
    have m: "holds h m" "os_writtenBytes sv = of_nat (length m)" "length m \<le> max_image"
      using inv True h(1) by (auto simp: ota_inv_def m_def)
    have "unat (os_writtenBytes sv + of_nat (length buf)) = length m + length buf"
      using m(2,3) small by (simp add: unat_of_nat flip: of_nat_add)
    then have "length m + length buf \<le> max_image"
      using True by (simp add: kMaxFirmwareBytes_def not_less word_le_nat_alt)
    then show ?thesis
      using True h r f1 inv m holds_update [OF m(1) h(2)]
      by (auto simp: up_def Let_def ota_inv_def announced_mono m_def [symmetric])
  qed
qed

lemma end_inv:
  assumes inv: "ota_inv Q es sv"
  shows "ota_inv Q (es @ [UploadEnd]) (handleUpload ops fl UploadEnd sv)"
proof -
  define sv1 where "sv1 = sv\<lparr>os_hash := None\<rparr>"
  define dg where "dg = finishFirmwareHash ops (os_hash sv)"
  note fail = fail_inv [OF inv, of _ UploadEnd]
  obtain ok f1 where r: "run_state (fl_end fl) (os_flash sv) = (ok, f1)" by fastforce
  have f1: "bootable f1 = (if ok then Some (written (os_flash sv)) else bootable (os_flash sv))" using end_law [OF r] .
  show ?thesis
  proof (cases "os_accepted sv \<and> os_writtenBytes sv \<noteq> 0 \<and> secureEquals dg (os_expectedSha256 sv) \<and> ok")
    case False
    then show ?thesis
      using inv_mono [OF inv] f1 r by (auto simp: dg_def [symmetric] Let_def abort_same intro!: fail)
  next
    case True
    obtain remote token where st: "UploadStart remote (os_expectedSha256 sv) token \<in> set es"
        "requestAuthorized ops (os_config sv) remote (os_expectedSha256 sv) token"
      using inv True by (auto simp: ota_inv_def)
    have eq: "dg = os_expectedSha256 sv" using True by (simp add: secureEquals_iff)
    have "length (os_expectedSha256 sv) = 64" using st(2) by (simp add: requestAuthorized_def validSha256_def)
    then have "dg \<noteq> []" using eq by auto
    then obtain h d where h: "os_hash sv = Some h" "ho_finish ops h = Some d" "dg = hexDigest d"
      by (auto simp: dg_def finishFirmwareHash_def split: option.splits)
    define m where "m = written (os_flash sv)"
    have m: "holds h m" "os_writtenBytes sv = of_nat (length m)" "length m \<le> max_image"
      using inv True h(1) by (auto simp: ota_inv_def m_def)
    have "d = digest m" using holds_finish [OF m(1) h(2)] .
    moreover have "m \<noteq> []" using True m(2) by auto
    ultimately have "announced digest ops (os_config sv) (es @ [UploadEnd]) m"
      using m(3) st eq h(3) by (auto simp: announced_def)
    then show ?thesis
      using True r f1 inv st by (auto simp: dg_def Let_def ota_inv_def m_def)
  qed
qed

lemma upload_inv:
  assumes "ota_inv Q es sv" "chunk_small e"
  shows "ota_inv Q (es @ [e]) (handleUpload ops fl e sv)"
proof (cases e)
  case UploadAborted
  then show ?thesis
    using inv_mono [OF assms(1)] fail_inv [OF assms(1), of "flash_abort fl sv"]
    by (simp add: abort_same)
qed (use assms start_inv write_inv end_inv in \<open>auto simp: chunk_small_def\<close>)

lemma uploads_inv:
  assumes "ota_inv Q [] sv" "list_all chunk_small events"
  shows "ota_inv Q events (fold (handleUpload ops fl) events sv)"
  using assms(2) by (induction events rule: rev_induct) (use assms(1) upload_inv in auto)

lemma only_announced:
  assumes "bootable flash = None" "list_all chunk_small events"
    "bootable (os_flash (fold (handleUpload ops fl) events (new_ota config flash))) = Some m"
  shows "announced digest ops config events m"
proof -
  have "ota_inv (\<lambda>_. False) [] (new_ota config flash)" using assms(1) by (simp add: ota_inv_def new_ota_def)
  from uploads_inv [OF this assms(2)] assms(3) show ?thesis
    by (simp add: ota_inv_def configs_same new_ota_def)
qed

end

interpretation ota_sha: ota_update sha256_engine fips_sha256 "recording_flash fl" log_written log_bootable for fl :: "'f flash_ops"
  by unfold_locales

section \<open>A complete upload\<close>

text \<open>A hash engine and a flash writer that do not fail.\<close>

definition hash_ready :: "'h hash_ops \<Rightarrow> bool" where
  "hash_ready ops \<longleftrightarrow> (\<exists>h0. ho_starts ops = Some h0 \<and> (\<forall>cs. hash_feed ops h0 cs \<noteq> None)) \<and> (\<forall>h. ho_finish ops h \<noteq> None)"

definition flash_ready :: "'f flash_ops \<Rightarrow> bool" where
  "flash_ready fl \<longleftrightarrow> (\<forall>f. fst (run_state (fl_begin fl) f) \<and> fst (run_state (fl_end fl) f) \<and>
     (\<forall>buf. fst (run_state (fl_write fl buf) f) = length buf))"

lemma writes_progress:
  assumes "flash_ready fl" "os_accepted sv" "os_hash sv = Some h" "hash_feed ops h chunks = Some h'"
    "os_writtenBytes sv = of_nat k" "k + length (concat chunks) \<le> max_image" "list_all (\<lambda>c. c \<noteq> [] \<and> length c < 65536) chunks"
    "log_written (os_flash sv) = w"
  shows "\<exists>f'. fold (handleUpload ops (recording_flash fl)) (map UploadWrite chunks) sv =
      sv\<lparr>os_hash := Some h', os_writtenBytes := of_nat (k + length (concat chunks)), os_flash := f'\<rparr> \<and>
    log_written f' = w @ concat chunks"
  using assms
proof (induction chunks arbitrary: sv h k w)
  case Nil
  then show ?case by (intro exI [of _ "os_flash sv"]) simp
next
  case (Cons c cs)
  obtain h1 where h1: "ho_update ops h c = Some h1" "hash_feed ops h1 cs = Some h'" using Cons.prems(4) by (auto split: option.splits)
  obtain f1 where r: "run_state (fl_write (recording_flash fl) c) (os_flash sv) = (length c, f1)"
    using Cons.prems(1) by (fastforce simp: recording_flash_def flash_ready_def case_prod_beta Let_def)
  have w: "log_written f1 = w @ c" using frec.write_law [OF r] Cons.prems(8) by simp
  have "unat (os_writtenBytes sv + of_nat (length c)) = k + length c"
    using Cons.prems(5,6) by (simp add: unat_of_nat flip: of_nat_add)
  then have fits: "\<not> kMaxFirmwareBytes < os_writtenBytes sv + of_nat (length c)"
    using Cons.prems(6) by (simp add: kMaxFirmwareBytes_def word_less_nat_alt)
  define sv1 where "sv1 = sv\<lparr>os_flash := f1, os_hash := Some h1, os_writtenBytes := os_writtenBytes sv + of_nat (length c)\<rparr>"
  have step: "handleUpload ops (recording_flash fl) (UploadWrite c) sv = sv1"
    using Cons.prems(2,3,7) r h1(1) fits by (simp add: sv1_def Let_def)
  have "\<exists>f'. fold (handleUpload ops (recording_flash fl)) (map UploadWrite cs) sv1 =
      sv1\<lparr>os_hash := Some h', os_writtenBytes := of_nat (k + length c + length (concat cs)), os_flash := f'\<rparr> \<and>
    log_written f' = (w @ c) @ concat cs"
    using Cons.prems h1 w by (intro Cons.IH [where h = h1]) (simp_all add: sv1_def)
  then obtain f' where "fold (handleUpload ops (recording_flash fl)) (map UploadWrite cs) sv1 =
      sv1\<lparr>os_hash := Some h', os_writtenBytes := of_nat (k + length c + length (concat cs)), os_flash := f'\<rparr>"
    "log_written f' = (w @ c) @ concat cs" by blast
  then show ?case
    by (intro exI [of _ f']) (simp add: step sv1_def add.assoc del: handleUpload.simps)
qed

lemma hexDigest_valid: "length d = 32 \<Longrightarrow> validSha256 (hexDigest d)"
proof -
  have "list_all is_hex hex_digits" by (simp add: hex_digits_def is_hex_def)
  moreover assume "length d = 32"
  ultimately show ?thesis using hexDigest_chars [of d] unfolding validSha256_def list_all_iff by auto
qed

lemma sha256_engine_ready: "hash_ready sha256_engine"
proof -
  have "hash_feed sha256_engine new_sha256 cs \<noteq> None" for cs
    using sha_updates_holds [OF new_sha256_holds, of cs] by (auto simp: sha256_engine_feed)
  then show ?thesis by (simp add: hash_ready_def sha256_engine_def)
qed

text \<open>An authorised upload, in whatever state the service is.\<close>

lemma upload_completes:
  assumes "hash_engine ops digest" "hash_ready ops" "flash_ready fl"
    "requestAuthorized ops (os_config sv) remote sha token" "sha = hexDigest (digest (concat chunks))"
    "chunks \<noteq> []" "list_all (\<lambda>c. c \<noteq> [] \<and> length c < 65536) chunks" "length (concat chunks) \<le> 3 * 1024 * 1024"
  shows "let sv' = fold (handleUpload ops (recording_flash fl)) (UploadStart remote sha token # map UploadWrite chunks @ [UploadEnd]) sv
    in log_bootable (os_flash sv') = Some (concat chunks) \<and> os_completed sv'"
proof -
  from assms(2) obtain h0 h' d where h: "ho_starts ops = Some h0" "hash_feed ops h0 chunks = Some h'" "ho_finish ops h' = Some d"
    unfolding hash_ready_def by (metis not_Some_eq)
  have d: "d = digest (concat chunks)" using hash_engine.finish_digest [OF assms(1) h] .
  obtain f1 where r: "run_state (fl_begin (recording_flash fl)) (os_flash sv) = (True, f1)"
    using assms(3) by (fastforce simp: recording_flash_def flash_ready_def case_prod_beta Let_def)
  have w1: "log_written f1 = []" using frec.begin_law [OF r] by simp
  define sv1 where "sv1 = sv\<lparr>os_accepted := True, os_completed := False, os_failureReason := ''upload incomplete'', os_writtenBytes := 0,
    os_expectedSha256 := sha, os_flash := f1, os_hash := Some h0\<rparr>"
  have s1: "handleUpload ops (recording_flash fl) (UploadStart remote sha token) sv = sv1"
    using assms(4) r h(1) by (simp add: sv1_def Let_def)
  define n where "n = length (concat chunks)"
  obtain f2 where s2: "fold (handleUpload ops (recording_flash fl)) (map UploadWrite chunks) sv1 =
      sv1\<lparr>os_hash := Some h', os_writtenBytes := of_nat n, os_flash := f2\<rparr>" "log_written f2 = concat chunks"
    using writes_progress [OF assms(3), of sv1 h0 ops chunks h' 0 "[]"] h assms(7,8) w1
    by (auto simp: sv1_def n_def)
  obtain f3 where f3: "run_state (fl_end (recording_flash fl)) f2 = (True, f3)"
    using assms(3) by (fastforce simp: recording_flash_def flash_ready_def case_prod_beta Let_def)
  have "0 < n" using assms(6,7) by (cases chunks) (auto simp: n_def)
  then have nz: "(of_nat n :: u32) \<noteq> 0" using assms(8) by (simp add: word_of_nat_eq_0_iff n_def [symmetric]) (auto dest: dvd_imp_le)
  show ?thesis
    using s1 s2 f3 nz h(3) d assms(5) frec.end_law [OF f3]
    by (simp add: Let_def finishFirmwareHash_def secureEquals_iff sv1_def)
qed

section \<open>A bench\<close>

definition null_flash :: "unit flash_ops" where
  "null_flash = \<lparr>fl_begin = State (\<lambda>f. (True, f)), fl_write = (\<lambda>buf. State (\<lambda>f. (length buf, f))),
     fl_end = State (\<lambda>f. (True, f)), fl_abort = State (\<lambda>f. ((), f))\<rparr>"

definition bench_ota :: ota_config where
  "bench_ota = \<lparr>ota_port = 8080, ota_rockPiAddress = 0xC0A83201, ota_tokenHash = sha256Hex sha256_engine ''secret''\<rparr>"

lemma sha256Hex_engine: "sha256Hex sha256_engine t = hexDigest (fips_sha256 (map of_char t))"
  using sha_update_holds [OF new_sha256_holds, of "map of_char t"] sha_finish_fips
  by (auto simp: sha256Hex_def sha256_engine_def)

lemma bench_authorized: "requestAuthorized sha256_engine bench_ota 0xC0A83201 (hexDigest (fips_sha256 m)) ''secret''"
  by (simp add: requestAuthorized_def ota_sourceAllowed_def ota_enabled_def bench_ota_def secureEquals_iff sha256Hex_engine hexDigest_valid)

lemma null_flash_ready: "flash_ready null_flash"
  by (simp add: flash_ready_def null_flash_def)

end
