(* ===== verification/OtaService.thy ===== *)
theory OtaService
  imports EspOta
begin

text \<open>
  The update service around the upload handler of theory \<^verbatim>\<open>EspOta\<close>: the routes it registers, its loop with the
  delayed restart, and the change of its configuration (\<^verbatim>\<open>node-esp32-evb/src/EspOtaService.cpp\<close>). The Arduino
  web server, which parses requests and calls the registered handlers, is not part of the
  repository: a turn receives the list of handler calls it makes, in any number and order.
\<close>

section \<open>The service\<close>

definition kPath :: string where "kPath = ''/gridex/ota''"
definition kShaHeader :: string where "kShaHeader = ''X-GrideX-SHA256''"
definition kTokenHeader :: string where "kTokenHeader = ''X-GrideX-Token''"

record routes =
  rt_headers :: "string list"
  rt_post :: "string list"

definition configureRoutes :: routes where
  "configureRoutes = \<lparr>rt_headers = [kShaHeader, kTokenHeader], rt_post = [kPath]\<rparr>"

text \<open>The registered handlers: the upload handler and, with the clock it reads, the result handler of the
  route, and the fallback for requests outside of it.\<close>

datatype server_call = UploadCall upload_event | ResultCall u32 | NotFoundCall

fun ota_call :: "'h hash_ops \<Rightarrow> 'f flash_ops \<Rightarrow> server_call \<Rightarrow> ('h, 'f) ota \<Rightarrow> (nat \<times> string) list \<times> ('h, 'f) ota" where
  "ota_call ops fl (UploadCall e) sv = ([], handleUpload ops fl e sv)"
| "ota_call ops fl (ResultCall now) sv = map_prod (\<lambda>r. [r]) id (handleResult now sv)"
| "ota_call ops fl NotFoundCall sv = map_prod (\<lambda>r. [r]) id (ota_reject 404 ''not found'' sv)"

fun ota_handleClient :: "'h hash_ops \<Rightarrow> 'f flash_ops \<Rightarrow> server_call list \<Rightarrow> ('h, 'f) ota \<Rightarrow> (nat \<times> string) list \<times> ('h, 'f) ota" where
  "ota_handleClient ops fl [] sv = ([], sv)"
| "ota_handleClient ops fl (c # cs) sv = (case ota_call ops fl c sv of (r, sv1) \<Rightarrow>
     case ota_handleClient ops fl cs sv1 of (rs, sv2) \<Rightarrow> (r @ rs, sv2))"

text \<open>One turn: the replies, whether the turn ends in a restart of the board, and the service.\<close>

definition ota_loop :: "'h hash_ops \<Rightarrow> 'f flash_ops \<Rightarrow> server_call list \<Rightarrow> u32 \<Rightarrow> ('h, 'f) ota \<Rightarrow> ((nat \<times> string) list \<times> bool) \<times> ('h, 'f) ota" where
  "ota_loop ops fl calls now sv =
     (case (if os_started sv then ota_handleClient ops fl calls sv else ([], sv)) of (replies, sv1) \<Rightarrow>
       ((replies, ota_restart_due now sv1), sv1))"

definition ota_setConfig :: "ota_config \<Rightarrow> ('h, 'f) ota \<Rightarrow> bool \<times> ('h, 'f) ota" where
  "ota_setConfig config sv = (True, sv\<lparr>os_config := config\<rparr>)"

definition rejectedRequests :: "('h, 'f) ota \<Rightarrow> u32" where
  "rejectedRequests sv = os_rejectedRequests sv"

section \<open>Invariants\<close>

text \<open>The upload events a list of calls contains.\<close>

definition uploads_of :: "server_call list \<Rightarrow> upload_event list" where
  "uploads_of = concat \<circ> map (\<lambda>c. case c of UploadCall e \<Rightarrow> [e] | _ \<Rightarrow> [])"

lemma uploads_of_simps [simp]:
  "uploads_of [] = []" "uploads_of (UploadCall e # cs) = e # uploads_of cs" "uploads_of (ResultCall t # cs) = uploads_of cs"
  "uploads_of (NotFoundCall # cs) = uploads_of cs" "uploads_of (cs @ ds) = uploads_of cs @ uploads_of ds"
  by (simp_all add: uploads_of_def)

definition calls_small :: "server_call list \<Rightarrow> bool" where
  "calls_small cs = list_all chunk_small (uploads_of cs)"

lemma calls_small_simps [simp]:
  "calls_small []" "calls_small (UploadCall e # cs) \<longleftrightarrow> chunk_small e \<and> calls_small cs"
  "calls_small (ResultCall t # cs) \<longleftrightarrow> calls_small cs" "calls_small (NotFoundCall # cs) \<longleftrightarrow> calls_small cs"
  by (simp_all add: calls_small_def)

text \<open>The configuration never changes while the service runs.\<close>

lemma upload_flags:
  "os_restartPending (handleUpload ops fl e sv) = os_restartPending sv" "os_started (handleUpload ops fl e sv) = os_started sv"
  by (cases e; simp add: upload_rejected_def ota_fail_def flash_abort_def Let_def case_prod_beta split: option.split)+

lemma call_same: "os_config (snd (ota_call ops fl c sv)) = os_config sv" "os_started (snd (ota_call ops fl c sv)) = os_started sv"
  by (cases c; simp add: config_same upload_flags handleResult_def ota_reject_def)+

lemma ota_handleClient_same:
  "os_config (snd (ota_handleClient ops fl cs sv)) = os_config sv" "os_started (snd (ota_handleClient ops fl cs sv)) = os_started sv"
  by (induction cs arbitrary: sv) (simp_all add: case_prod_beta call_same)

lemma ota_loop_same:
  "os_config (snd (ota_loop ops fl calls now sv)) = os_config sv" "os_started (snd (ota_loop ops fl calls now sv)) = os_started sv"
  by (simp_all add: ota_loop_def ota_handleClient_same case_prod_beta)

context ota_update
begin

text \<open>A service that answers success or is about to restart has a bootable image.\<close>

definition service_inv :: "(u8 list \<Rightarrow> bool) \<Rightarrow> upload_event list \<Rightarrow> ('h, 'f) ota \<Rightarrow> bool" where
  "service_inv Q events sv \<longleftrightarrow> ota_inv Q events sv \<and> (os_completed sv \<or> os_restartPending sv \<longrightarrow> bootable (os_flash sv) \<noteq> None)"

lemma upload_bootable:
  "bootable (os_flash sv) \<noteq> None \<Longrightarrow> bootable (os_flash (handleUpload ops fl e sv)) \<noteq> None"
proof (cases e)
  case (UploadStart remote sha token)
  obtain b f1 where r: "run_state (fl_begin fl) (os_flash sv) = (b, f1)" by fastforce
  assume "bootable (os_flash sv) \<noteq> None"
  then show ?thesis using begin_law [OF r] by (simp add: UploadStart r Let_def upload_rejected_def ota_fail_def abort_same split: option.split)
next
  case (UploadWrite buf)
  obtain n f1 where r: "run_state (fl_write fl buf) (os_flash sv) = (n, f1)" by fastforce
  assume "bootable (os_flash sv) \<noteq> None"
  then show ?thesis using write_law [OF r] by (simp add: UploadWrite r Let_def upload_rejected_def ota_fail_def abort_same split: option.split)
next
  case UploadEnd
  obtain n f1 where r: "run_state (fl_end fl) (os_flash sv) = (n, f1)" by fastforce
  assume "bootable (os_flash sv) \<noteq> None"
  then show ?thesis using end_law [OF r] by (simp add: UploadEnd r Let_def upload_rejected_def ota_fail_def abort_same split: if_splits)
next
  case UploadAborted
  assume "bootable (os_flash sv) \<noteq> None"
  then show ?thesis by (simp add: UploadAborted upload_rejected_def ota_fail_def abort_same)
qed

lemma upload_completed:
  assumes "os_completed (handleUpload ops fl e sv)"
  shows "os_completed sv \<or> bootable (os_flash (handleUpload ops fl e sv)) \<noteq> None"
proof (cases e)
  case UploadEnd
  obtain n f1 where r: "run_state (fl_end fl) (os_flash sv) = (n, f1)" by fastforce
  then show ?thesis using assms end_law [OF r]
    by (auto simp: UploadEnd Let_def upload_rejected_def ota_fail_def flash_abort_def split: if_splits)
qed (use assms in \<open>auto simp: upload_rejected_def ota_fail_def flash_abort_def Let_def case_prod_beta split: if_splits option.splits\<close>)

lemma call_inv:
  assumes "service_inv Q es sv" "calls_small [c]"
  shows "service_inv Q (es @ uploads_of [c]) (snd (ota_call ops fl c sv))"
proof (cases c)
  case (UploadCall e)
  then show ?thesis
    using assms upload_inv [of Q es sv e] upload_bootable [of sv e] upload_completed [of e sv] upload_flags(1) [of ops fl e sv]
    by (auto simp: service_inv_def)
qed (use assms in \<open>auto simp: service_inv_def ota_inv_def handleResult_def ota_reject_def\<close>)

lemma ota_handleClient_inv:
  "service_inv Q es sv \<Longrightarrow> calls_small cs \<Longrightarrow> service_inv Q (es @ uploads_of cs) (snd (ota_handleClient ops fl cs sv))"
proof (induction cs arbitrary: es sv)
  case (Cons c cs)
  have s: "calls_small [c]" "calls_small cs" using Cons.prems(2) by (simp_all add: calls_small_def uploads_of_def)
  have "uploads_of (c # cs) = uploads_of [c] @ uploads_of cs" by (simp add: uploads_of_def)
  then show ?case using Cons.IH [OF call_inv [OF Cons.prems(1) s(1)] s(2)] by (simp add: case_prod_beta)
qed simp

lemma loop_inv:
  assumes "service_inv Q es sv" "calls_small calls"
  shows "service_inv Q (es @ (if os_started sv then uploads_of calls else [])) (snd (ota_loop ops fl calls now sv))"
  using ota_handleClient_inv [OF assms] assms(1) by (simp_all add: ota_loop_def case_prod_beta)

lemma restart_has_image:
  assumes "service_inv Q es sv" "calls_small calls" "snd (fst (ota_loop ops fl calls now sv))"
  shows "\<exists>m. bootable (os_flash (snd (ota_loop ops fl calls now sv))) = Some m"
  using loop_inv [OF assms(1,2), of now] assms(3) by (auto simp: service_inv_def ota_loop_def ota_restart_due_def case_prod_beta)

end

text \<open>A service that is not provisioned does nothing at all.\<close>

lemma disabled_service_idle: "\<not> os_started sv \<Longrightarrow> \<not> os_restartPending sv \<Longrightarrow> ota_loop ops fl calls now sv = (([], False), sv)"
  by (simp add: ota_loop_def ota_restart_due_def)

section \<open>A complete update\<close>

lemma ota_handleClient_uploads:
  "ota_handleClient ops fl (map UploadCall es @ cs) sv = ota_handleClient ops fl cs (fold (handleUpload ops fl) es sv)"
  by (induction es arbitrary: sv) (simp_all add: case_prod_beta del: handleUpload.simps)

text \<open>The calls of one upload request.\<close>

definition upload_request :: "u32 \<Rightarrow> string \<Rightarrow> string \<Rightarrow> u8 list list \<Rightarrow> u32 \<Rightarrow> server_call list" where
  "upload_request remote sha token chunks now =
     map UploadCall (UploadStart remote sha token # map UploadWrite chunks @ [UploadEnd]) @ [ResultCall now]"

lemma update_completes:
  assumes "hash_engine ops digest" "hash_ready ops" "flash_ready fl" "os_started sv"
    "requestAuthorized ops (os_config sv) remote sha token" "sha = hexDigest (digest (concat chunks))"
    "chunks \<noteq> []" "list_all (\<lambda>c. c \<noteq> [] \<and> length c < 65536) chunks" "length (concat chunks) \<le> 3 * 1024 * 1024"
    "ota_loop ops (recording_flash fl) (upload_request remote sha token chunks done) now sv = ((replies, restart), sv')"
  shows "log_bootable (os_flash sv') = Some (concat chunks)" "replies = [(200, ''OTA accepted; restarting'')]"
    "os_restartPending sv'" "os_restartAtMs sv' = done + 250" "restart = (0 \<le> sint (now - (done + 250)))"
  using upload_completes [OF assms(1-3,5-9)] assms(4,10)
  by (auto simp: ota_loop_def upload_request_def ota_handleClient_uploads handleResult_def ota_restart_due_def Let_def
      simp del: handleUpload.simps fold.simps list.map(2))

end
