(* ===== verification/NodeMain.thy ===== *)
theory NodeMain
  imports NodeFirmware CloudTelemetry OtaService
begin

text \<open>
  The node's whole program (\<^verbatim>\<open>node-esp32-evb/src/main.cpp\<close>): \<^verbatim>\<open>setup\<close> and \<^verbatim>\<open>loop\<close> over the control core of theory
  \<^verbatim>\<open>NodeFirmware\<close>, the telemetry uplink of theory \<^verbatim>\<open>CloudTelemetry\<close> and the update service of theory
  \<^verbatim>\<open>OtaService\<close>, in the order of the code, with Ethernet events arriving between any two statements. The
  libraries of the board are the fields of \<open>platform\<close>; what they return during a turn is in \<open>board_env\<close>.
\<close>

section \<open>Peripherals\<close>

definition CanTx :: int where "CanTx = 5"
definition CanRx :: int where "CanRx = 35"
definition Rs485Tx :: int where "Rs485Tx = 4"
definition Rs485Rx :: int where "Rs485Rx = 36"

text \<open>The device bus is chosen by the build; RS-485 comes with the pin of its direction line.\<close>

datatype device_bus = BusCan | BusRs485 int | BusNone

datatype bus_call =
    TwaiInstall int int nat
  | TwaiStart
  | PinModeOutput int
  | DigitalWriteLow int
  | Serial1Begin nat int int

text \<open>\<open>install\<close> and \<open>start\<close> are the results of the two calls into the CAN driver.\<close>

fun initializeDeviceBus :: "device_bus \<Rightarrow> bool \<Rightarrow> bool \<Rightarrow> bool \<times> bus_call list" where
  "initializeDeviceBus BusCan install start =
     (install \<and> start, TwaiInstall CanTx CanRx 250000 # (if install then [TwaiStart] else []))"
| "initializeDeviceBus (BusRs485 directionPin) install start =
     (True, [PinModeOutput directionPin, DigitalWriteLow directionPin, Serial1Begin 9600 Rs485Rx Rs485Tx])"
| "initializeDeviceBus BusNone install start = (False, [])"

datatype esp_err = ESP_OK | ESP_ERR_INVALID_STATE | ESP_ERR_INVALID_ARG | ESP_ERR_OTHER

record wdt_config =
  wd_timeout_ms :: nat
  wd_idle_core_mask :: nat
  wd_trigger_panic :: bool

text \<open>The initialisation request in the form of either framework version.\<close>

datatype wdt_init = WdtConfig wdt_config | WdtSeconds nat bool

definition wdt_request :: "nat \<Rightarrow> wdt_init" where
  "wdt_request idfMajor = (if 5 \<le> idfMajor
     then WdtConfig \<lparr>wd_timeout_ms = 8000, wd_idle_core_mask = 0, wd_trigger_panic = True\<rparr> else WdtSeconds 8 True)"

definition initializeWatchdog :: "(wdt_init \<Rightarrow> esp_err) \<Rightarrow> nat \<Rightarrow> esp_err \<Rightarrow> bool" where
  "initializeWatchdog wdtInit idfMajor subscribed =
     (let initialized = wdtInit (wdt_request idfMajor)
      in if initialized \<noteq> ESP_OK \<and> initialized \<noteq> ESP_ERR_INVALID_STATE then False
         else subscribed = ESP_OK \<or> subscribed = ESP_ERR_INVALID_ARG)"

section \<open>Stored configuration\<close>

text \<open>The parts of the store only \<^verbatim>\<open>setup\<close> reads.\<close>

record board_store =
  bs_ota_port :: u16
  bs_mqtt_host :: string
  bs_mqtt_port :: u16
  bs_realm :: string
  bs_mqtt_user :: string
  bs_mqtt_secret :: string
  bs_client_id :: string
  bs_asset_id :: string
  bs_ca_cert :: string

definition loadCloudConfig :: "board_store \<Rightarrow> cloud_config" where
  "loadCloudConfig st = \<lparr>cc_enabled = False, cc_host = bs_mqtt_host st, cc_port = bs_mqtt_port st, cc_realm = bs_realm st,
     cc_serviceUser = bs_mqtt_user st, cc_serviceSecret = bs_mqtt_secret st, cc_clientId = bs_client_id st,
     cc_assetId = bs_asset_id st, cc_caCertificate = bs_ca_cert st\<rparr>"

definition loadOtaConfig :: "(string \<Rightarrow> u32 option) \<Rightarrow> board_store \<Rightarrow> nvs \<Rightarrow> ota_config" where
  "loadOtaConfig parse st nv = \<lparr>ota_port = bs_ota_port st,
     ota_rockPiAddress = (case parse (nv_rockpi_ip nv) of None \<Rightarrow> 0 | Some a \<Rightarrow> a), ota_tokenHash = nv_ota_token_hash nv\<rparr>"

section \<open>The program\<close>

record ('d, 'm, 'h, 'f) platform =
  pl_driver :: "'d driver_ops"
  pl_mqtt :: "'m mqtt_ops"
  pl_hash :: "'h hash_ops"
  pl_flash :: "'f flash_ops"
  pl_oneDecimal :: "dbl \<Rightarrow> string"
  pl_fromString :: "string \<Rightarrow> u32 option"
  pl_trim :: "string \<Rightarrow> string"
  pl_uid :: u64
  pl_bus :: device_bus
  pl_idfMajor :: nat
  pl_wdtInit :: "wdt_init \<Rightarrow> esp_err"

record ('d, 'h, 'f) board =
  bd_fw :: "'d firmware"
  bd_cloud :: cloud
  bd_ota :: "('h, 'f) ota"
  bd_store :: board_store
  bd_lastCloudPublishMs :: u32
  bd_watchdogResets :: nat

text \<open>One turn of the environment. The fields of \<open>loop_env\<close> that other components compute are replaced in \<open>turn_env\<close>.\<close>

record board_env =
  be_loop :: loop_env
  be_events :: "nat \<Rightarrow> eth_event list"
  be_twaiInstall :: bool
  be_twaiStart :: bool
  be_link :: "bool \<times> bool"
  be_millisCloud :: u32
  be_millisCloudAfter :: u32
  be_calls :: "server_call list"
  be_millisOta :: u32
  be_millisPublish :: u32
  be_millisPublishStart :: u32

definition turn_env :: "('d, 'm, 'h, 'f) platform \<Rightarrow> board_env \<Rightarrow> loop_env" where
  "turn_env pl env = (be_loop env)\<lparr>
     le_console := (le_console (be_loop env))\<lparr>ce_fromString := pl_fromString pl, ce_sha256Hex := sha256Hex (pl_hash pl), ce_trim := pl_trim pl\<rparr>,
     le_busOk := fst (initializeDeviceBus (pl_bus pl) (be_twaiInstall env) (be_twaiStart env))\<rparr>"

definition arrive :: "board_env \<Rightarrow> nat \<Rightarrow> 'd firmware \<Rightarrow> 'd firmware" where
  "arrive env k fw = fold onEvent (be_events env k) fw"

definition poll_due :: "loop_env \<Rightarrow> 'd firmware \<Rightarrow> bool" where
  "poll_due env fw \<longleftrightarrow> 500 \<le> le_millisPoll env - fw_lastPollMs fw"

text \<open>The statements before the update service; a restart typed at the console ends the turn.\<close>

definition loop_console :: "('d, 'm, 'h, 'f) platform \<Rightarrow> board_env \<Rightarrow> 'd firmware \<Rightarrow> 'd firmware" where
  "loop_console pl env fw = processProvisioningSerial (le_console (turn_env pl env)) (le_serial (be_loop env)) (arrive env 0 fw)"

definition loop_command :: "('d, 'm, 'h, 'f) platform \<Rightarrow> board_env \<Rightarrow> 'd firmware \<Rightarrow> 'd firmware" where
  "loop_command pl env fw =
     superviseDeviceBus (pl_driver pl) (le_busOk (turn_env pl env)) (le_millisBus (be_loop env)) (arrive env 4
       (persistNodeConfig (arrive env 3 (applyCommand (pl_driver pl) (le_millisCommand (be_loop env)) (arrive env 2 fw)))))"

text \<open>The statements behind the update service: the 500 ms poll, the 2 s publication and the watchdog.\<close>

definition loop_publish :: "('d, 'm, 'h, 'f) platform \<Rightarrow> board_env \<Rightarrow> ('d, 'h, 'f) board \<times> 'm \<Rightarrow> ('d, 'h, 'f) board \<times> 'm" where
  "loop_publish pl env s = (case s of (b, m) \<Rightarrow>
     let fw = arrive env 5 (bd_fw b);
         (connected, m1) = (if poll_due (be_loop env) fw then run_state (cloud_connected (pl_mqtt pl) (bd_cloud b)) m else (False, m));
         fw1 = arrive env 6 (poll_turn (pl_driver pl) ((turn_env pl env)\<lparr>le_cloudConnected := connected\<rparr>) fw);
         (stamp, m2) = run_state (cloud_publish_turn (pl_mqtt pl) (pl_oneDecimal pl) (be_millisPublish env) (be_millisPublishStart env)
           fw1 (bd_cloud b) (bd_lastCloudPublishMs b)) m1
     in (b\<lparr>bd_fw := fw1, bd_lastCloudPublishMs := stamp,
           bd_watchdogResets := bd_watchdogResets b + (if fw_watchdogReady fw1 then 1 else 0)\<rparr>, m2))"

definition board_loop :: "('d, 'm, 'h, 'f) platform \<Rightarrow> board_env \<Rightarrow> ('d, 'h, 'f) board \<times> 'm \<Rightarrow> ('d, 'h, 'f) board \<times> 'm" where
  "board_loop pl env s = (case s of (b, m) \<Rightarrow>
     let fw1 = loop_console pl env (bd_fw b) in
     if fw_rebooting fw1 then (b\<lparr>bd_fw := fw1\<rparr>, m)
     else let (cloud1, m1) = run_state (cloud_loop (pl_mqtt pl) (be_link env) (be_millisCloud env) (be_millisCloudAfter env) (bd_cloud b)) m;
              fw2 = control_turn (turn_env pl env) (arrive env 1 fw1);
              ((replies, restart), ota1) = ota_loop (pl_hash pl) (pl_flash pl) (be_calls env) (be_millisOta env) (bd_ota b);
              b1 = b\<lparr>bd_cloud := cloud1, bd_ota := ota1\<rparr>
          in if restart then (b1\<lparr>bd_fw := fw2\<lparr>fw_rebooting := True\<rparr>\<rparr>, m1)
             else loop_publish pl env (b1\<lparr>bd_fw := loop_command pl env fw2\<rparr>, m1))"

text \<open>Start-up, from the store and the flash as the last run left them.\<close>

record board_setup_env =
  su_setup :: setup_env
  su_twaiInstall :: bool
  su_twaiStart :: bool
  su_wdtAdd :: esp_err

definition board_setup :: "('d, 'm, 'h, 'f) platform \<Rightarrow> board_setup_env \<Rightarrow> board_store \<Rightarrow> nvs \<Rightarrow> 'f \<Rightarrow> ('d, 'h, 'f) board" where
  "board_setup pl senv st nv flash =
     (let env = (su_setup senv)\<lparr>se_fromString := pl_fromString pl,
            se_busOk := fst (initializeDeviceBus (pl_bus pl) (su_twaiInstall senv) (su_twaiStart senv)),
            se_watchdogOk := initializeWatchdog (pl_wdtInit pl) (pl_idfMajor pl) (su_wdtAdd senv)\<rparr>
      in \<lparr>bd_fw = firmware_setup (pl_driver pl) (pl_uid pl) env nv,
          bd_cloud = snd (cloud_begin (new_cloud (loadCloudConfig st))),
          bd_ota = ota_begin (new_ota (loadOtaConfig (pl_fromString pl) st nv) flash),
          bd_store = st, bd_lastCloudPublishMs = 0, bd_watchdogResets = 0\<rparr>)"

text \<open>
  The runs of the board with the upload events its update service received, each with the
  configuration in force. A turn is taken unless the board is restarting; a restart, asked for or
  not, can come at any time.
\<close>

definition turn_uploads :: "('d, 'm, 'h, 'f) platform \<Rightarrow> board_env \<Rightarrow> ('d, 'h, 'f) board \<Rightarrow> (ota_config \<times> upload_event) list" where
  "turn_uploads pl env b = (if fw_rebooting (loop_console pl env (bd_fw b)) \<or> \<not> os_started (bd_ota b) then []
     else map (Pair (os_config (bd_ota b))) (uploads_of (be_calls env)))"

inductive board_run :: "('d, 'm, 'h, 'f) platform \<Rightarrow> ('d, 'h, 'f) board \<times> 'm \<Rightarrow> (ota_config \<times> upload_event) list \<Rightarrow> ('d, 'h, 'f) board \<times> 'm \<Rightarrow> bool"
  for pl s where
  start: "board_run pl s [] s"
| turn: "board_run pl s l (b, m) \<Longrightarrow> \<not> fw_rebooting (bd_fw b) \<Longrightarrow> calls_small (be_calls env) \<Longrightarrow>
    board_run pl s (l @ turn_uploads pl env b) (board_loop pl env (b, m))"
| event: "board_run pl s l (b, m) \<Longrightarrow> board_run pl s l (b\<lparr>bd_fw := onEvent e (bd_fw b)\<rparr>, m)"
| reboot: "board_run pl s l (b, m) \<Longrightarrow>
    board_run pl s l (board_setup pl senv (bd_store b) (fw_nvs (bd_fw b)) (os_flash (bd_ota b)), m)"

section \<open>The status line\<close>

fun hex_upper :: "nat \<Rightarrow> string" where
  "hex_upper n = (if n < 16 then [''0123456789ABCDEF'' ! n] else hex_upper (n div 16) @ [''0123456789ABCDEF'' ! (n mod 16)])"

declare hex_upper.simps [simp del]

text \<open>\<open>ip\<close> is the text of the board's own address.\<close>

definition printProvisioningStatus :: "string \<Rightarrow> 'd firmware \<Rightarrow> string" where
  "printProvisioningStatus ip fw =
     (let config = nd_config (fw_node fw); rockPi = nv_rockpi_ip (fw_nvs fw); otaEnabled = (length (nv_ota_token_hash (fw_nvs fw)) = 64)
      in ''GrideX node: uid='' @ hex_upper (unat (cf_uid config)) @ '' address='' @ show_nat (unat (cf_address config)) @
         '' type='' @ show_nat (unat (cf_type config)) @ '' driver='' @ show_nat (unat (cf_driverId config)) @
         '' ip='' @ ip @ '' eth='' @ (if fw_ethernetUp fw then ''up'' else ''down'') @
         '' modbus='' @ (if eth_listening (fw_control fw) then ''listening'' else ''down'') @
         '' bus='' @ (if fw_deviceBusReady fw then ''ready'' else ''not-ready'') @
         '' watchdog='' @ (if fw_watchdogReady fw then ''enabled'' else ''disabled'') @ '' rockpi='' @ c_str rockPi @
         '' ota='' @ (if otaEnabled then ''enabled'' else ''disabled'') @ '' driver='' @ (if fw_driverReady fw then ''ready'' else ''locked'') @
         [CHR 0x0A])"

text \<open>The status line says whether a secret is set, and nothing else about it.\<close>

lemma status_hides_secret:
  "length h = length (nv_ota_token_hash (fw_nvs fw)) \<Longrightarrow>
   printProvisioningStatus ip (fw\<lparr>fw_nvs := (fw_nvs fw)\<lparr>nv_ota_token_hash := h\<rparr>\<rparr>) = printProvisioningStatus ip fw"
  by (simp add: printProvisioningStatus_def)

section \<open>The control core\<close>

lemma arrive_inv: "fw_ok uid (arrive env k fw) = fw_ok uid fw" "fw_readonly (arrive env k fw) = fw_readonly fw"
  by (simp_all add: arrive_def events_inv)

definition core_ok :: "u64 \<Rightarrow> 'd firmware \<Rightarrow> bool" where
  "core_ok uid fw \<longleftrightarrow> fw_ok uid fw \<and> fw_readonly fw"

lemma core_phases:
  assumes "core_ok uid fw"
  shows "core_ok uid (arrive env k fw)" "core_ok uid (loop_console pl env fw)" "core_ok uid (control_turn lenv fw)"
    "core_ok uid (loop_command pl env fw)" "core_ok uid (poll_turn ops lenv fw)" "core_ok uid (fw\<lparr>fw_rebooting := r\<rparr>)" "core_ok uid (onEvent e fw)"
proof -
  have ok: "fw_ok uid fw" and ro: "fw_readonly fw" using assms by (simp_all add: core_ok_def)
  show "core_ok uid (loop_console pl env fw)"
    using console_chars_inv [of uid "arrive env 0 fw"] ok ro by (simp add: core_ok_def loop_console_def processProvisioningSerial_def arrive_inv)
  define fw1 where "fw1 = arrive env 3 (applyCommand (pl_driver pl) (le_millisCommand (be_loop env)) (arrive env 2 fw))"
  have "core_ok uid fw1" using ok ro by (simp add: fw1_def core_ok_def arrive_inv applyCommand_inv)
  moreover from this have "persistNodeConfig fw1 = fw1" unfolding core_ok_def using persist_inv by blast
  ultimately show "core_ok uid (loop_command pl env fw)"
    unfolding loop_command_def fw1_def [symmetric] by (simp add: core_ok_def arrive_inv superviseDeviceBus_inv)
  show "core_ok uid (control_turn lenv fw)" using control_turn_inv [OF ok] ro by (simp add: core_ok_def)
  show "core_ok uid (fw\<lparr>fw_rebooting := r\<rparr>)" using ok ro by (simp add: core_ok_def fw_readonly_def)
qed (use assms in \<open>simp_all add: core_ok_def arrive_inv poll_turn_inv onEvent_inv\<close>)

lemma setup_core: "nv_node_address nv \<le> 247 \<Longrightarrow> core_ok uid (firmware_setup ops uid env nv)"
  by (simp add: core_ok_def setup_inv)

section \<open>The inactive uplink\<close>

lemma inactive_uplink:
  assumes "\<not> cl_active cl"
  shows "run_state (cloud_loop mq link t t' cl) m = (cl, m)" "run_state (cloud_connected mq cl) m = (False, m)"
    "snd (run_state (cloud_publish_turn mq dec t t' fw cl stamp) m) = m"
  using assms by (simp_all add: cloud_loop_def cloud_connected_def cloud_publish_turn_def cloud_publish_def)

lemma legacy_store_inactive: "\<not> cl_active (snd (cloud_begin (new_cloud (loadCloudConfig st))))"
  by (simp add: cloud_begin_def loadCloudConfig_def new_cloud_def)

section \<open>The platform's part of a turn\<close>

lemma turn_env_fields:
  "le_serial (turn_env pl env) = le_serial (be_loop env)" "le_millisCommand (turn_env pl env) = le_millisCommand (be_loop env)"
  "le_millisBus (turn_env pl env) = le_millisBus (be_loop env)"
  by (simp_all add: turn_env_def)

lemma turn_env_control: "control_turn (lenv\<lparr>le_cloudConnected := c\<rparr>) fw = control_turn lenv fw"
  by (simp add: control_turn_def)

section \<open>Turns of the board\<close>

definition board_ok :: "u64 \<Rightarrow> ('d, 'h, 'f) board \<Rightarrow> bool" where
  "board_ok uid b \<longleftrightarrow> core_ok uid (bd_fw b) \<and> \<not> cl_active (bd_cloud b)"

text \<open>What a turn does to each part, for a board whose uplink is inactive.\<close>

lemma board_loop_parts:
  assumes "board_ok uid b" "board_loop pl env (b, m) = (b', m')"
  shows "m' = m" "bd_cloud b' = bd_cloud b" "bd_store b' = bd_store b"
    "bd_ota b' = (if fw_rebooting (loop_console pl env (bd_fw b)) then bd_ota b
       else snd (ota_loop (pl_hash pl) (pl_flash pl) (be_calls env) (be_millisOta env) (bd_ota b)))"
    "board_ok uid b'"
proof -
  have cl: "\<not> cl_active (bd_cloud b)" and ok: "core_ok uid (bd_fw b)" using assms(1) by (simp_all add: board_ok_def)
  note parts = assms(2) [unfolded board_loop_def loop_publish_def]
  show "m' = m" "bd_cloud b' = bd_cloud b" "bd_store b' = bd_store b"
    "bd_ota b' = (if fw_rebooting (loop_console pl env (bd_fw b)) then bd_ota b
       else snd (ota_loop (pl_hash pl) (pl_flash pl) (be_calls env) (be_millisOta env) (bd_ota b)))"
    using parts by (auto simp: inactive_uplink [OF cl] Let_def case_prod_beta split: if_splits)
  have "core_ok uid (bd_fw b')"
    using parts ok by (auto simp: inactive_uplink [OF cl] Let_def case_prod_beta core_phases split: if_splits)
  with cl \<open>bd_cloud b' = bd_cloud b\<close> show "board_ok uid b'" by (simp add: board_ok_def)
qed

lemma setup_ok: "nv_node_address nv \<le> 247 \<Longrightarrow> board_ok (pl_uid pl) (board_setup pl senv st nv flash)"
  by (simp add: board_setup_def board_ok_def setup_core legacy_store_inactive Let_def)

lemma board_run_ok:
  assumes "board_run pl (board_setup pl senv st nv flash, m) l s'" "nv_node_address nv \<le> 247"
  shows "board_ok (pl_uid pl) (fst s') \<and> snd s' = m"
  using assms(1)
proof (induction rule: board_run.induct)
  case start
  then show ?case using setup_ok [OF assms(2)] by simp
next
  case (turn l b m1 env)
  then have "board_ok (pl_uid pl) b" "m1 = m" by simp_all
  then show ?case using board_loop_parts(1,5) [OF \<open>board_ok (pl_uid pl) b\<close>, of pl env m1] by (metis prod.collapse)
next
  case (event l b m e)
  then show ?case by (simp add: board_ok_def core_phases)
next
  case (reboot l b m1 senv)
  then have "nv_node_address (fw_nvs (bd_fw b)) \<le> 247" by (simp add: board_ok_def core_ok_def fw_ok_def)
  then show ?case using reboot setup_ok by simp
qed

section \<open>The source address\<close>

text \<open>The address the control server accepts is the one the store holds.\<close>

definition stored_source :: "(string \<Rightarrow> u32 option) \<Rightarrow> nvs \<Rightarrow> u32" where
  "stored_source parse nv = (case parse (nv_rockpi_ip nv) of None \<Rightarrow> 0 | Some a \<Rightarrow> a)"

definition control_source :: "'d firmware \<Rightarrow> u32" where
  "control_source fw = ec_rockPiAddress (es_config (fw_control fw))"

definition source_stored :: "(string \<Rightarrow> u32 option) \<Rightarrow> 'd firmware \<Rightarrow> bool" where
  "source_stored parse fw \<longleftrightarrow> control_source fw = stored_source parse (fw_nvs fw)"

lemma source_fields:
  assumes "es_config (fw_control fw') = es_config (fw_control fw)" "nv_rockpi_ip (fw_nvs fw') = nv_rockpi_ip (fw_nvs fw)"
  shows "source_stored parse fw' = source_stored parse fw"
  using assms by (simp add: source_stored_def stored_source_def control_source_def)

lemma persist_source [simp]:
  "fw_control (persistNodeConfig fw) = fw_control fw" "nv_rockpi_ip (fw_nvs (persistNodeConfig fw)) = nv_rockpi_ip (fw_nvs fw)"
  by (simp_all add: persistNodeConfig_def case_prod_beta)

lemma provision_source: "source_stored parse (provisionNode args fw) = source_stored parse fw"
  by (rule source_fields) (simp_all add: provisionNode_def Let_def split: option.split prod.split)

lemma line_source: "source_stored (ce_fromString ce) fw \<Longrightarrow> source_stored (ce_fromString ce) (processProvisioningLine ce l fw)"
  using provision_source [of "ce_fromString ce" "drop 5 (ce_trim ce l)" fw]
  by (simp add: processProvisioningLine_def Let_def source_stored_def stored_source_def control_source_def setRockPiAddress_def split: option.split)

lemma console_source: "source_stored (ce_fromString ce) fw \<Longrightarrow> source_stored (ce_fromString ce) (console_chars ce cs fw)"
proof (induction cs arbitrary: fw)
  case (Cons c cs)
  obtain l b where p: "push (fw_line fw) c = (l, b)" by fastforce
  have "source_stored (ce_fromString ce) (fw\<lparr>fw_line := b\<rparr>)" using Cons.prems by (simp add: source_stored_def control_source_def)
  then show ?case using Cons by (cases l) (simp_all add: p Let_def line_source)
qed simp

lemma events_source [simp]: "fw_control (fold onEvent es fw) = fw_control fw" "fw_nvs (fold onEvent es fw) = fw_nvs fw"
proof -
  have "fw_control (onEvent e fw) = fw_control fw" "fw_nvs (onEvent e fw) = fw_nvs fw" for e and fw :: "'a firmware" by (cases e; simp)+
  then show "fw_control (fold onEvent es fw) = fw_control fw" "fw_nvs (fold onEvent es fw) = fw_nvs fw"
    by (induction es arbitrary: fw) simp_all
qed

lemma arrive_source [simp]: "fw_control (arrive env k fw) = fw_control fw" "fw_nvs (arrive env k fw) = fw_nvs fw"
  by (simp_all add: arrive_def)

lemma command_source [simp]:
  "fw_control (applyCommand ops now fw) = fw_control fw" "fw_nvs (applyCommand ops now fw) = fw_nvs fw"
  "fw_control (superviseDeviceBus ops ok now fw) = fw_control fw" "fw_nvs (superviseDeviceBus ops ok now fw) = fw_nvs fw"
  "fw_control (poll_turn ops lenv fw) = fw_control fw" "fw_nvs (poll_turn ops lenv fw) = fw_nvs fw"
  by (simp_all add: applyCommand_def accept_command_def expire_command_def superviseDeviceBus_def poll_turn_def publishHealthRegisters_def
      publishDriverSample_def Let_def case_prod_beta)

lemma control_source_same [simp]:
  "es_config (fw_control (control_turn lenv fw)) = es_config (fw_control fw)" "fw_nvs (control_turn lenv fw) = fw_nvs fw"
  by (simp_all add: control_turn_def eth_loop_def eth_restart_def Let_def case_prod_beta)

lemma loop_source:
  assumes "source_stored (pl_fromString pl) (bd_fw b)"
  shows "source_stored (pl_fromString pl) (bd_fw (fst (board_loop pl env (b, m))))"
proof -
  let ?fw1 = "loop_console pl env (bd_fw b)"
  have "source_stored (pl_fromString pl) (arrive env 0 (bd_fw b))" using assms by (simp cong: source_fields)
  then have console: "source_stored (pl_fromString pl) ?fw1"
    using console_source [of "le_console (turn_env pl env)" "arrive env 0 (bd_fw b)"]
    by (simp add: loop_console_def processProvisioningSerial_def turn_env_def)
  have "es_config (fw_control (bd_fw (fst (board_loop pl env (b, m))))) = es_config (fw_control ?fw1)"
    "nv_rockpi_ip (fw_nvs (bd_fw (fst (board_loop pl env (b, m))))) = nv_rockpi_ip (fw_nvs ?fw1)"
    by (simp_all add: board_loop_def loop_publish_def loop_command_def Let_def case_prod_beta)
  with console show ?thesis using source_fields by blast
qed

lemma setup_source: "source_stored (pl_fromString pl) (bd_fw (board_setup pl senv st nv flash))"
  by (simp add: board_setup_def firmware_setup_def publishHealthRegisters_def globals_def loadControlConfig_def new_eth_server_def
      eth_restart_def source_stored_def control_source_def stored_source_def Let_def case_prod_beta)

lemma loop_ota_config: "os_config (bd_ota (fst (board_loop pl env (b, m)))) = os_config (bd_ota b)"
  by (simp add: board_loop_def loop_publish_def ota_loop_same Let_def case_prod_beta)

lemma turns_sources:
  assumes "source_stored (pl_fromString pl) (bd_fw (fst s))"
  shows "source_stored (pl_fromString pl) (bd_fw (fst (fold (board_loop pl) envs s)))"
    "os_config (bd_ota (fst (fold (board_loop pl) envs s))) = os_config (bd_ota (fst s))"
  using assms
proof (induction envs arbitrary: s)
  case (Cons env envs)
  { case 1 then show ?case using Cons loop_source [of pl "fst s" env "snd s"] by simp
  next
    case 2 then show ?case using Cons loop_source [of pl "fst s" env "snd s"] loop_ota_config [of pl env "fst s" "snd s"] by simp
  }
qed simp_all

section \<open>The update secret\<close>

text \<open>Only lines of at most 80 characters leave the serial buffer, so a secret typed at the console has at most 72.\<close>

definition key_ok :: "'h hash_ops \<Rightarrow> string \<Rightarrow> 'd firmware \<Rightarrow> bool" where
  "key_ok ops first fw \<longleftrightarrow> length (lb_chars (fw_line fw)) \<le> line_capacity \<and>
     (nv_ota_token_hash (fw_nvs fw) \<in> {first, []} \<or>
      (\<exists>token. 32 \<le> length token \<and> length token \<le> 72 \<and> nv_ota_token_hash (fw_nvs fw) = sha256Hex ops token))"

lemma key_fields:
  assumes "fw_line fw' = fw_line fw" "nv_ota_token_hash (fw_nvs fw') = nv_ota_token_hash (fw_nvs fw)"
  shows "key_ok ops first fw' = key_ok ops first fw"
  using assms by (simp add: key_ok_def)

lemma line_same [simp]:
  "fw_line (set_reg a v fw) = fw_line fw" "fw_line (persistNodeConfig fw) = fw_line fw" "fw_line (onEvent e fw) = fw_line fw"
  "fw_line (applyCommand ops now fw) = fw_line fw" "fw_line (superviseDeviceBus ops ok now fw) = fw_line fw"
  "fw_line (control_turn lenv fw) = fw_line fw" "fw_line (poll_turn ops lenv fw) = fw_line fw"
proof -
  show s [simp]: "fw_line (set_reg a v fw) = fw_line fw" for a v and fw :: "'a firmware" by (simp add: set_reg_def)
  show "fw_line (persistNodeConfig fw) = fw_line fw" by (simp add: persistNodeConfig_def case_prod_beta)
  show "fw_line (onEvent e fw) = fw_line fw" by (cases e) simp_all
  show "fw_line (applyCommand ops now fw) = fw_line fw" by (simp add: applyCommand_def accept_command_def expire_command_def Let_def case_prod_beta)
  show "fw_line (superviseDeviceBus ops ok now fw) = fw_line fw" by (simp add: superviseDeviceBus_def Let_def case_prod_beta)
  show "fw_line (control_turn lenv fw) = fw_line fw" by (simp add: control_turn_def Let_def case_prod_beta)
  show "fw_line (poll_turn ops lenv fw) = fw_line fw"
    by (simp add: poll_turn_def publishHealthRegisters_def publishDriverSample_def Let_def case_prod_beta)
qed

lemma events_line [simp]: "fw_line (fold onEvent es fw) = fw_line fw" "fw_line (arrive env k fw) = fw_line fw"
proof -
  show "fw_line (fold onEvent es fw) = fw_line fw" for es by (induction es arbitrary: fw) simp_all
  then show "fw_line (arrive env k fw) = fw_line fw" by (simp add: arrive_def)
qed

lemma persist_hash [simp]: "nv_ota_token_hash (fw_nvs (persistNodeConfig fw)) = nv_ota_token_hash (fw_nvs fw)"
  by (simp add: persistNodeConfig_def case_prod_beta)

lemma provision_key: "key_ok ops first (provisionNode args fw) = key_ok ops first fw"
  by (rule key_fields) (simp_all add: provisionNode_def Let_def split: option.split prod.split)

lemma line_key:
  assumes "key_ok ops first fw" "length l \<le> line_capacity" "\<And>s. length (ce_trim ce s) \<le> length s" "ce_sha256Hex ce = sha256Hex ops"
  shows "key_ok ops first (processProvisioningLine ce l fw)"
proof -
  define token where "token = drop 8 (ce_trim ce l)"
  have "length token \<le> 72" using assms(2) assms(3) [of l] by (simp add: token_def)
  then have "32 \<le> length token \<Longrightarrow> key_ok ops first (fw\<lparr>fw_nvs := (fw_nvs fw)\<lparr>nv_ota_token_hash := sha256Hex ops token\<rparr>, fw_rebooting := r\<rparr>)" for r
    using assms(1) unfolding key_ok_def by fastforce
  moreover have "key_ok ops first (fw\<lparr>fw_nvs := (fw_nvs fw)\<lparr>nv_ota_token_hash := []\<rparr>, fw_rebooting := r\<rparr>)"
    "key_ok ops first (fw\<lparr>fw_nvs := (fw_nvs fw)\<lparr>nv_rockpi_ip := v\<rparr>, fw_control := c\<rparr>)" for r v c
    using assms(1) by (simp_all add: key_ok_def)
  ultimately show ?thesis
    using assms(1,4) unfolding processProvisioningLine_def Let_def token_def [symmetric] by (simp add: provision_key not_less split: option.split)
qed

lemma push_bounded:
  "push b c = (l, b') \<Longrightarrow> length (lb_chars b) \<le> line_capacity \<Longrightarrow> length (lb_chars b') \<le> line_capacity \<and> (\<forall>x. l = Some x \<longrightarrow> length x \<le> line_capacity)"
  by (auto simp: push_def split: if_splits)

lemma console_key:
  assumes "\<And>s. length (ce_trim ce s) \<le> length s" "ce_sha256Hex ce = sha256Hex ops"
  shows "key_ok ops first fw \<Longrightarrow> key_ok ops first (console_chars ce cs fw)"
proof (induction cs arbitrary: fw)
  case (Cons c cs)
  obtain l b where p: "push (fw_line fw) c = (l, b)" by fastforce
  have "length (lb_chars (fw_line fw)) \<le> line_capacity" using Cons.prems by (simp add: key_ok_def)
  note bounds = push_bounded [OF p this]
  then have b: "key_ok ops first (fw\<lparr>fw_line := b\<rparr>)" using Cons.prems by (simp add: key_ok_def)
  moreover have "length (c_str x) \<le> line_capacity" if "l = Some x" for x
    using bounds that le_trans [OF length_takeWhile_le] unfolding c_str_def by blast
  ultimately show ?case using Cons line_key [OF b _ assms] by (cases l) (simp_all add: p Let_def)
qed simp

lemma loop_key:
  assumes "key_ok (pl_hash pl) first (bd_fw b)" "\<And>s. length (pl_trim pl s) \<le> length s"
  shows "key_ok (pl_hash pl) first (bd_fw (fst (board_loop pl env (b, m))))"
proof -
  let ?fw1 = "loop_console pl env (bd_fw b)"
  have "key_ok (pl_hash pl) first (arrive env 0 (bd_fw b))" using assms(1) by (simp cong: key_fields)
  then have console: "key_ok (pl_hash pl) first ?fw1"
    using console_key [of "le_console (turn_env pl env)" "pl_hash pl"] assms(2)
    by (simp add: loop_console_def processProvisioningSerial_def turn_env_def)
  have "fw_line (bd_fw (fst (board_loop pl env (b, m)))) = fw_line ?fw1"
    "nv_ota_token_hash (fw_nvs (bd_fw (fst (board_loop pl env (b, m))))) = nv_ota_token_hash (fw_nvs ?fw1)"
    by (simp_all add: board_loop_def loop_publish_def loop_command_def Let_def case_prod_beta)
  with console show ?thesis using key_fields by blast
qed

lemma setup_key: "key_ok ops (nv_ota_token_hash nv) (bd_fw (board_setup pl senv st nv flash))"
  by (simp add: board_setup_def firmware_setup_def publishHealthRegisters_def globals_def key_ok_def new_line_buffer_def Let_def case_prod_beta)

lemma key_reboot:
  "key_ok ops first fw \<Longrightarrow> key_ok ops (nv_ota_token_hash (fw_nvs fw)) fw' \<Longrightarrow> nv_ota_token_hash (fw_nvs fw') = nv_ota_token_hash (fw_nvs fw) \<Longrightarrow> key_ok ops first fw'"
  unfolding key_ok_def by metis

lemma setup_hash: "nv_ota_token_hash (fw_nvs (bd_fw (board_setup pl senv st nv flash))) = nv_ota_token_hash nv"
  by (simp add: board_setup_def firmware_setup_def publishHealthRegisters_def globals_def Let_def case_prod_beta)

lemma board_run_key:
  assumes "board_run pl (board_setup pl senv st nv flash, m) l s'" "\<And>s. length (pl_trim pl s) \<le> length s"
  shows "key_ok (pl_hash pl) (nv_ota_token_hash nv) (bd_fw (fst s'))"
  using assms(1)
proof (induction rule: board_run.induct)
  case (turn l b m1 env)
  then show ?case using loop_key [of pl _ b env m1] assms(2) by simp
next
  case (event l b m e)
  have "fw_nvs (onEvent e fw) = fw_nvs fw" for fw :: "'a firmware" by (cases e) simp_all
  with event show ?case using key_fields [of "onEvent e (bd_fw b)" "bd_fw b" "pl_hash pl"] by simp
next
  case (reboot l b m1 senv)
  then show ?case using key_reboot [OF _ setup_key setup_hash] by simp
qed (simp add: setup_key)

section \<open>Images\<close>

text \<open>An image that was announced by an authorised request under the configuration of its time.\<close>

definition image_ok :: "(u8 list \<Rightarrow> u8 list) \<Rightarrow> 'h hash_ops \<Rightarrow> (ota_config \<times> upload_event) list \<Rightarrow> u8 list \<Rightarrow> bool" where
  "image_ok digest ops l m \<longleftrightarrow> (\<exists>config. announced digest ops config (map snd (filter (\<lambda>x. fst x = config) l)) m)"

lemma image_ok_mono: "image_ok digest ops l m \<Longrightarrow> image_ok digest ops (l @ l') m"
  unfolding image_ok_def announced_def by fastforce

lemma announced_image_ok:
  "announced digest ops config es m \<Longrightarrow> image_ok digest ops (l @ map (Pair config) es) m"
  unfolding image_ok_def announced_def by (rule exI [of _ config]) (auto simp: filter_map o_def)

context ota_update
begin

definition images_inv :: "(ota_config \<times> upload_event) list \<Rightarrow> ('h, 'f) ota \<Rightarrow> bool" where
  "images_inv l sv \<longleftrightarrow> (\<exists>l0 es. l = l0 @ map (Pair (os_config sv)) es \<and> service_inv (image_ok digest ops l0) es sv)"

lemma images_start:
  assumes "\<And>m. bootable flash = Some m \<Longrightarrow> image_ok digest ops l m"
  shows "images_inv l (ota_begin (new_ota config flash))"
  unfolding images_inv_def
  by (intro exI [of _ l] exI [of _ "[]"]) (simp add: service_inv_def ota_inv_def ota_begin_def new_ota_def assms)

lemma images_loop:
  assumes "images_inv l sv" "calls_small calls"
  shows "images_inv (l @ (if os_started sv then map (Pair (os_config sv)) (uploads_of calls) else [])) (snd (ota_loop ops fl calls now sv))"
proof -
  obtain l0 es where l: "l = l0 @ map (Pair (os_config sv)) es" and inv: "service_inv (image_ok digest ops l0) es sv"
    using assms(1) by (auto simp: images_inv_def)
  show ?thesis
    unfolding images_inv_def ota_loop_same
    by (intro exI [of _ l0] exI [of _ "es @ (if os_started sv then uploads_of calls else [])"] conjI loop_inv [OF inv assms(2)])
      (simp add: l)
qed

lemma images_verified: "images_inv l sv \<Longrightarrow> bootable (os_flash sv) = Some m \<Longrightarrow> image_ok digest ops l m"
  unfolding images_inv_def service_inv_def ota_inv_def by (metis announced_image_ok image_ok_mono)

lemma images_pending: "images_inv l sv \<Longrightarrow> os_restartPending sv \<Longrightarrow> bootable (os_flash sv) \<noteq> None"
  by (auto simp: images_inv_def service_inv_def)

end

text \<open>The update service of a board, along its runs.\<close>

lemma board_run_images:
  assumes "ota_update (pl_hash pl) digest (pl_flash pl) written bootable" "nv_node_address nv \<le> 247" "bootable flash = None"
    and "board_run pl (board_setup pl senv st nv flash, m) l s'"
  shows "ota_update.images_inv (pl_hash pl) digest written bootable l (bd_ota (fst s'))"
  using assms(4)
proof (induction rule: board_run.induct)
  case start
  show ?case unfolding board_setup_def Let_def by simp (rule ota_update.images_start [OF assms(1)], simp add: assms(3))
next
  case (turn l b m1 env)
  have "board_ok (pl_uid pl) b" using board_run_ok [OF turn.hyps(1) assms(2)] by simp
  then have "bd_ota (fst (board_loop pl env (b, m1))) = (if fw_rebooting (loop_console pl env (bd_fw b)) then bd_ota b
      else snd (ota_loop (pl_hash pl) (pl_flash pl) (be_calls env) (be_millisOta env) (bd_ota b)))"
    using board_loop_parts(4) [of "pl_uid pl" b pl env m1] by (metis prod.collapse)
  then show ?case
    using turn.IH ota_update.images_loop [OF assms(1), of l "bd_ota b" "be_calls env" "be_millisOta env"] turn.hyps(3)
    by (auto simp: turn_uploads_def)
next
  case (event l b m e)
  then show ?case by simp
next
  case (reboot l b m1 senv)
  then have "image_ok digest (pl_hash pl) l x" if "bootable (os_flash (bd_ota b)) = Some x" for x
    using ota_update.images_verified [OF assms(1) _ that] by simp
  then show ?case unfolding board_setup_def Let_def by simp (rule ota_update.images_start [OF assms(1)])
qed

section \<open>Properties\<close>

text \<open>
  Property C14 (invariant). The shipped firmware is read-only: from start-up, through any number of
  loop turns with any input (console, network, uploads, clock), Ethernet events between any two
  statements and restarts, the driver stays the unconfigured one, no command is ever armed, the
  applied power and the driver-ready register read zero and the command result is never \<open>accepted\<close> or
  \<open>expired\<close>, although the command registers themselves can be written.
\<close>

theorem read_only_firmware:
  assumes "nv_node_address nv \<le> 247" "board_run pl (board_setup pl senv st nv flash, m) l (b, m')"
  shows "let fw = bd_fw b in \<not> is_vendor (fw_driver fw) \<and> \<not> fw_driverReady fw \<and> \<not> fw_commandArmed fw \<and>
    get_reg fw G_AppliedPowerKwX10 = 0 \<and> get_reg fw G_DriverReady = 0 \<and> get_reg fw G_LastCommandResult \<in> {0, 2, 4}"
  using board_run_ok [OF assms(2,1)] by (simp add: board_ok_def core_ok_def fw_readonly_def Let_def)


text \<open>
  Property C21 (safety). The node never talks to a cloud broker by itself: whatever credentials an
  earlier version left in the store, in every reachable state the uplink is inactive, and over the
  whole run the MQTT client, whatever it is, is not touched: its world is the one before start-up.
\<close>

theorem node_never_uplinks:
  assumes "nv_node_address nv \<le> 247" "board_run pl (board_setup pl senv st nv flash, m) l (b, m')"
  shows "m' = m \<and> \<not> cl_active (bd_cloud b)"
  using board_run_ok [OF assms(2,1)] by (simp add: board_ok_def)

text \<open>
  Property C18 (safety). Only a verified image ever becomes bootable: over every run of the board, with
  any flash writer and a hash engine that yields the digest of what it is fed, across restarts and
  changes of the provisioning, an image made bootable is non-empty, at most 3 MiB long, and was
  announced by a request from the non-zero Rock Pi address of the configuration then in force, whose
  token hashes to the token hash of that configuration and whose SHA-256 header is the digest of
  exactly that image. A restart is pending only when there is such an image.
\<close>

theorem ota_only_verified:
  assumes "hash_engine (pl_hash pl) digest" "pl_flash pl = recording_flash fl" "nv_node_address nv \<le> 247"
    and "board_run pl (board_setup pl senv st nv (f, [], None), m) l (b, m')"
  shows "(os_restartPending (bd_ota b) \<longrightarrow> log_bootable (os_flash (bd_ota b)) \<noteq> None) \<and>
    (\<forall>x. log_bootable (os_flash (bd_ota b)) = Some x \<longrightarrow> x \<noteq> [] \<and> length x \<le> 3 * 1024 * 1024 \<and>
      (\<exists>config remote sha token. (config, UploadStart remote sha token) \<in> set l \<and> remote = ota_rockPiAddress config \<and> remote \<noteq> 0 \<and>
         sha256Hex (pl_hash pl) token = ota_tokenHash config \<and> sha = hexDigest (digest x)))"
proof -
  have u: "ota_update (pl_hash pl) digest (pl_flash pl) log_written log_bootable"
    unfolding assms(2) by (intro ota_update.intro assms(1) frec.flash_monitor_axioms)
  have inv: "ota_update.images_inv (pl_hash pl) digest log_written log_bootable l (bd_ota b)"
    using board_run_images [OF u assms(3) _ assms(4)] by (simp add: log_bootable_def)
  have "image_ok digest (pl_hash pl) l x" if "log_bootable (os_flash (bd_ota b)) = Some x" for x
    using ota_update.images_verified [OF u inv that] .
  then show ?thesis
    using ota_update.images_pending [OF u inv]
    by (fastforce simp: image_ok_def announced_def requestAuthorized_def ota_sourceAllowed_def ota_enabled_def secureEquals_iff)
qed

text \<open>
  The control core does not depend on the uplink or the update service: for
  every broker connection, every sequence of uploads and every clock, a turn of the whole program in
  which no Ethernet event interrupts it changes the control state exactly as the turn of theory
  \<^verbatim>\<open>NodeFirmware\<close> does, cut off behind the control server only when the update service restarts the board.
\<close>

lemma board_turn_refines:
  "let env0 = env\<lparr>be_events := \<lambda>_. []\<rparr>; lenv = turn_env pl env0;
       fw1 = processProvisioningSerial (le_console lenv) (le_serial lenv) (bd_fw b);
       restart = snd (fst (ota_loop (pl_hash pl) (pl_flash pl) (be_calls env) (be_millisOta env) (bd_ota b)))
   in \<exists>connected. bd_fw (fst (board_loop pl env0 (b, m))) =
     (if \<not> fw_rebooting fw1 \<and> restart then (control_turn lenv fw1)\<lparr>fw_rebooting := True\<rparr>
      else main_loop (pl_driver pl) (lenv\<lparr>le_cloudConnected := connected\<rparr>) (bd_fw b))"
proof -
  define env0 where "env0 = env\<lparr>be_events := \<lambda>_. []\<rparr>"
  define fw1 where "fw1 = processProvisioningSerial (le_console (turn_env pl env0)) (le_serial (be_loop env)) (bd_fw b)"
  have quiet: "arrive env0 k fw = fw" for k and fw :: "'a firmware" by (simp add: arrive_def env0_def)
  have same: "be_loop env0 = be_loop env" "be_calls env0 = be_calls env" "be_millisOta env0 = be_millisOta env" by (simp_all add: env0_def)
  have core: "main_loop (pl_driver pl) ((turn_env pl env0)\<lparr>le_cloudConnected := c\<rparr>) (bd_fw b) = (if fw_rebooting fw1 then fw1
      else poll_turn (pl_driver pl) ((turn_env pl env0)\<lparr>le_cloudConnected := c\<rparr>) (loop_command pl env0 (control_turn (turn_env pl env0) fw1)))" for c
    by (simp add: main_loop_def loop_command_def fw1_def quiet same Let_def turn_env_fields turn_env_control)
  have "\<exists>c. bd_fw (fst (board_loop pl env0 (b, m))) =
     (if \<not> fw_rebooting fw1 \<and> snd (fst (ota_loop (pl_hash pl) (pl_flash pl) (be_calls env) (be_millisOta env) (bd_ota b)))
      then (control_turn (turn_env pl env0) fw1)\<lparr>fw_rebooting := True\<rparr>
      else main_loop (pl_driver pl) ((turn_env pl env0)\<lparr>le_cloudConnected := c\<rparr>) (bd_fw b))"
    unfolding core by (simp add: board_loop_def loop_publish_def loop_console_def fw1_def [symmetric] quiet same Let_def case_prod_beta) blast
  then show ?thesis unfolding env0_def [symmetric] Let_def turn_env_fields(1) same fw1_def .
qed

text \<open>
  Property C40 (error). A new Rock Pi address takes effect for control at once but not for updates:
  through any turns after start-up the control server accepts exactly the address the store holds,
  while the update service keeps the address and the token hash that were stored at start-up, and
  authorises the same requests as then.
\<close>

theorem ota_source_stale:
  "let b' = fst (fold (board_loop pl) envs (board_setup pl senv st nv flash, m)) in
     control_source (bd_fw b') = stored_source (pl_fromString pl) (fw_nvs (bd_fw b')) \<and>
     ota_rockPiAddress (os_config (bd_ota b')) = stored_source (pl_fromString pl) nv \<and>
     requestAuthorized ops (os_config (bd_ota b')) remote sha token = requestAuthorized ops (loadOtaConfig (pl_fromString pl) st nv) remote sha token"
proof -
  let ?s = "(board_setup pl senv st nv flash, m)"
  have "source_stored (pl_fromString pl) (bd_fw (fst ?s))" by (simp add: setup_source)
  note t = turns_sources [OF this, of envs]
  have "os_config (bd_ota (board_setup pl senv st nv flash)) = loadOtaConfig (pl_fromString pl) st nv"
    by (simp add: board_setup_def ota_begin_def new_ota_def Let_def)
  then show ?thesis using t by (simp add: source_stored_def loadOtaConfig_def stored_source_def Let_def)
qed

text \<open>
  Property C38 (bounds). A secret of more than 72 characters can never be installed, although the console
  asks for 32 to 128: over every run of the board the stored hash is the one found at the first start,
  none, or the hash of a secret of 32 to 72 characters, because a line of more than 80 characters is
  discarded before the command is read.
\<close>

theorem ota_key_limit:
  assumes "board_run pl (board_setup pl senv st nv flash, m) l (b, m')" "\<And>s. length (pl_trim pl s) \<le> length s"
  shows "let h = nv_ota_token_hash (fw_nvs (bd_fw b)) in h = nv_ota_token_hash nv \<or> h = [] \<or>
    (\<exists>token. 32 \<le> length token \<and> length token \<le> 72 \<and> h = sha256Hex (pl_hash pl) token)"
  using board_run_key [OF assms] by (auto simp: key_ok_def Let_def)

section \<open>A bench\<close>

text \<open>A provisioned node on which the Rock Pi uploads a one-byte image.\<close>

definition bench_platform :: "(unit, nat, sha256, unit logged) platform" where
  "bench_platform = \<lparr>pl_driver = ack_driver, pl_mqtt = offline_ops, pl_hash = sha256_engine, pl_flash = recording_flash null_flash,
     pl_oneDecimal = (\<lambda>_. []), pl_fromString = (\<lambda>s. if s = ''192.168.50.1'' then Some 0xC0A83201
       else if s = ''192.168.50.2'' then Some 0xC0A83202 else None), pl_trim = id,
     pl_uid = 0x1234, pl_bus = BusCan, pl_idfMajor = 5, pl_wdtInit = (\<lambda>_. ESP_OK)\<rparr>"

definition bench_nvs :: nvs where
  "bench_nvs = blank_nvs\<lparr>nv_rockpi_ip := ''192.168.50.1'', nv_ota_token_hash := sha256Hex sha256_engine ''secret''\<rparr>"

definition legacy_store :: board_store where
  "legacy_store = \<lparr>bs_ota_port = 8080, bs_mqtt_host = ''broker'', bs_mqtt_port = 8883, bs_realm = ''master'', bs_mqtt_user = ''svc'',
     bs_mqtt_secret = ''s'', bs_client_id = ''node-1'', bs_asset_id = ''asset'', bs_ca_cert = ''ca''\<rparr>"

definition bench_startup :: board_setup_env where
  "bench_startup = \<lparr>su_setup = bench_setup, su_twaiInstall = True, su_twaiStart = True, su_wdtAdd = ESP_OK\<rparr>"

definition bench_board :: "(unit, sha256, unit logged) board" where
  "bench_board = board_setup bench_platform bench_startup legacy_store bench_nvs ((), [], None)"

definition quiet_loop :: loop_env where
  "quiet_loop = \<lparr>le_console = \<lparr>ce_fromString = (\<lambda>_. None), ce_sha256Hex = id, ce_trim = id, ce_opens = True, ce_writes = True\<rparr>,
     le_serial = [], le_eth = \<lparr>ev_connectedBefore = False, ev_candidate = None, ev_connectedAfter = False, ev_reads = [],
       ev_millisRead = 0, ev_millisEnd = 0\<rparr>, le_millisCommand = 600, le_millisBus = 600, le_busOk = True, le_millisPoll = 600,
     le_millisPollStart = 600, le_millisUptime = 600, le_cloudConnected = False\<rparr>"

definition upload_turn :: board_env where
  "upload_turn = \<lparr>be_loop = quiet_loop, be_events = (\<lambda>_. []), be_twaiInstall = True, be_twaiStart = True, be_link = (True, True),
     be_millisCloud = 590, be_millisCloudAfter = 590, be_calls = upload_request 0xC0A83201 (hexDigest (fips_sha256 [7])) ''secret'' [[7]] 590,
     be_millisOta = 595, be_millisPublish = 600, be_millisPublishStart = 600\<rparr>"

lemma bench_small: "calls_small (be_calls upload_turn)"
  by (simp add: upload_turn_def upload_request_def chunk_small_def)

lemma bench_board_state:
  "\<not> fw_rebooting (bd_fw bench_board)" "os_started (bd_ota bench_board)" "os_config (bd_ota bench_board) = bench_ota"
proof -
  have "length (sha256Hex sha256_engine ''secret'') = 64" by (simp add: sha256Hex_engine)
  then have "ota_enabled bench_ota" using bench_authorized [of "[]"] by (simp add: requestAuthorized_def ota_sourceAllowed_def)
  moreover have c: "loadOtaConfig (pl_fromString bench_platform) legacy_store bench_nvs = bench_ota"
    by (simp add: loadOtaConfig_def bench_platform_def legacy_store_def bench_nvs_def blank_nvs_def bench_ota_def)
  ultimately show "os_started (bd_ota bench_board)" "os_config (bd_ota bench_board) = bench_ota"
    by (simp_all add: bench_board_def board_setup_def ota_begin_def new_ota_def Let_def)
  show "\<not> fw_rebooting (bd_fw bench_board)"
    by (simp add: bench_board_def board_setup_def firmware_setup_def publishHealthRegisters_def set_reg_def globals_def bench_startup_def
        bench_setup_def Let_def case_prod_beta)
qed

lemma bench_console: "\<not> fw_rebooting (loop_console bench_platform upload_turn (bd_fw bench_board))"
  using bench_board_state(1) by (simp add: loop_console_def processProvisioningSerial_def upload_turn_def quiet_loop_def arrive_def)

lemma bench_nvs_address: "nv_node_address bench_nvs \<le> 247"
  by (simp add: bench_nvs_def blank_nvs_def)

definition updated_board :: "(unit, sha256, unit logged) board \<times> nat" where
  "updated_board = board_loop bench_platform upload_turn (bench_board, 0)"

lemma bench_board_run:
  "board_run bench_platform (bench_board, 0) (turn_uploads bench_platform upload_turn bench_board) (fst updated_board, snd updated_board)"
  using board_run.turn [OF board_run.start bench_board_state(1) bench_small, of bench_platform 0] by (simp add: updated_board_def)

lemma bench_image: "log_bootable (os_flash (bd_ota (fst updated_board))) = Some [7]"
proof -
  have "board_ok 0x1234 bench_board"
    using setup_ok [OF bench_nvs_address, of bench_platform] by (simp add: bench_board_def bench_platform_def)
  then have "bd_ota (fst updated_board) = snd (ota_loop sha256_engine (recording_flash null_flash) (be_calls upload_turn) 595 (bd_ota bench_board))"
    using board_loop_parts(4) [of "0x1234" bench_board bench_platform upload_turn 0 "fst updated_board" "snd updated_board"] bench_console
    by (simp add: updated_board_def bench_platform_def upload_turn_def)
  moreover have "requestAuthorized sha256_engine (os_config (bd_ota bench_board)) 0xC0A83201 (hexDigest (fips_sha256 [7])) ''secret''"
    unfolding bench_board_state(3) by (rule bench_authorized)
  moreover obtain r x sv' where e: "ota_loop sha256_engine (recording_flash null_flash) (be_calls upload_turn) 595 (bd_ota bench_board) = ((r, x), sv')"
    by (metis prod.collapse)
  ultimately show ?thesis
    using update_completes(1) [OF sha_engine.hash_engine_axioms sha256_engine_ready null_flash_ready bench_board_state(2), of _ _ _ "[[7]]" 590 595 r x sv']
    by (simp add: upload_turn_def)
qed

theorem ota_only_verified_witness:
  "\<exists>config remote token. (config, UploadStart remote (hexDigest (fips_sha256 [7])) token) \<in> set (turn_uploads bench_platform upload_turn bench_board)"
proof -
  have p: "pl_hash bench_platform = sha256_engine" "pl_flash bench_platform = recording_flash null_flash" by (simp_all add: bench_platform_def)
  show ?thesis
    using ota_only_verified [of bench_platform fips_sha256, OF _ p(2) bench_nvs_address bench_board_run [unfolded bench_board_def]] bench_image
    by (simp add: p(1) sha_engine.hash_engine_axioms bench_board_def) blast
qed

theorem node_never_uplinks_witness: "snd updated_board = 0"
  using node_never_uplinks [OF bench_nvs_address bench_board_run [unfolded bench_board_def]] by simp

theorem read_only_firmware_witness: "\<not> fw_commandArmed (bd_fw (fst updated_board))"
  using read_only_firmware [OF bench_nvs_address bench_board_run [unfolded bench_board_def]] by (simp add: Let_def)


theorem ota_key_limit_witness:
  "let h = nv_ota_token_hash (fw_nvs (bd_fw (fst updated_board))) in h = nv_ota_token_hash bench_nvs \<or> h = [] \<or>
    (\<exists>token. 32 \<le> length token \<and> length token \<le> 72 \<and> h = sha256Hex sha256_engine token)"
proof -
  have "length (pl_trim bench_platform s) \<le> length s" "pl_hash bench_platform = sha256_engine" for s by (simp_all add: bench_platform_def)
  then show ?thesis using ota_key_limit [OF bench_board_run [unfolded bench_board_def]] by simp
qed

text \<open>The two addresses do come apart: a new one typed at the console.\<close>

definition console_turn :: board_env where
  "console_turn = upload_turn\<lparr>be_loop := quiet_loop\<lparr>le_serial := ''rockpi 192.168.50.2'' @ [CHR 0x0A]\<rparr>, be_calls := []\<rparr>"

lemma loop_control_source: "control_source (bd_fw (fst (board_loop pl env (b, m)))) = control_source (loop_console pl env (bd_fw b))"
  by (simp add: board_loop_def loop_publish_def loop_command_def control_source_def Let_def case_prod_beta)

lemma stale_source_reached:
  "let b' = fst (board_loop bench_platform console_turn (bench_board, 0))
   in control_source (bd_fw b') = 0xC0A83202 \<and> ota_rockPiAddress (os_config (bd_ota b')) = 0xC0A83201"
proof -
  have l: "fw_line (bd_fw bench_board) = new_line_buffer"
    by (simp add: bench_board_def board_setup_def firmware_setup_def publishHealthRegisters_def globals_def Let_def case_prod_beta)
  define fw where "fw = bd_fw bench_board"
  have "control_source (loop_console bench_platform console_turn fw) = 0xC0A83202"
    using bench_board_state(1) l unfolding fw_def [symmetric]
    by (simp add: loop_console_def processProvisioningSerial_def console_turn_def upload_turn_def quiet_loop_def turn_env_def arrive_def
        push_def is_terminator_def new_line_buffer_def c_str_def processProvisioningLine_def starts_with_def bench_platform_def
        setRockPiAddress_def control_source_def)
  then show ?thesis
    using bench_board_state(3) unfolding Let_def loop_control_source loop_ota_config fw_def by (simp add: bench_ota_def)
qed

end
