(* ===== verification/SafetyEnvelope.thy ===== *)
theory SafetyEnvelope
  imports Float64
begin

text \<open>
  The shared data types of \<^verbatim>\<open>include/gridex/Types.hpp\<close> and the power envelope
  \<^verbatim>\<open>SafetyEnvelope::apply\<close> of \<^verbatim>\<open>src/SafetyEnvelope.cpp\<close>. Power is signed: positive is
  discharge, negative is charge. The lemmas show that the clamp is always called with an
  ordered interval (otherwise \<^verbatim>\<open>std::clamp\<close> is undefined), that the result respects every
  limit that is in force, that it is zero unless every gate is open, and that a request inside
  the limits passes unchanged.
\<close>

section \<open>Data types\<close>

datatype quality = QInvalid | QGood | QStale | QFault

datatype edge_state = Boot | WaitingForComms | WaitingForBmsLimits | Ready | SafeMode | Fault
  | CommissioningLocked | WaitingForPcsReady

fun edge_state_code :: "edge_state \<Rightarrow> u16" where
  "edge_state_code Boot = 0"
| "edge_state_code WaitingForComms = 1"
| "edge_state_code WaitingForBmsLimits = 2"
| "edge_state_code Ready = 3"
| "edge_state_code SafeMode = 4"
| "edge_state_code Fault = 5"
| "edge_state_code CommissioningLocked = 6"
| "edge_state_code WaitingForPcsReady = 7"

record battery_telemetry =
  actualPowerKw :: dbl
  commandedPowerKw :: dbl
  dcPowerKw :: dbl
  reactivePowerKvar :: dbl
  frequencyHz :: dbl
  socPct :: dbl
  sohPct :: dbl
  voltageV :: dbl
  currentA :: dbl
  maxChargeKw :: dbl
  maxDischargeKw :: dbl
  accumulatedChargeKwh :: dbl
  accumulatedDischargeKwh :: dbl
  dailyChargeKwh :: dbl
  dailyDischargeKwh :: dbl
  socUpperLimitPct :: dbl
  socLowerLimitPct :: dbl
  statusCode :: u16
  pcsStatusCode :: u16
  bmsSystemFlags :: u16
  quality :: quality
  limitsValid :: bool
  pcsPowerOn :: bool
  pcsGridTied :: bool
  pcsCurrentSourceMode :: bool
  pcsFault :: bool
  pcsCommunicationFault :: bool
  bmsFault :: bool
  bmsCommunicationFault :: bool
  bmsAlarm :: bool
  pcsWarning :: bool
  extendedTelemetryValid :: bool
  controlReady :: bool

text \<open>The value-initialised struct: numbers zero, fault flags set, everything else unset.\<close>

definition default_battery :: battery_telemetry where
  "default_battery = \<lparr>actualPowerKw = Fin 0, commandedPowerKw = Fin 0, dcPowerKw = Fin 0,
     reactivePowerKvar = Fin 0, frequencyHz = Fin 0, socPct = Fin 0, sohPct = Fin 0,
     voltageV = Fin 0, currentA = Fin 0, maxChargeKw = Fin 0, maxDischargeKw = Fin 0,
     accumulatedChargeKwh = Fin 0, accumulatedDischargeKwh = Fin 0, dailyChargeKwh = Fin 0,
     dailyDischargeKwh = Fin 0, socUpperLimitPct = Fin 0, socLowerLimitPct = Fin 0,
     statusCode = 0, pcsStatusCode = 0, bmsSystemFlags = 0, quality = QInvalid,
     limitsValid = False, pcsPowerOn = False, pcsGridTied = False,
     pcsCurrentSourceMode = False, pcsFault = True, pcsCommunicationFault = True,
     bmsFault = True, bmsCommunicationFault = True, bmsAlarm = True, pcsWarning = True,
     extendedTelemetryValid = False, controlReady = False\<rparr>"

record site_limit =
  siteLoadKw :: "dbl option"
  contractLimitKw :: "dbl option"

record configured_power_limit =
  cfgMaxChargeKw :: "dbl option"
  cfgMaxDischargeKw :: "dbl option"

record safety_input =
  si_requestedPowerKw :: dbl
  si_battery :: battery_telemetry
  si_site :: site_limit
  si_configuredLimit :: configured_power_limit
  si_emsConnected :: bool

record safety_result =
  requestedPowerKw :: dbl
  appliedPowerKw :: dbl
  clamped :: bool
  reason :: string

section \<open>The envelope\<close>

definition chargeProhibited :: "u16 \<Rightarrow> bool" where
  "chargeProhibited flags = (flags AND 0x0001 \<noteq> 0)"

definition dischargeProhibited :: "u16 \<Rightarrow> bool" where
  "dischargeProhibited flags = (flags AND 0x0002 \<noteq> 0)"

text \<open>The two magnitudes after the BMS limit, the configured cap and the site headroom.\<close>

definition envelope_max_charge :: "safety_input \<Rightarrow> dbl" where
  "envelope_max_charge i =
     (let m0 = std_max (Fin 0) (maxChargeKw (si_battery i));
          m1 = (case cfgMaxChargeKw (si_configuredLimit i) of None \<Rightarrow> m0
                | Some c \<Rightarrow> std_min m0 (std_max (Fin 0) c))
      in case (siteLoadKw (si_site i), contractLimitKw (si_site i)) of
           (Some load, Some contract) \<Rightarrow>
             (let headroomKw = std_max (Fin 0) (dsub contract load) in std_min m1 headroomKw)
         | _ \<Rightarrow> m1)"

definition envelope_max_discharge :: "safety_input \<Rightarrow> dbl" where
  "envelope_max_discharge i =
     (let m0 = std_max (Fin 0) (maxDischargeKw (si_battery i))
      in case cfgMaxDischargeKw (si_configuredLimit i) of None \<Rightarrow> m0
         | Some c \<Rightarrow> std_min m0 (std_max (Fin 0) c))"

definition lowerBoundKw :: "safety_input \<Rightarrow> dbl" where
  "lowerBoundKw i = (if chargeProhibited (bmsSystemFlags (si_battery i)) then Fin 0
     else dneg (envelope_max_charge i))"

definition upperBoundKw :: "safety_input \<Rightarrow> dbl" where
  "upperBoundKw i = (if dischargeProhibited (bmsSystemFlags (si_battery i)) then Fin 0
     else envelope_max_discharge i)"

definition not_ready_reason :: "battery_telemetry \<Rightarrow> string" where
  "not_ready_reason b =
     (if pcsFault b \<or> bmsFault b then ''active PCS/BMS fault''
      else if pcsCommunicationFault b \<or> bmsCommunicationFault b then ''PCS/BMS communication fault''
      else if \<not> pcsPowerOn b then ''PCS is not powered on (5003 != 1)''
      else if \<not> pcsGridTied b then ''PCS is not in grid-tied mode (5001 != 0)''
      else if \<not> pcsCurrentSourceMode b then ''PCS is not in PQ current-source mode (5002 != 1)''
      else ''PCS control prerequisites are not satisfied'')"

definition SafetyEnvelope_apply :: "safety_input \<Rightarrow> safety_result" where
  "SafetyEnvelope_apply i =
     (let req = si_requestedPowerKw i; b = si_battery i;
          result = \<lparr>requestedPowerKw = req, appliedPowerKw = Fin 0, clamped = False, reason = ''safe''\<rparr>;
          nonzero = dlt (rnd (1 / 1000)) (dabs req)
      in if \<not> si_emsConnected i then
           result\<lparr>clamped := nonzero, reason := ''EMS connection stale or missing''\<rparr>
         else if quality b \<noteq> QGood then
           result\<lparr>clamped := nonzero, reason := ''vendor telemetry is not valid''\<rparr>
         else if \<not> limitsValid b then
           result\<lparr>clamped := nonzero, reason := ''BMS charge/discharge limits are not valid''\<rparr>
         else if \<not> controlReady b then
           result\<lparr>clamped := nonzero, reason := not_ready_reason b\<rparr>
         else
           (let lo = lowerBoundKw i; hi = upperBoundKw i;
                applied = std_clamp req lo hi;
                cl = dlt (rnd (1 / 1000)) (dabs (dsub applied req))
            in result\<lparr>appliedPowerKw := applied, clamped := cl, reason :=
                 (if chargeProhibited (bmsSystemFlags b) \<and> dlt req (Fin 0)
                    then ''BMS charge prohibited''
                  else if dischargeProhibited (bmsSystemFlags b) \<and> dlt (Fin 0) req
                    then ''BMS discharge prohibited''
                  else if cl \<and> dlt req lo then ''charge command clamped by BMS/software fuse''
                  else if cl \<and> dlt hi req then ''discharge command clamped by BMS limit''
                  else ''safe'')\<rparr>))"

definition envelope_open :: "safety_input \<Rightarrow> bool" where
  "envelope_open i \<longleftrightarrow> si_emsConnected i \<and> quality (si_battery i) = QGood \<and>
     limitsValid (si_battery i) \<and> controlReady (si_battery i)"

text \<open>What the envelope promises about an applied power, limit by limit.\<close>

definition within_limits :: "safety_input \<Rightarrow> dbl \<Rightarrow> bool" where
  "within_limits i a \<longleftrightarrow>
     dle (dneg (std_max (Fin 0) (maxChargeKw (si_battery i)))) a \<and>
     dle a (std_max (Fin 0) (maxDischargeKw (si_battery i))) \<and>
     (\<forall>c. cfgMaxChargeKw (si_configuredLimit i) = Some c \<longrightarrow> dle (dneg (std_max (Fin 0) c)) a) \<and>
     (\<forall>d. cfgMaxDischargeKw (si_configuredLimit i) = Some d \<longrightarrow> dle a (std_max (Fin 0) d)) \<and>
     (\<forall>l k. siteLoadKw (si_site i) = Some l \<and> contractLimitKw (si_site i) = Some k \<longrightarrow>
        dle (dneg (std_max (Fin 0) (dsub k l))) a) \<and>
     (chargeProhibited (bmsSystemFlags (si_battery i)) \<longrightarrow> dle (Fin 0) a) \<and>
     (dischargeProhibited (bmsSystemFlags (si_battery i)) \<longrightarrow> dle a (Fin 0))"

text \<open>A concrete input: a healthy battery limited to 100 kW charge and 120 kW discharge, a
  configured discharge cap of 55 kW and a request of 200 kW.\<close>

definition good_battery :: battery_telemetry where
  "good_battery = default_battery\<lparr>socPct := Fin (145 / 2), maxChargeKw := Fin 100,
     maxDischargeKw := Fin 120, quality := QGood, limitsValid := True, pcsPowerOn := True,
     pcsGridTied := True, pcsCurrentSourceMode := True, pcsFault := False,
     pcsCommunicationFault := False, bmsFault := False, bmsCommunicationFault := False,
     controlReady := True\<rparr>"

definition envelope_example :: safety_input where
  "envelope_example = \<lparr>si_requestedPowerKw = Fin 200, si_battery = good_battery,
     si_site = \<lparr>siteLoadKw = None, contractLimitKw = None\<rparr>,
     si_configuredLimit = \<lparr>cfgMaxChargeKw = None, cfgMaxDischargeKw = Some (Fin 55)\<rparr>,
     si_emsConnected = True\<rparr>"

section \<open>Correctness of the bounds\<close>

lemma dneg_dle_zero: "dle (Fin 0) d \<Longrightarrow> dle (dneg d) (Fin 0)"
  by (cases d) auto

lemma envelope_max_charge_nonneg: "dle (Fin 0) (envelope_max_charge i)"
  by (auto simp: envelope_max_charge_def Let_def std_max_zero intro!: std_min_nonneg
      split: option.split)

lemma envelope_max_discharge_nonneg: "dle (Fin 0) (envelope_max_discharge i)"
  by (auto simp: envelope_max_discharge_def Let_def std_max_zero intro!: std_min_nonneg
      split: option.split)

lemma envelope_max_charge_le:
  "dle (envelope_max_charge i) (std_max (Fin 0) (maxChargeKw (si_battery i)))"
  "cfgMaxChargeKw (si_configuredLimit i) = Some c \<Longrightarrow> dle (envelope_max_charge i) (std_max (Fin 0) c)"
  "siteLoadKw (si_site i) = Some l \<Longrightarrow> contractLimitKw (si_site i) = Some k \<Longrightarrow>
     dle (envelope_max_charge i) (std_max (Fin 0) (dsub k l))"
  by (auto simp: envelope_max_charge_def Let_def std_max_zero std_min_cases
      intro: std_min_le1 std_min_le2 split: option.split)

lemma envelope_max_discharge_le:
  "dle (envelope_max_discharge i) (std_max (Fin 0) (maxDischargeKw (si_battery i)))"
  "cfgMaxDischargeKw (si_configuredLimit i) = Some c \<Longrightarrow> dle (envelope_max_discharge i) (std_max (Fin 0) c)"
  by (auto simp: envelope_max_discharge_def Let_def std_max_zero std_min_cases split: option.split)

text \<open>The bounds do not depend on the request.\<close>

lemma bounds_request [simp]:
  "lowerBoundKw (i\<lparr>si_requestedPowerKw := r\<rparr>) = lowerBoundKw i"
  "upperBoundKw (i\<lparr>si_requestedPowerKw := r\<rparr>) = upperBoundKw i"
  "envelope_open (i\<lparr>si_requestedPowerKw := r\<rparr>) = envelope_open i"
  by (simp_all add: lowerBoundKw_def upperBoundKw_def envelope_max_charge_def
      envelope_max_discharge_def envelope_open_def)

text \<open>\<^verbatim>\<open>std::clamp\<close> requires \<open>\<not> hi < lo\<close>: zero always separates the two bounds.\<close>

lemma lowerBound_le_zero: "dle (lowerBoundKw i) (Fin 0)"
  by (simp add: lowerBoundKw_def dneg_dle_zero envelope_max_charge_nonneg)

lemma zero_le_upperBound: "dle (Fin 0) (upperBoundKw i)"
  by (simp add: upperBoundKw_def envelope_max_discharge_nonneg)

lemma envelope_interval: "dle (lowerBoundKw i) (upperBoundKw i)"
  using lowerBound_le_zero zero_le_upperBound by (rule dle_trans)

lemma apply_closed: "\<not> envelope_open i \<Longrightarrow> appliedPowerKw (SafetyEnvelope_apply i) = Fin 0"
  by (auto simp: SafetyEnvelope_apply_def envelope_open_def Let_def)

lemma apply_open:
  "envelope_open i \<Longrightarrow> appliedPowerKw (SafetyEnvelope_apply i) =
     std_clamp (si_requestedPowerKw i) (lowerBoundKw i) (upperBoundKw i)"
  by (auto simp: SafetyEnvelope_apply_def envelope_open_def Let_def)

lemma apply_requested [simp]: "requestedPowerKw (SafetyEnvelope_apply i) = si_requestedPowerKw i"
  by (auto simp: SafetyEnvelope_apply_def Let_def)

lemma apply_bounds:
  assumes "si_requestedPowerKw i \<noteq> NaN"
  shows "dle (lowerBoundKw i) (appliedPowerKw (SafetyEnvelope_apply i))"
    and "dle (appliedPowerKw (SafetyEnvelope_apply i)) (upperBoundKw i)"
  using assms lowerBound_le_zero [of i] zero_le_upperBound [of i] envelope_interval [of i]
  by (cases "envelope_open i"; simp add: apply_closed apply_open std_clamp_bounds)+

lemma apply_finite:
  assumes "si_requestedPowerKw i \<noteq> NaN" "isfinite (maxChargeKw (si_battery i))"
    "isfinite (maxDischargeKw (si_battery i))"
  shows "isfinite (appliedPowerKw (SafetyEnvelope_apply i))"
proof -
  obtain c where "std_max (Fin 0) (maxChargeKw (si_battery i)) = Fin c"
    using std_max_finite [OF _ assms(2), of "Fin 0"] by (auto simp: isfinite_iff)
  then have "dle (Fin (- c)) (lowerBoundKw i)"
    using envelope_max_charge_le(1) [of i] std_max_zero(2) [of "maxChargeKw (si_battery i)"]
    by (cases "envelope_max_charge i") (auto simp: lowerBoundKw_def)
  moreover obtain d where "std_max (Fin 0) (maxDischargeKw (si_battery i)) = Fin d"
    using std_max_finite [OF _ assms(3), of "Fin 0"] by (auto simp: isfinite_iff)
  then have "dle (upperBoundKw i) (Fin d)"
    using envelope_max_discharge_le(1) [of i] std_max_zero(2) [of "maxDischargeKw (si_battery i)"]
    by (auto simp: upperBoundKw_def)
  ultimately show ?thesis
    using apply_bounds [OF assms(1)] by (blast intro: isfinite_between dle_trans)
qed

lemma envelope_example_simps:
  "envelope_open envelope_example" "lowerBoundKw envelope_example = Fin (- 100)"
  "upperBoundKw envelope_example = Fin 55"
  "std_clamp (si_requestedPowerKw envelope_example) (Fin (- 100)) (Fin 55) = Fin 55"
  by (simp_all add: envelope_example_def good_battery_def default_battery_def envelope_open_def
      lowerBoundKw_def upperBoundKw_def chargeProhibited_def dischargeProhibited_def
      envelope_max_charge_def envelope_max_discharge_def std_max_def std_min_def std_clamp_def)

lemma applied_within_limits:
  assumes "si_requestedPowerKw i \<noteq> NaN"
  shows "within_limits i (appliedPowerKw (SafetyEnvelope_apply i))"
proof -
  define a where "a = appliedPowerKw (SafetyEnvelope_apply i)"
  note b = apply_bounds [OF assms, folded a_def]
  have charge: "dle (dneg m) a" if "dle (envelope_max_charge i) m" for m
    using that b(1) lowerBound_le_zero [of i] envelope_max_charge_nonneg [of i]
    by (cases m; cases "envelope_max_charge i"; cases a) (auto simp: lowerBoundKw_def split: if_splits)
  have discharge: "dle a m" if "dle (envelope_max_discharge i) m" for m
    using that b(2) envelope_max_discharge_nonneg [of i]
    by (auto simp: upperBoundKw_def split: if_splits intro: dle_trans)
  have "chargeProhibited (bmsSystemFlags (si_battery i)) \<Longrightarrow> dle (Fin 0) a"
    and "dischargeProhibited (bmsSystemFlags (si_battery i)) \<Longrightarrow> dle a (Fin 0)"
    using b by (simp_all add: lowerBoundKw_def upperBoundKw_def)
  then show ?thesis
    unfolding within_limits_def a_def [symmetric]
    using charge discharge envelope_max_charge_le [of i] envelope_max_discharge_le [of i] by blast
qed

section \<open>Properties\<close>

text \<open>
  Property C2 (safety). The applied power is inside every limit that is in force: the live BMS
  limits, the configured caps, the site headroom, and the two prohibition bits; and it is zero
  unless the EMS link, the telemetry quality, the limits and the PCS prerequisites are all good.
  The request may be any double but NaN (a NaN passes \<^verbatim>\<open>std::clamp\<close> unchanged; the driver
  rejects it).
\<close>

theorem envelope_safe:
  assumes "si_requestedPowerKw i \<noteq> NaN"
  shows "within_limits i (appliedPowerKw (SafetyEnvelope_apply i)) \<and>
    (envelope_open i \<or> appliedPowerKw (SafetyEnvelope_apply i) = Fin 0)"
  using applied_within_limits [OF assms] apply_closed by blast

theorem envelope_safe_witness:
  "within_limits envelope_example (appliedPowerKw (SafetyEnvelope_apply envelope_example)) \<and>
   appliedPowerKw (SafetyEnvelope_apply envelope_example) = Fin 55"
proof
  have "si_requestedPowerKw envelope_example \<noteq> NaN"
    by (simp add: envelope_example_def)
  from envelope_safe [OF this]
  show "within_limits envelope_example (appliedPowerKw (SafetyEnvelope_apply envelope_example))"
    by blast
  show "appliedPowerKw (SafetyEnvelope_apply envelope_example) = Fin 55"
    by (simp add: envelope_example_simps apply_open)
qed

text \<open>
  The envelope is transparent inside its limits: with every gate open,
  a request between the two bounds is applied as it is, is not reported as clamped, and the
  reason is \<^verbatim>\<open>safe\<close>.
\<close>

theorem envelope_transparent:
  assumes "envelope_open i"
    and "dle (lowerBoundKw i) (si_requestedPowerKw i)" and "dle (si_requestedPowerKw i) (upperBoundKw i)"
    and "isfinite (si_requestedPowerKw i)"
  shows "SafetyEnvelope_apply i =
    \<lparr>requestedPowerKw = si_requestedPowerKw i, appliedPowerKw = si_requestedPowerKw i,
     clamped = False, reason = ''safe''\<rparr>"
proof -
  obtain x where x: "si_requestedPowerKw i = Fin x"
    using assms(4) by (auto simp: isfinite_iff)
  obtain t where t: "rnd (1 / 1000) = Fin t" "0 < t"
    by (rule tolerance_literal)
  have id: "std_clamp (Fin x) (lowerBoundKw i) (upperBoundKw i) = Fin x"
    using assms(2,3) unfolding x by (rule std_clamp_id)
  have "chargeProhibited (bmsSystemFlags (si_battery i)) \<Longrightarrow> 0 \<le> x"
    and "dischargeProhibited (bmsSystemFlags (si_battery i)) \<Longrightarrow> x \<le> 0"
    using assms(2,3) x by (auto simp: lowerBoundKw_def upperBoundKw_def)
  then show ?thesis
    using assms(1) x id t by (auto simp: SafetyEnvelope_apply_def envelope_open_def Let_def dsub_def)
qed

theorem envelope_transparent_witness:
  "appliedPowerKw (SafetyEnvelope_apply (envelope_example\<lparr>si_requestedPowerKw := Fin 20\<rparr>)) = Fin 20"
proof -
  let ?i = "envelope_example\<lparr>si_requestedPowerKw := Fin 20\<rparr>"
  have "envelope_open ?i" "lowerBoundKw ?i = Fin (- 100)" "upperBoundKw ?i = Fin 55"
    by (simp_all add: envelope_example_simps)
  then show ?thesis
    using envelope_transparent [of ?i] by simp
qed

text \<open>
  The envelope is idempotent: a command that went through it goes
  through again unchanged, so the clamp at the controller and a second evaluation agree.
\<close>

theorem envelope_idempotent:
  assumes "si_requestedPowerKw i \<noteq> NaN"
  shows "appliedPowerKw (SafetyEnvelope_apply
           (i\<lparr>si_requestedPowerKw := appliedPowerKw (SafetyEnvelope_apply i)\<rparr>)) =
         appliedPowerKw (SafetyEnvelope_apply i)"
  using apply_bounds [OF assms]
  by (cases "envelope_open i") (simp_all add: apply_closed apply_open std_clamp_id)

theorem envelope_idempotent_witness:
  "appliedPowerKw (SafetyEnvelope_apply (envelope_example\<lparr>si_requestedPowerKw := Fin 55\<rparr>)) = Fin 55"
proof -
  have "si_requestedPowerKw envelope_example \<noteq> NaN"
    by (simp add: envelope_example_def)
  from envelope_idempotent [OF this] show ?thesis
    by (simp add: envelope_example_simps apply_open)
qed

end
