(* ===== verification/ModbusClient.thy ===== *)
theory ModbusClient
  imports Prelude "HOL-Library.Sublist"
begin

text \<open>
  The transport interface \<^verbatim>\<open>IModbusClient\<close> of \<^verbatim>\<open>include/gridex/IModbusClient.hpp\<close>: five
  virtual operations over a world of type \<open>'w\<close> (the transport, the network and the device
  behind it). The vendor driver takes such a record as an argument, as its C++ constructor takes
  a reference.

  What a client does to the device is observed through a log of write attempts. The locale
  \<open>write_monitor\<close> is the contract between a transport and its observer: reads never show up in
  the log, a write shows up at most once, and a successful write always does. The driver's safety
  lemmas are proved once from this contract; it is discharged here for a recording wrapper around
  any client, and in the theory of the POSIX transport for the frames on the wire.
\<close>

section \<open>The interface\<close>

record 'w modbus_client =
  mc_readInput :: "u16 \<Rightarrow> ('w, u16 option) state"
  mc_readInputRange :: "u16 \<Rightarrow> u16 \<Rightarrow> ('w, u16 list option) state"
  mc_readHolding :: "u16 \<Rightarrow> ('w, u16 option) state"
  mc_readCoil :: "u16 \<Rightarrow> ('w, bool option) state"
  mc_writeHolding :: "u16 \<Rightarrow> u16 \<Rightarrow> ('w, bool) state"

type_synonym reg_write = "u16 \<times> u16"

section \<open>Programs and the writes they attempt\<close>

text \<open>
  \<open>writes_only lg P m\<close>: whatever world \<open>m\<close> starts in, the log only grows, and every write it
  appends satisfies \<open>P\<close>.
\<close>

definition writes_only :: "('w \<Rightarrow> reg_write list) \<Rightarrow> (reg_write \<Rightarrow> bool) \<Rightarrow> ('w, 'a) state \<Rightarrow> bool" where
  "writes_only lg P m \<longleftrightarrow>
     (\<forall>w. \<exists>ws. lg (snd (run_state m w)) = lg w @ ws \<and> list_all P ws)"

lemma writes_onlyD:
  assumes "writes_only lg P m"
  obtains ws where "lg (snd (run_state m w)) = lg w @ ws" "list_all P ws"
  using assms unfolding writes_only_def by blast

lemma writes_only_return [monitor, simp]: "writes_only lg P (State_Monad.return x)"
  by (simp add: writes_only_def)

lemma writes_only_bind [monitor]:
  assumes "writes_only lg P m" "\<And>x. writes_only lg P (f x)"
  shows "writes_only lg P (State_Monad.bind m f)"
  unfolding writes_only_def
proof
  fix w
  obtain ws where ws: "lg (snd (run_state m w)) = lg w @ ws" "list_all P ws"
    using assms(1) by (rule writes_onlyD)
  obtain vs where "lg (snd (run_state (f (fst (run_state m w))) (snd (run_state m w)))) =
      lg (snd (run_state m w)) @ vs" "list_all P vs"
    using assms(2) by (rule writes_onlyD)
  with ws show "\<exists>us. lg (snd (run_state (State_Monad.bind m f) w)) = lg w @ us \<and> list_all P us"
    by (intro exI [of _ "ws @ vs"]) simp
qed

lemma writes_only_weaken: "writes_only lg P m \<Longrightarrow> (\<And>x. P x \<Longrightarrow> Q x) \<Longrightarrow> writes_only lg Q m"
  unfolding writes_only_def by (metis (mono_tags, lifting) list_all_iff)

lemma writes_only_none: "writes_only lg (\<lambda>_. False) m \<Longrightarrow> lg (snd (run_state m w)) = lg w"
  by (erule writes_onlyD [of _ _ _ w]) (cases "lg (snd (run_state m w)) = lg w"; auto simp: neq_Nil_conv)

lemma writes_only_noneI: "(\<And>w. lg (snd (run_state m w)) = lg w) \<Longrightarrow> writes_only lg P m"
  by (simp add: writes_only_def)

text \<open>The same for one starting world, for predicates that depend on what that world answers.\<close>

definition appends :: "('w \<Rightarrow> reg_write list) \<Rightarrow> (reg_write \<Rightarrow> bool) \<Rightarrow> ('w, 'a) state \<Rightarrow> 'w \<Rightarrow> bool" where
  "appends lg P m w \<longleftrightarrow> (\<exists>ws. lg (snd (run_state m w)) = lg w @ ws \<and> list_all P ws)"

lemma writes_only_appends: "writes_only lg P m \<Longrightarrow> appends lg P m w"
  by (simp add: writes_only_def appends_def)

lemma appends_bind:
  assumes "appends lg P m w" "appends lg P (f (fst (run_state m w))) (snd (run_state m w))"
  shows "appends lg P (State_Monad.bind m f) w"
proof -
  obtain ws vs where "lg (snd (run_state m w)) = lg w @ ws" "list_all P ws"
    "lg (snd (run_state (f (fst (run_state m w))) (snd (run_state m w)))) =
      lg (snd (run_state m w)) @ vs" "list_all P vs"
    using assms unfolding appends_def by blast
  then show ?thesis unfolding appends_def by (intro exI [of _ "ws @ vs"]) simp
qed

text \<open>
  \<open>planned lg S plan m\<close>: \<open>m\<close> carries out the writes \<open>plan\<close> in order and may stop early; when its
  result satisfies \<open>S\<close> it has carried out all of them.
\<close>

definition planned :: "('w \<Rightarrow> reg_write list) \<Rightarrow> ('a \<Rightarrow> bool) \<Rightarrow> reg_write list \<Rightarrow> ('w, 'a) state \<Rightarrow> bool" where
  "planned lg S plan m \<longleftrightarrow>
     (\<forall>w. \<exists>ws. lg (snd (run_state m w)) = lg w @ ws \<and> prefix ws plan \<and>
        (S (fst (run_state m w)) \<longrightarrow> ws = plan))"

lemma plannedD:
  assumes "planned lg S plan m"
  obtains ws where "lg (snd (run_state m w)) = lg w @ ws" "prefix ws plan"
    "S (fst (run_state m w)) \<Longrightarrow> ws = plan"
  using assms unfolding planned_def by blast

lemma planned_return: "planned lg S [] (State_Monad.return x)"
  by (simp add: planned_def)

lemma planned_stop: "\<not> S x \<Longrightarrow> planned lg S plan (State_Monad.return x)"
  by (auto simp: planned_def)

lemma planned_seq:
  assumes "planned lg (\<lambda>ok. ok) ps m" "planned lg S qs (f True)" "planned lg S [] (f False)"
    "\<And>w. \<not> S (fst (run_state (f False) w))"
  shows "planned lg S (ps @ qs) (State_Monad.bind m f)"
  unfolding planned_def
proof
  fix w
  define r where "r = run_state m w"
  obtain ws where ws: "lg (snd r) = lg w @ ws" "prefix ws ps" "fst r \<Longrightarrow> ws = ps"
    using assms(1) unfolding r_def by (rule plannedD) blast
  show "\<exists>us. lg (snd (run_state (State_Monad.bind m f) w)) = lg w @ us \<and> prefix us (ps @ qs) \<and>
      (S (fst (run_state (State_Monad.bind m f) w)) \<longrightarrow> us = ps @ qs)"
  proof (cases "fst r")
    case True
    obtain vs where "lg (snd (run_state (f True) (snd r))) = lg (snd r) @ vs" "prefix vs qs"
        "S (fst (run_state (f True) (snd r))) \<Longrightarrow> vs = qs"
      using assms(2) by (rule plannedD [of _ _ _ _ "snd r"]) blast
    with ws True show ?thesis by (intro exI [of _ "ws @ vs"]) (auto simp: r_def [symmetric])
  next
    case False
    have "lg (snd (run_state (f False) (snd r))) = lg (snd r)"
      using assms(3) by (rule plannedD [of _ _ _ _ "snd r"]) auto
    with ws False assms(4) show ?thesis
      by (intro exI [of _ ws]) (auto simp: r_def [symmetric] intro: prefix_prefix)
  qed
qed

lemma planned_read:
  assumes "\<And>w. lg (snd (run_state m w)) = lg w" "\<And>x. planned lg S plan (f x)"
  shows "planned lg S plan (State_Monad.bind m f)"
  unfolding planned_def
proof
  fix w
  show "\<exists>ws. lg (snd (run_state (State_Monad.bind m f) w)) = lg w @ ws \<and> prefix ws plan \<and>
      (S (fst (run_state (State_Monad.bind m f) w)) \<longrightarrow> ws = plan)"
    using plannedD [OF assms(2), of "fst (run_state m w)" "snd (run_state m w)"] assms(1) by auto
qed

section \<open>The contract of an observed transport\<close>

locale write_monitor =
  fixes c :: "'w modbus_client" and lg :: "'w \<Rightarrow> reg_write list"
  assumes readInput_quiet: "lg (snd (run_state (mc_readInput c a) w)) = lg w"
    and readInputRange_quiet: "lg (snd (run_state (mc_readInputRange c a n) w)) = lg w"
    and readHolding_quiet: "lg (snd (run_state (mc_readHolding c a) w)) = lg w"
    and readCoil_quiet: "lg (snd (run_state (mc_readCoil c a) w)) = lg w"
    and write_logged: "lg (snd (run_state (mc_writeHolding c a v) w)) = lg w \<or>
      lg (snd (run_state (mc_writeHolding c a v) w)) = lg w @ [(a, v)]"
    and write_ok_logged: "fst (run_state (mc_writeHolding c a v) w) \<Longrightarrow>
      lg (snd (run_state (mc_writeHolding c a v) w)) = lg w @ [(a, v)]"
begin

lemmas reads_quiet [simp] = readInput_quiet readInputRange_quiet readHolding_quiet readCoil_quiet

lemma read_monitor [monitor]:
  "writes_only lg P (mc_readInput c a)" "writes_only lg P (mc_readInputRange c a n)"
  "writes_only lg P (mc_readHolding c a)" "writes_only lg P (mc_readCoil c a)"
  by (simp_all add: writes_only_noneI)

lemma write_monitor [monitor]: "P (a, v) \<Longrightarrow> writes_only lg P (mc_writeHolding c a v)"
  unfolding writes_only_def
proof
  fix w
  assume "P (a, v)"
  with write_logged [of a v w]
  show "\<exists>ws. lg (snd (run_state (mc_writeHolding c a v) w)) = lg w @ ws \<and> list_all P ws"
    by (elim disjE) (auto intro: exI [of _ "[(a, v)]"])
qed

text \<open>One write: what was logged is a prefix of the intended write, all of it on success.\<close>

lemma write_prefix:
  "\<exists>ws. lg (snd (run_state (mc_writeHolding c a v) w)) = lg w @ ws \<and> prefix ws [(a, v)] \<and>
     (fst (run_state (mc_writeHolding c a v) w) \<longrightarrow> ws = [(a, v)])"
  using write_logged [of a v w] write_ok_logged [of a v w] by auto

lemma planned_write: "planned lg (\<lambda>ok. ok) [(a, v)] (mc_writeHolding c a v)"
  using write_prefix unfolding planned_def by blast

end

section \<open>The recording wrapper\<close>

text \<open>The same client with a log of attempted writes beside its world, as the test double of
  \<^verbatim>\<open>tests/test_main.cpp\<close> keeps one. Without the log it is the original client.\<close>

definition lift_log :: "reg_write list \<Rightarrow> ('w, 'a) state \<Rightarrow> ('w \<times> reg_write list, 'a) state" where
  "lift_log ws m = State (\<lambda>(w, l). let r = run_state m w in (fst r, (snd r, l @ ws)))"

definition recording :: "'w modbus_client \<Rightarrow> ('w \<times> reg_write list) modbus_client" where
  "recording c = \<lparr>mc_readInput = \<lambda>a. lift_log [] (mc_readInput c a),
     mc_readInputRange = \<lambda>a n. lift_log [] (mc_readInputRange c a n),
     mc_readHolding = \<lambda>a. lift_log [] (mc_readHolding c a),
     mc_readCoil = \<lambda>a. lift_log [] (mc_readCoil c a),
     mc_writeHolding = \<lambda>a v. lift_log [(a, v)] (mc_writeHolding c a v)\<rparr>"

lemma run_lift_log [simp]:
  "fst (run_state (lift_log ws m) wl) = fst (run_state m (fst wl))"
  "fst (snd (run_state (lift_log ws m) wl)) = snd (run_state m (fst wl))"
  "snd (snd (run_state (lift_log ws m) wl)) = snd wl @ ws"
  by (simp_all add: lift_log_def case_prod_beta Let_def)

interpretation rec: write_monitor "recording c" snd for c :: "'w modbus_client"
  by unfold_locales (simp_all add: recording_def)

text \<open>
  \<open>erases m' m\<close>: the recording program computes what the plain one does. The relation is closed
  under the monad operations and holds for each operation of the wrapper, so the log is a pure
  observer.
\<close>

definition erases :: "('w \<times> reg_write list, 'a) state \<Rightarrow> ('w, 'a) state \<Rightarrow> bool" where
  "erases m' m \<longleftrightarrow> (\<forall>wl. fst (run_state m' wl) = fst (run_state m (fst wl)) \<and>
     fst (snd (run_state m' wl)) = snd (run_state m (fst wl)))"

lemma erases_return: "erases (State_Monad.return x) (State_Monad.return x)"
  by (simp add: erases_def)

lemma erases_bind:
  "erases m' m \<Longrightarrow> (\<And>x. erases (f' x) (f x)) \<Longrightarrow> erases (State_Monad.bind m' f') (State_Monad.bind m f)"
  by (simp add: erases_def del: split_paired_All)

lemma erases_recording:
  "erases (mc_readInput (recording c) a) (mc_readInput c a)"
  "erases (mc_readInputRange (recording c) a n) (mc_readInputRange c a n)"
  "erases (mc_readHolding (recording c) a) (mc_readHolding c a)"
  "erases (mc_readCoil (recording c) a) (mc_readCoil c a)"
  "erases (mc_writeHolding (recording c) a v) (mc_writeHolding c a v)"
  by (simp_all add: erases_def recording_def)

lemmas erases_rules = erases_return erases_bind erases_recording

section \<open>A device on the bench\<close>

text \<open>
  The client of \<^verbatim>\<open>tests/test_main.cpp\<close>: three register tables, a missing entry is a failed
  read, and a write stores its value and reports \<^verbatim>\<open>writesSucceed\<close>. It serves as the concrete
  transport of the examples.
\<close>

record bench =
  b_input :: "u16 \<Rightarrow> u16 option"
  b_holding :: "u16 \<Rightarrow> u16 option"
  b_coils :: "u16 \<Rightarrow> bool option"
  b_writesSucceed :: bool

definition bench_client :: "bench modbus_client" where
  "bench_client = \<lparr>mc_readInput = \<lambda>a. State (\<lambda>w. (b_input w a, w)),
     mc_readInputRange = \<lambda>a n. State (\<lambda>w. (those (map (\<lambda>i. b_input w (a + of_nat i)) [0..<unat n]), w)),
     mc_readHolding = \<lambda>a. State (\<lambda>w. (b_holding w a, w)),
     mc_readCoil = \<lambda>a. State (\<lambda>w. (b_coils w a, w)),
     mc_writeHolding = \<lambda>a v. State (\<lambda>w. (b_writesSucceed w, w\<lparr>b_holding := (b_holding w)(a \<mapsto> v)\<rparr>))\<rparr>"

lemma bench_run [simp]:
  "run_state (mc_readInput bench_client a) w = (b_input w a, w)"
  "run_state (mc_readInputRange bench_client a n) w =
     (those (map (\<lambda>i. b_input w (a + of_nat i)) [0..<unat n]), w)"
  "run_state (mc_readHolding bench_client a) w = (b_holding w a, w)"
  "run_state (mc_readCoil bench_client a) w = (b_coils w a, w)"
  "run_state (mc_writeHolding bench_client a v) w =
     (b_writesSucceed w, w\<lparr>b_holding := (b_holding w)(a \<mapsto> v)\<rparr>)"
  by (simp_all add: bench_client_def)

end
