(* ===== verification/SunStorage.thy ===== *)
theory SunStorage
  imports SafetyEnvelope ModbusClient
begin

text \<open>
  The vendor driver \<^verbatim>\<open>SunStoragePro261Driver\<close>
  (\<^verbatim>\<open>include/gridex/SunStoragePro261Driver.hpp\<close>, \<^verbatim>\<open>src/SunStoragePro261Driver.cpp\<close>): the
  register addresses, the signed register codecs, the poll that reads one telemetry snapshot, and
  the four guarded write operations. The driver object is the record \<open>sun_driver\<close>; the client
  it holds a reference to is the argument \<open>c\<close>. A write operation returns \<open>None\<close> where a
  register conversion would be undefined in C++; the lemmas show that it never does.
\<close>

section \<open>Registers and approval\<close>

record commissioning_approval =
  addressingConfirmed :: bool
  signConfirmed :: bool
  scalingConfirmed :: bool
  int32WordOrderConfirmed :: bool
  int32HighWordFirst :: bool

definition approval_writesEnabled :: "commissioning_approval \<Rightarrow> bool" where
  "approval_writesEnabled a = (addressingConfirmed a \<and> signConfirmed a \<and> scalingConfirmed a)"

definition R_PcsFault :: u16 where [simp]: "R_PcsFault = 1"
definition R_PcsOffGrid :: u16 where [simp]: "R_PcsOffGrid = 2"
definition R_PcsWarning :: u16 where [simp]: "R_PcsWarning = 3"
definition R_PcsCommunicationFault :: u16 where [simp]: "R_PcsCommunicationFault = 4"
definition R_PcsActivePower :: u16 where [simp]: "R_PcsActivePower = 9"
definition R_PcsReactivePower :: u16 where [simp]: "R_PcsReactivePower = 10"
definition R_PcsDcPower :: u16 where [simp]: "R_PcsDcPower = 12"
definition R_PcsFrequency :: u16 where [simp]: "R_PcsFrequency = 13"
definition R_PcsCommandedPower :: u16 where [simp]: "R_PcsCommandedPower = 14"
definition R_PcsStatus :: u16 where [simp]: "R_PcsStatus = 16"
definition R_BmsCurrent :: u16 where [simp]: "R_BmsCurrent = 101"
definition R_BmsSoc :: u16 where [simp]: "R_BmsSoc = 102"
definition R_BmsSoh :: u16 where [simp]: "R_BmsSoh = 103"
definition R_BmsVoltage :: u16 where [simp]: "R_BmsVoltage = 104"
definition R_BmsStatus :: u16 where [simp]: "R_BmsStatus = 105"
definition R_BmsAccumulatedChargeEnergy :: u16 where [simp]: "R_BmsAccumulatedChargeEnergy = 122"
definition R_BmsAccumulatedDischargeEnergy :: u16 where [simp]: "R_BmsAccumulatedDischargeEnergy = 124"
definition R_BmsSystemFlags :: u16 where [simp]: "R_BmsSystemFlags = 126"
definition R_BmsMaxChargePower :: u16 where [simp]: "R_BmsMaxChargePower = 127"
definition R_BmsMaxDischargePower :: u16 where [simp]: "R_BmsMaxDischargePower = 128"
definition R_BmsDailyChargeEnergy :: u16 where [simp]: "R_BmsDailyChargeEnergy = 129"
definition R_BmsDailyDischargeEnergy :: u16 where [simp]: "R_BmsDailyDischargeEnergy = 130"
definition R_BmsAlarm :: u16 where [simp]: "R_BmsAlarm = 183"
definition R_BmsFault :: u16 where [simp]: "R_BmsFault = 184"
definition R_BmsCommunicationFault :: u16 where [simp]: "R_BmsCommunicationFault = 185"
definition R_PcsGridMode :: u16 where [simp]: "R_PcsGridMode = 5001"
definition R_PcsWorkMode :: u16 where [simp]: "R_PcsWorkMode = 5002"
definition R_PcsPowerOn :: u16 where [simp]: "R_PcsPowerOn = 5003"
definition R_PcsPowerCommand :: u16 where [simp]: "R_PcsPowerCommand = 5005"
definition R_PcsReactivePowerCommand :: u16 where [simp]: "R_PcsReactivePowerCommand = 5006"
definition R_PcsSocUpperLimit :: u16 where [simp]: "R_PcsSocUpperLimit = 5007"
definition R_PcsSocLowerLimit :: u16 where [simp]: "R_PcsSocLowerLimit = 5008"
definition R_HeartbeatSeconds :: u16 where [simp]: "R_HeartbeatSeconds = 5301"
definition R_HeartbeatEnable :: u16 where [simp]: "R_HeartbeatEnable = 5302"

section \<open>Register codecs\<close>

definition decodeSigned :: "u16 \<Rightarrow> dbl \<Rightarrow> dbl" where
  "decodeSigned raw scale = ddiv (Fin (of_int (sint raw))) scale"

definition encodeSigned :: "dbl \<Rightarrow> dbl \<Rightarrow> u16 option" where
  "encodeSigned value scale = map_option word_of_int (clamp_round (- 32768) 32767 (dmul value scale))"

definition decodeSigned32 :: "u16 \<Rightarrow> u16 \<Rightarrow> dbl \<Rightarrow> dbl" where
  "decodeSigned32 high low scale =
     (let raw = push_bit 16 (ucast high) OR ucast low :: u32
      in ddiv (Fin (of_int (sint raw))) scale)"

section \<open>The driver object and the poll\<close>

record sun_driver =
  d_approval :: commissioning_approval
  d_controlReady :: bool
  d_limitsValid :: bool
  d_maxChargeKw :: dbl
  d_maxDischargeKw :: dbl
  d_bmsSystemFlags :: u16
  d_telemetryValid :: bool
  d_faultsClear :: bool
  d_gridModeReady :: bool
  d_workModeReady :: bool

definition new_driver :: "commissioning_approval \<Rightarrow> sun_driver" where
  "new_driver a = \<lparr>d_approval = a, d_controlReady = False, d_limitsValid = False,
     d_maxChargeKw = Fin 0, d_maxDischargeKw = Fin 0, d_bmsSystemFlags = 0,
     d_telemetryValid = False, d_faultsClear = False, d_gridModeReady = False,
     d_workModeReady = False\<rparr>"

definition writesEnabled :: "sun_driver \<Rightarrow> bool" where
  "writesEnabled d = approval_writesEnabled (d_approval d)"

text \<open>The 28 reads of one poll, in the order the code issues them.\<close>

record poll_raw =
  p_pcsFault :: "bool option"
  p_pcsOffGrid :: "bool option"
  p_pcsWarning :: "bool option"
  p_pcsCommunicationFault :: "bool option"
  p_bmsAlarm :: "bool option"
  p_bmsFault :: "bool option"
  p_bmsCommunicationFault :: "bool option"
  p_pcsGridMode :: "u16 option"
  p_pcsWorkMode :: "u16 option"
  p_pcsPowerOn :: "u16 option"
  p_socUpperLimit :: "u16 option"
  p_socLowerLimit :: "u16 option"
  p_actualPower :: "u16 option"
  p_reactivePower :: "u16 option"
  p_dcPower :: "u16 option"
  p_frequency :: "u16 option"
  p_commandedPower :: "u16 option"
  p_pcsStatus :: "u16 option"
  p_current :: "u16 option"
  p_soc :: "u16 option"
  p_soh :: "u16 option"
  p_voltage :: "u16 option"
  p_status :: "u16 option"
  p_accumulatedEnergy :: "u16 list option"
  p_systemFlags :: "u16 option"
  p_maxCharge :: "u16 option"
  p_maxDischarge :: "u16 option"
  p_dailyCharge :: "u16 option"
  p_dailyDischarge :: "u16 option"

definition poll_reads :: "'w modbus_client \<Rightarrow> ('w, poll_raw) state" where
  "poll_reads c = do {
     pcsFault \<leftarrow> mc_readCoil c R_PcsFault;
     pcsOffGrid \<leftarrow> mc_readCoil c R_PcsOffGrid;
     pcsWarning \<leftarrow> mc_readCoil c R_PcsWarning;
     pcsCommunicationFault \<leftarrow> mc_readCoil c R_PcsCommunicationFault;
     bmsAlarm \<leftarrow> mc_readCoil c R_BmsAlarm;
     bmsFault \<leftarrow> mc_readCoil c R_BmsFault;
     bmsCommunicationFault \<leftarrow> mc_readCoil c R_BmsCommunicationFault;
     pcsGridMode \<leftarrow> mc_readHolding c R_PcsGridMode;
     pcsWorkMode \<leftarrow> mc_readHolding c R_PcsWorkMode;
     pcsPowerOn \<leftarrow> mc_readHolding c R_PcsPowerOn;
     socUpperLimit \<leftarrow> mc_readHolding c R_PcsSocUpperLimit;
     socLowerLimit \<leftarrow> mc_readHolding c R_PcsSocLowerLimit;
     actualPower \<leftarrow> mc_readInput c R_PcsActivePower;
     reactivePower \<leftarrow> mc_readInput c R_PcsReactivePower;
     dcPower \<leftarrow> mc_readInput c R_PcsDcPower;
     frequency \<leftarrow> mc_readInput c R_PcsFrequency;
     commandedPower \<leftarrow> mc_readInput c R_PcsCommandedPower;
     pcsStatus \<leftarrow> mc_readInput c R_PcsStatus;
     current \<leftarrow> mc_readInput c R_BmsCurrent;
     soc \<leftarrow> mc_readInput c R_BmsSoc;
     soh \<leftarrow> mc_readInput c R_BmsSoh;
     voltage \<leftarrow> mc_readInput c R_BmsVoltage;
     status \<leftarrow> mc_readInput c R_BmsStatus;
     accumulatedEnergy \<leftarrow> mc_readInputRange c R_BmsAccumulatedChargeEnergy 4;
     systemFlags \<leftarrow> mc_readInput c R_BmsSystemFlags;
     maxCharge \<leftarrow> mc_readInput c R_BmsMaxChargePower;
     maxDischarge \<leftarrow> mc_readInput c R_BmsMaxDischargePower;
     dailyCharge \<leftarrow> mc_readInput c R_BmsDailyChargeEnergy;
     dailyDischarge \<leftarrow> mc_readInput c R_BmsDailyDischargeEnergy;
     State_Monad.return \<lparr>p_pcsFault = pcsFault, p_pcsOffGrid = pcsOffGrid,
       p_pcsWarning = pcsWarning, p_pcsCommunicationFault = pcsCommunicationFault,
       p_bmsAlarm = bmsAlarm, p_bmsFault = bmsFault,
       p_bmsCommunicationFault = bmsCommunicationFault, p_pcsGridMode = pcsGridMode,
       p_pcsWorkMode = pcsWorkMode, p_pcsPowerOn = pcsPowerOn, p_socUpperLimit = socUpperLimit,
       p_socLowerLimit = socLowerLimit, p_actualPower = actualPower,
       p_reactivePower = reactivePower, p_dcPower = dcPower, p_frequency = frequency,
       p_commandedPower = commandedPower, p_pcsStatus = pcsStatus, p_current = current,
       p_soc = soc, p_soh = soh, p_voltage = voltage, p_status = status,
       p_accumulatedEnergy = accumulatedEnergy, p_systemFlags = systemFlags,
       p_maxCharge = maxCharge, p_maxDischarge = maxDischarge, p_dailyCharge = dailyCharge,
       p_dailyDischarge = dailyDischarge\<rparr>
   }"

text \<open>The required values; a missing one invalidates the whole snapshot.\<close>

definition poll_complete :: "poll_raw \<Rightarrow> bool" where
  "poll_complete r \<longleftrightarrow>
     p_pcsFault r \<noteq> None \<and> p_pcsOffGrid r \<noteq> None \<and> p_pcsCommunicationFault r \<noteq> None \<and>
     p_bmsFault r \<noteq> None \<and> p_bmsCommunicationFault r \<noteq> None \<and> p_pcsGridMode r \<noteq> None \<and>
     p_pcsWorkMode r \<noteq> None \<and> p_pcsPowerOn r \<noteq> None \<and> p_actualPower r \<noteq> None \<and>
     p_current r \<noteq> None \<and> p_soc r \<noteq> None \<and> p_soh r \<noteq> None \<and> p_voltage r \<noteq> None \<and>
     p_status r \<noteq> None \<and> p_systemFlags r \<noteq> None \<and> p_maxCharge r \<noteq> None \<and>
     p_maxDischarge r \<noteq> None"

definition opt_decode :: "u16 option \<Rightarrow> dbl \<Rightarrow> dbl" where
  "opt_decode x scale = (case x of None \<Rightarrow> Fin 0 | Some raw \<Rightarrow> decodeSigned raw scale)"

definition energy_words :: "commissioning_approval \<Rightarrow> u16 list option \<Rightarrow> nat \<Rightarrow> dbl" where
  "energy_words a e i = (case e of None \<Rightarrow> Fin 0
     | Some ws \<Rightarrow> if length ws \<noteq> 4 then Fin 0
       else decodeSigned32
         (if int32HighWordFirst a then ws ! i else ws ! (i + 1))
         (if int32HighWordFirst a then ws ! (i + 1) else ws ! i) (Fin 10))"

definition telemetry_of :: "commissioning_approval \<Rightarrow> poll_raw \<Rightarrow> battery_telemetry" where
  "telemetry_of a r =
     (let raw = (\<lambda>f. the (f r)); flag = (\<lambda>f. the (f r));
          powerOn = (raw p_pcsPowerOn = 1);
          gridTied = (raw p_pcsGridMode = 0 \<and> \<not> flag p_pcsOffGrid);
          currentSource = (raw p_pcsWorkMode = 1);
          soc = decodeSigned (raw p_soc) (Fin 10);
          decodedMaxChargeKw = decodeSigned (raw p_maxCharge) (Fin 10);
          decodedMaxDischargeKw = decodeSigned (raw p_maxDischarge) (Fin 10);
          limits = (dle (Fin 0) decodedMaxChargeKw \<and> dle (Fin 0) decodedMaxDischargeKw \<and>
                    dle (Fin 0) soc \<and> dle soc (Fin 100))
      in \<lparr>actualPowerKw = decodeSigned (raw p_actualPower) (Fin 10),
          commandedPowerKw = opt_decode (p_commandedPower r) (Fin 10),
          dcPowerKw = opt_decode (p_dcPower r) (Fin 10),
          reactivePowerKvar = opt_decode (p_reactivePower r) (Fin 10),
          frequencyHz = opt_decode (p_frequency r) (Fin 100),
          socPct = soc,
          sohPct = decodeSigned (raw p_soh) (Fin 1),
          voltageV = decodeSigned (raw p_voltage) (Fin 10),
          currentA = decodeSigned (raw p_current) (Fin 10),
          maxChargeKw = std_max (Fin 0) decodedMaxChargeKw,
          maxDischargeKw = std_max (Fin 0) decodedMaxDischargeKw,
          accumulatedChargeKwh = energy_words a (p_accumulatedEnergy r) 0,
          accumulatedDischargeKwh = energy_words a (p_accumulatedEnergy r) 2,
          dailyChargeKwh = opt_decode (p_dailyCharge r) (Fin 10),
          dailyDischargeKwh = opt_decode (p_dailyDischarge r) (Fin 10),
          socUpperLimitPct = opt_decode (p_socUpperLimit r) (Fin 1),
          socLowerLimitPct = opt_decode (p_socLowerLimit r) (Fin 1),
          statusCode = raw p_status,
          pcsStatusCode = (case p_pcsStatus r of None \<Rightarrow> 0 | Some s \<Rightarrow> s),
          bmsSystemFlags = raw p_systemFlags,
          quality = (if limits then QGood else QInvalid),
          limitsValid = limits,
          pcsPowerOn = powerOn,
          pcsGridTied = gridTied,
          pcsCurrentSourceMode = currentSource,
          pcsFault = flag p_pcsFault,
          pcsCommunicationFault = flag p_pcsCommunicationFault,
          bmsFault = flag p_bmsFault,
          bmsCommunicationFault = flag p_bmsCommunicationFault,
          bmsAlarm = (case p_bmsAlarm r of None \<Rightarrow> True | Some b \<Rightarrow> b),
          pcsWarning = (case p_pcsWarning r of None \<Rightarrow> True | Some b \<Rightarrow> b),
          extendedTelemetryValid =
            (p_pcsWarning r \<noteq> None \<and> p_bmsAlarm r \<noteq> None \<and> p_socUpperLimit r \<noteq> None \<and>
             p_socLowerLimit r \<noteq> None \<and> p_reactivePower r \<noteq> None \<and> p_dcPower r \<noteq> None \<and>
             p_frequency r \<noteq> None \<and> p_commandedPower r \<noteq> None \<and> p_pcsStatus r \<noteq> None \<and>
             (case p_accumulatedEnergy r of None \<Rightarrow> False | Some ws \<Rightarrow> length ws = 4) \<and>
             p_dailyCharge r \<noteq> None \<and> p_dailyDischarge r \<noteq> None \<and> int32WordOrderConfirmed a),
          controlReady = (powerOn \<and> gridTied \<and> currentSource \<and> \<not> flag p_pcsFault \<and>
            \<not> flag p_pcsCommunicationFault \<and> \<not> flag p_bmsFault \<and> \<not> flag p_bmsCommunicationFault)\<rparr>)"

text \<open>The private members after a poll; a failed poll keeps the last limits but disables them.\<close>

definition driver_after_poll :: "sun_driver \<Rightarrow> poll_raw \<Rightarrow> sun_driver" where
  "driver_after_poll d r =
     (if \<not> poll_complete r then
        d\<lparr>d_controlReady := False, d_limitsValid := False, d_telemetryValid := False,
          d_faultsClear := False, d_gridModeReady := False, d_workModeReady := False\<rparr>
      else let v = telemetry_of (d_approval d) r in
        d\<lparr>d_controlReady := controlReady v, d_telemetryValid := True,
          d_faultsClear := (\<not> pcsFault v \<and> \<not> pcsCommunicationFault v \<and> \<not> bmsFault v \<and>
            \<not> bmsCommunicationFault v),
          d_gridModeReady := pcsGridTied v, d_workModeReady := pcsCurrentSourceMode v,
          d_limitsValid := limitsValid v, d_maxChargeKw := maxChargeKw v,
          d_maxDischargeKw := maxDischargeKw v, d_bmsSystemFlags := bmsSystemFlags v\<rparr>)"

definition poll_value :: "sun_driver \<Rightarrow> poll_raw \<Rightarrow> battery_telemetry" where
  "poll_value d r = (if poll_complete r then telemetry_of (d_approval d) r
     else default_battery\<lparr>quality := QInvalid, limitsValid := False\<rparr>)"

definition poll :: "'w modbus_client \<Rightarrow> sun_driver \<Rightarrow> ('w, battery_telemetry \<times> sun_driver) state" where
  "poll c d = do {
     r \<leftarrow> poll_reads c;
     State_Monad.return (poll_value d r, driver_after_poll d r)
   }"

section \<open>Write operations\<close>

definition refreshHeartbeat :: "'w modbus_client \<Rightarrow> sun_driver \<Rightarrow> u16 \<Rightarrow> ('w, bool) state" where
  "refreshHeartbeat c d timeoutSeconds =
     (if \<not> writesEnabled d then State_Monad.return False
      else do {
        enabled \<leftarrow> mc_writeHolding c R_HeartbeatEnable 1;
        if enabled then mc_writeHolding c R_HeartbeatSeconds timeoutSeconds
        else State_Monad.return False
      })"

definition toleranceKw :: dbl where
  "toleranceKw = rnd (1 / 1000)"

definition setpoint_rejected :: "sun_driver \<Rightarrow> dbl \<Rightarrow> bool" where
  "setpoint_rejected d p \<longleftrightarrow>
     (dlt p (dneg toleranceKw) \<and>
      (chargeProhibited (d_bmsSystemFlags d) \<or> dlt (dadd (d_maxChargeKw d) toleranceKw) (dneg p))) \<or>
     (dlt toleranceKw p \<and>
      (dischargeProhibited (d_bmsSystemFlags d) \<or> dlt (dadd (d_maxDischargeKw d) toleranceKw) p))"

definition writePowerSetpointKw ::
  "'w modbus_client \<Rightarrow> sun_driver \<Rightarrow> dbl \<Rightarrow> ('w, bool option) state" where
  "writePowerSetpointKw c d p =
     (if \<not> writesEnabled d \<or> \<not> d_controlReady d \<or> \<not> d_limitsValid d \<or> \<not> isfinite p
      then State_Monad.return (Some False)
      else if setpoint_rejected d p then State_Monad.return (Some False)
      else case encodeSigned p (Fin 10) of None \<Rightarrow> State_Monad.return None
        | Some raw \<Rightarrow> do {
            ok \<leftarrow> mc_writeHolding c R_PcsPowerCommand raw;
            State_Monad.return (Some ok)
          })"

definition writeReactivePowerSetpointKvar ::
  "'w modbus_client \<Rightarrow> sun_driver \<Rightarrow> dbl \<Rightarrow> ('w, bool option) state" where
  "writeReactivePowerSetpointKvar c d q =
     (if \<not> writesEnabled d \<or> \<not> d_controlReady d \<or> \<not> isfinite q
      then State_Monad.return (Some False)
      else case encodeSigned q (Fin 10) of None \<Rightarrow> State_Monad.return None
        | Some raw \<Rightarrow> do {
            ok \<leftarrow> mc_writeHolding c R_PcsReactivePowerCommand raw;
            State_Monad.return (Some ok)
          })"

definition writePowerState ::
  "'w modbus_client \<Rightarrow> sun_driver \<Rightarrow> bool \<Rightarrow> ('w, bool option \<times> sun_driver) state" where
  "writePowerState c d powerOn =
     (if \<not> writesEnabled d \<or> \<not> d_telemetryValid d then State_Monad.return (Some False, d)
      else if powerOn then
        (if \<not> d_faultsClear d \<or> \<not> d_gridModeReady d \<or> \<not> d_workModeReady d
         then State_Monad.return (Some False, d)
         else do {
           ok \<leftarrow> mc_writeHolding c R_PcsPowerOn 1;
           State_Monad.return (Some ok, d)
         })
      else case encodeSigned (Fin 0) (Fin 10) of None \<Rightarrow> State_Monad.return (None, d)
        | Some zero \<Rightarrow> do {
            zeroWritten \<leftarrow> mc_writeHolding c R_PcsPowerCommand zero;
            stopped \<leftarrow> mc_writeHolding c R_PcsPowerOn 0;
            State_Monad.return (Some (zeroWritten \<and> stopped),
              if stopped then d\<lparr>d_controlReady := False\<rparr> else d)
          })"

text \<open>\<^verbatim>\<open>condition && !client.writeHolding(..)\<close>: the write is attempted only under the condition.\<close>

definition write_when :: "'w modbus_client \<Rightarrow> bool \<Rightarrow> u16 \<Rightarrow> u16 \<Rightarrow> ('w, bool) state" where
  "write_when c b a v = (if b then mc_writeHolding c a v else State_Monad.return True)"

definition writeSocLimitsPct ::
  "'w modbus_client \<Rightarrow> sun_driver \<Rightarrow> dbl \<Rightarrow> dbl \<Rightarrow> ('w, bool option) state" where
  "writeSocLimitsPct c d lowerPct upperPct =
     (if \<not> writesEnabled d \<or> \<not> d_telemetryValid d \<or> \<not> isfinite lowerPct \<or> \<not> isfinite upperPct \<or>
         dlt lowerPct (Fin 0) \<or> dlt (Fin 100) upperPct \<or> dle upperPct lowerPct
      then State_Monad.return (Some False)
      else do {
        currentUpper \<leftarrow> mc_readHolding c R_PcsSocUpperLimit;
        currentLower \<leftarrow> mc_readHolding c R_PcsSocLowerLimit;
        case (currentUpper, currentLower) of (Some cu, Some cl) \<Rightarrow>
          (case (encodeSigned upperPct (Fin 1), encodeSigned lowerPct (Fin 1)) of
             (Some requestedUpper, Some requestedLower) \<Rightarrow>
               (let oldUpper = decodeSigned cu (Fin 1); oldLower = decodeSigned cl (Fin 1) in do {
                  ok1 \<leftarrow> write_when c (dlt oldUpper upperPct) R_PcsSocUpperLimit requestedUpper;
                  if \<not> ok1 then State_Monad.return (Some False) else do {
                  ok2 \<leftarrow> write_when c (dlt lowerPct oldLower) R_PcsSocLowerLimit requestedLower;
                  if \<not> ok2 then State_Monad.return (Some False) else do {
                  ok3 \<leftarrow> write_when c (dle upperPct oldUpper) R_PcsSocUpperLimit requestedUpper;
                  if \<not> ok3 then State_Monad.return (Some False) else do {
                  ok4 \<leftarrow> write_when c (dle oldLower lowerPct) R_PcsSocLowerLimit requestedLower;
                  State_Monad.return (Some ok4)
                }}}})
           | _ \<Rightarrow> State_Monad.return None)
        | _ \<Rightarrow> State_Monad.return (Some False)
      })"

section \<open>The codecs\<close>

lemma sint_of_int16:
  assumes "- 32768 \<le> k" "k \<le> 32767" shows "sint (word_of_int k :: u16) = k"
  using assms by (simp add: sint_sbintrunc' signed_take_bit_int_eq_self)

lemma sint16_bounds: "- 32768 \<le> sint (w :: u16)" "sint w \<le> 32767"
  using sint_ge [of w] sint_lt [of w] by simp_all

lemma encodeSigned_Some:
  "encodeSigned v s = Some w \<longleftrightarrow> (\<exists>k. clamp_round (- 32768) 32767 (dmul v s) = Some k \<and> w = word_of_int k)"
  by (auto simp: encodeSigned_def)

lemma encodeSigned_defined:
  assumes "v \<noteq> NaN" "0 < s" obtains w where "encodeSigned v (Fin s) = Some w"
  using clamp_round_defined [OF _ dmul_scale_not_NaN [OF assms], of "- 32768" 32767]
  by (auto simp: encodeSigned_def)

lemma encodeSigned_le:
  assumes "encodeSigned (Fin x) (Fin s) = Some w" "x * s \<le> of_int n + 2 / 5" "0 \<le> n" "n \<le> 32767"
  shows "sint w \<le> n"
proof -
  have "n \<le> 2 ^ 40" using assms(4) by simp
  from rnd_le_int [OF assms(2,3) this] assms(1,3,4) show ?thesis
    by (auto simp: encodeSigned_Some sint_of_int16)
qed

lemma encodeSigned_ge:
  assumes "encodeSigned (Fin x) (Fin s) = Some w" "- of_int n - 2 / 5 \<le> x * s" "0 \<le> n" "n \<le> 32767"
  shows "- n \<le> sint w"
proof -
  have "n \<le> 2 ^ 40" using assms(4) by simp
  from rnd_ge_int [OF assms(2,3) this] assms(1,3,4) show ?thesis
    by (auto simp: encodeSigned_Some sint_of_int16)
qed

lemma decodeSigned_close:
  assumes "s = 1 \<or> s = 10 \<or> s = 100"
  obtains v where "decodeSigned w (Fin s) = Fin v" "\<bar>v * s - of_int (sint w)\<bar> \<le> 1 / 1000000"
proof -
  have "\<bar>sint w\<bar> \<le> 2 ^ 31" using sint16_bounds [of w] by simp
  from this assms obtain v where v: "rnd (of_int (sint w) / s) = Fin v"
      "\<bar>v * s - of_int (sint w)\<bar> \<le> 1 / 1000000"
    by (rule decode_close)
  have "s \<noteq> 0" using assms by auto
  then have "decodeSigned w (Fin s) = Fin v" by (simp add: decodeSigned_def v(1))
  with v(2) that show ?thesis by blast
qed

lemma decodeSigned_isfinite:
  assumes "s = 1 \<or> s = 10 \<or> s = 100" shows "isfinite (decodeSigned w (Fin s))"
  by (rule decodeSigned_close [OF assms, of w]) simp

lemmas decodeSigned_finite [simp] = decodeSigned_isfinite [of 1, simplified]
  decodeSigned_isfinite [of 10, simplified] decodeSigned_isfinite [of 100, simplified]

lemma decodeSigned32_finite [simp]: "isfinite (decodeSigned32 h l (Fin 10))"
proof -
  define r :: u32 where "r = push_bit 16 (ucast h) OR ucast l"
  have "\<bar>sint r\<bar> \<le> 2 ^ 31" using sint_ge [of r] sint_lt [of r] by simp
  then obtain v where "rnd (of_int (sint r) / 10) = Fin v"
    using decode_close [of "sint r" 10] by blast
  then show ?thesis by (simp add: decodeSigned32_def Let_def r_def [symmetric])
qed

text \<open>A live limit register, read and clipped at zero, in integer tenths of a kilowatt.\<close>

lemma limit_close:
  obtains m where "std_max (Fin 0) (decodeSigned w (Fin 10)) = Fin m" "0 \<le> m"
    "\<bar>m * 10 - of_int (max 0 (sint w))\<bar> \<le> 1 / 1000000"
proof -
  obtain v where v: "decodeSigned w (Fin 10) = Fin v" "\<bar>v * 10 - of_int (sint w)\<bar> \<le> 1 / 1000000"
    by (rule decodeSigned_close) auto
  show ?thesis
  proof (cases "0 < v")
    case True
    then have "- 1 < rat_of_int (sint w)" using v(2) by linarith
    then have "rat_of_int (- 1) < rat_of_int (sint w)" by simp
    then have "0 \<le> sint w" by (simp only: of_int_less_iff)
    then show ?thesis using that [of v] v True by (simp add: std_max_def max_def)
  next
    case False
    then have "rat_of_int (sint w) < 1" using v(2) by linarith
    then have "sint w \<le> 0" by simp
    then show ?thesis using that [of 0] v False by (simp add: std_max_def max_def)
  qed
qed

text \<open>The tolerance of the second clamp is far below half a register step.\<close>

lemma toleranceKw_value:
  obtains t where "toleranceKw = Fin t" "9 / 10000 < t" "t < 11 / 10000"
  unfolding toleranceKw_def by (rule tolerance_literal)

lemma tolerance_sum:
  assumes "0 \<le> m" "m \<le> 4000"
  obtains z where "dadd (Fin m) toleranceKw = Fin z" "m \<le> z" "z \<le> m + 12 / 10000"
proof -
  obtain t where t: "toleranceKw = Fin t" "9 / 10000 < t" "t < 11 / 10000" by (rule toleranceKw_value)
  have s: "\<bar>m + t\<bar> \<le> 5000" using assms t by simp
  also have "\<dots> \<le> 2 ^ 100" by simp
  finally obtain z where z: "rnd (m + t) = Fin z" "\<bar>z - (m + t)\<bar> \<le> \<bar>m + t\<bar> / 2 ^ 53 + 1 / 2 ^ 100"
    by (rule rnd_error)
  have "\<bar>m + t\<bar> / 2 ^ 53 + 1 / 2 ^ 100 \<le> 5000 / 2 ^ 53 + 1 / 2 ^ 100"
    using s by (intro add_right_mono divide_right_mono) auto
  also have "\<dots> \<le> 1 / 1000000" by simp
  finally have "\<bar>z - (m + t)\<bar> \<le> 1 / 1000000" using z(2) by linarith
  then have "m \<le> z" "z \<le> m + 12 / 10000" using t by linarith+
  moreover have "dadd (Fin m) toleranceKw = Fin z" by (simp add: t(1) z(1))
  ultimately show ?thesis using that by blast
qed

lemma limit_range:
  assumes "\<bar>m * 10 - of_int n\<bar> \<le> 1 / 1000000" "n \<le> 32767" shows "m \<le> (4000 :: rat)"
proof -
  have "rat_of_int n \<le> 32767" using assms(2) by simp
  with assms(1) show ?thesis by linarith
qed

lemma tolerance_limit:
  assumes "\<bar>m * 10 - of_int n\<bar> \<le> 1 / 1000000" "0 \<le> m" "n \<le> 32767"
    and "\<not> dlt (dadd (Fin m) toleranceKw) (Fin x)"
  shows "x * 10 \<le> of_int n + 2 / 5"
proof -
  obtain z where z: "dadd (Fin m) toleranceKw = Fin z" "z \<le> m + 12 / 10000"
    using assms(2) limit_range [OF assms(1,3)] by (rule tolerance_sum)
  then have "x \<le> m + 12 / 10000" using assms(4) by simp
  moreover have "m * 10 \<le> of_int n + 1 / 1000000" using assms(1) by linarith
  ultimately show ?thesis by linarith
qed

lemma tolerance_accepts:
  assumes "0 \<le> m" "m \<le> 4000" "x \<le> m"
  shows "\<not> dlt (dadd (Fin m) toleranceKw) (Fin x)"
  using assms(3) by (auto intro: tolerance_sum [OF assms(1,2)])

lemma encode_zero [simp]: "encodeSigned (Fin 0) (Fin 10) = Some 0"
proof -
  have "sround 0 = 0" using sround_le [of 0 0] sround_ge [of 0 0] by simp
  then show ?thesis by (simp add: encodeSigned_def)
qed

lemma encode_decode:
  assumes "s \<in> {1, 10, 100}" shows "encodeSigned (decodeSigned raw (Fin s)) (Fin s) = Some raw"
proof -
  obtain v where v: "decodeSigned raw (Fin s) = Fin v" "\<bar>v * s - of_int (sint raw)\<bar> \<le> 1 / 1000000"
    by (rule decodeSigned_close [of s raw]) (use assms in auto)
  have "\<bar>v * s - of_int (sint raw)\<bar> \<le> 2 / 5" using v(2) by linarith
  moreover have "\<bar>sint raw\<bar> \<le> 2 ^ 40" using sint16_bounds [of raw] by simp
  ultimately obtain y where "rnd (v * s) = Fin y" "sround y = sint raw" by (rule rnd_near_int)
  then show ?thesis
    using sint16_bounds [of raw] by (simp add: v(1) encodeSigned_def of_int_sint)
qed

section \<open>The limits a driver holds\<close>

text \<open>
  The limits kept in the driver come from two raw registers \<open>rc\<close> and \<open>rd\<close>, and the flags from a
  third. A fresh driver holds zero limits; a poll keeps the relation, with the registers it read when
  it completed and the previous ones when it did not.
\<close>

definition holds_limits :: "u16 \<Rightarrow> u16 \<Rightarrow> sun_driver \<Rightarrow> bool" where
  "holds_limits rc rd d \<longleftrightarrow>
     d_maxChargeKw d = std_max (Fin 0) (decodeSigned rc (Fin 10)) \<and>
     d_maxDischargeKw d = std_max (Fin 0) (decodeSigned rd (Fin 10))"

lemma holds_limits_new [simp]: "holds_limits 0 0 (new_driver a)"
  by (simp add: holds_limits_def new_driver_def decodeSigned_def std_max_def)

lemma holds_limits_poll:
  assumes "holds_limits rc rd d"
  shows "holds_limits (if poll_complete r then the (p_maxCharge r) else rc)
    (if poll_complete r then the (p_maxDischarge r) else rd) (driver_after_poll d r)"
  using assms by (simp add: holds_limits_def driver_after_poll_def telemetry_of_def Let_def)

lemma driver_after_poll_approval [simp]: "d_approval (driver_after_poll d r) = d_approval d"
  by (simp add: driver_after_poll_def Let_def)

lemma driver_after_poll_writesEnabled [simp]: "writesEnabled (driver_after_poll d r) = writesEnabled d"
  by (simp add: writesEnabled_def)

text \<open>Conversely a command inside the limits and the prohibition bits is never rejected.\<close>

lemma setpoint_accepted:
  assumes "holds_limits rc rd d"
    and "dle (dneg (d_maxChargeKw d)) p" "dle p (d_maxDischargeKw d)"
    and "chargeProhibited (d_bmsSystemFlags d) \<Longrightarrow> dle (Fin 0) p"
    and "dischargeProhibited (d_bmsSystemFlags d) \<Longrightarrow> dle p (Fin 0)"
  shows "isfinite p \<and> \<not> setpoint_rejected d p"
proof -
  obtain t where t: "toleranceKw = Fin t" "9 / 10000 < t" "t < 11 / 10000" by (rule toleranceKw_value)
  have lim: "\<exists>m. std_max (Fin 0) (decodeSigned w (Fin 10)) = Fin m \<and> 0 \<le> m \<and> m \<le> 4000" for w
  proof -
    obtain m where "std_max (Fin 0) (decodeSigned w (Fin 10)) = Fin m" "0 \<le> m"
      "\<bar>m * 10 - of_int (max 0 (sint w))\<bar> \<le> 1 / 1000000" by (rule limit_close)
    with limit_range [of m "max 0 (sint w)"] sint16_bounds [of w] show ?thesis by auto
  qed
  from lim [of rc] lim [of rd] assms(1) obtain mc md where m: "d_maxChargeKw d = Fin mc" "0 \<le> mc"
      "mc \<le> 4000" "d_maxDischargeKw d = Fin md" "0 \<le> md" "md \<le> 4000"
    by (auto simp: holds_limits_def)
  with assms(2,3) have "isfinite p" by (auto intro: isfinite_between)
  then obtain x where x: "p = Fin x" by (auto simp: isfinite_iff)
  have "\<not> dlt (dadd (Fin mc) toleranceKw) (Fin (- x))" "\<not> dlt (dadd (Fin md) toleranceKw) (Fin x)"
    by (rule tolerance_accepts; use assms(2,3) m x in simp)+
  with assms(4,5) x t show ?thesis
    by (auto simp: setpoint_rejected_def m(1,4) t(1))
qed

text \<open>The writes a setpoint operation may emit: register 5005, inside the limits registers, and not
  against a prohibition bit.\<close>

definition setpoint_write :: "u16 \<Rightarrow> u16 \<Rightarrow> u16 \<Rightarrow> reg_write \<Rightarrow> bool" where
  "setpoint_write rc rd flags wr \<longleftrightarrow> fst wr = R_PcsPowerCommand \<and>
     - max 0 (sint rc) \<le> sint (snd wr) \<and> sint (snd wr) \<le> max 0 (sint rd) \<and>
     (chargeProhibited flags \<longrightarrow> 0 \<le> sint (snd wr)) \<and>
     (dischargeProhibited flags \<longrightarrow> sint (snd wr) \<le> 0)"

lemma discharge_register:
  assumes "encodeSigned (Fin x) (Fin 10) = Some raw" "holds_limits rc rd d" "\<not> setpoint_rejected d (Fin x)"
  shows "sint raw \<le> (if dischargeProhibited (d_bmsSystemFlags d) then 0 else max 0 (sint rd))"
proof -
  obtain t where t: "toleranceKw = Fin t" "9 / 10000 < t" "t < 11 / 10000" by (rule toleranceKw_value)
  obtain m where m: "d_maxDischargeKw d = Fin m" "0 \<le> m"
      "\<bar>m * 10 - of_int (max 0 (sint rd))\<bar> \<le> 1 / 1000000"
    using assms(2) unfolding holds_limits_def by (metis limit_close)
  have rd: "0 \<le> max 0 (sint rd)" "max 0 (sint rd) \<le> 32767" using sint16_bounds [of rd] by auto
  show ?thesis
  proof (cases "t < x")
    case True
    then have "\<not> dischargeProhibited (d_bmsSystemFlags d)"
      and "\<not> dlt (dadd (Fin m) toleranceKw) (Fin x)"
      using assms(3) t(2) by (auto simp: setpoint_rejected_def t(1) m(1))
    with tolerance_limit [OF m(3,2) rd(2)] encodeSigned_le [OF assms(1) _ rd] show ?thesis by simp
  next
    case False
    then have "x * 10 \<le> of_int 0 + 2 / 5" using t(3) by simp
    from encodeSigned_le [OF assms(1) this] rd show ?thesis by auto
  qed
qed

lemma charge_register:
  assumes "encodeSigned (Fin x) (Fin 10) = Some raw" "holds_limits rc rd d" "\<not> setpoint_rejected d (Fin x)"
  shows "- (if chargeProhibited (d_bmsSystemFlags d) then 0 else max 0 (sint rc)) \<le> sint raw"
proof -
  obtain t where t: "toleranceKw = Fin t" "9 / 10000 < t" "t < 11 / 10000" by (rule toleranceKw_value)
  obtain m where m: "d_maxChargeKw d = Fin m" "0 \<le> m"
      "\<bar>m * 10 - of_int (max 0 (sint rc))\<bar> \<le> 1 / 1000000"
    using assms(2) unfolding holds_limits_def by (metis limit_close)
  have rc: "0 \<le> max 0 (sint rc)" "max 0 (sint rc) \<le> 32767" using sint16_bounds [of rc] by auto
  show ?thesis
  proof (cases "x < - t")
    case True
    then have "\<not> chargeProhibited (d_bmsSystemFlags d)"
      and "\<not> dlt (dadd (Fin m) toleranceKw) (Fin (- x))"
      using assms(3) t(2) by (auto simp: setpoint_rejected_def t(1) m(1))
    moreover from this have "- of_int (max 0 (sint rc)) - 2 / 5 \<le> x * 10"
      using tolerance_limit [OF m(3,2) rc(2), of "- x"] by linarith
    ultimately show ?thesis using encodeSigned_ge [OF assms(1) _ rc] by simp
  next
    case False
    then have "- of_int 0 - 2 / 5 \<le> x * 10" using t(3) by simp
    from encodeSigned_ge [OF assms(1) this] rc show ?thesis by auto
  qed
qed

lemma setpoint_write_encoded:
  assumes "isfinite p" "encodeSigned p (Fin 10) = Some raw" "holds_limits rc rd d" "\<not> setpoint_rejected d p"
  shows "setpoint_write rc rd (d_bmsSystemFlags d) (R_PcsPowerCommand, raw)"
proof -
  from assms(1) obtain x where x: "p = Fin x" by (auto simp: isfinite_iff)
  with assms have "encodeSigned (Fin x) (Fin 10) = Some raw" "\<not> setpoint_rejected d (Fin x)" by auto
  note b = discharge_register [OF this(1) assms(3) this(2)] charge_register [OF this(1) assms(3) this(2)]
  from b show ?thesis
    by (auto simp: setpoint_write_def split: if_splits)
qed

section \<open>What the operations write\<close>

text \<open>No operation reaches an undefined conversion.\<close>

lemma isfinite_not_NaN: "isfinite p \<Longrightarrow> p \<noteq> NaN"
  by auto

lemma writePowerSetpointKw_defined: "fst (run_state (writePowerSetpointKw c d p) w) \<noteq> None"
  by (auto simp: writePowerSetpointKw_def split: option.split prod.split
      elim!: encodeSigned_defined [OF isfinite_not_NaN, of p 10, simplified])

text \<open>The writes of a transition between two states of charge windows.\<close>

definition window_write :: "int \<times> int \<Rightarrow> reg_write \<Rightarrow> int \<times> int" where
  "window_write win wr = (if fst wr = R_PcsSocUpperLimit then (fst win, sint (snd wr))
     else if fst wr = R_PcsSocLowerLimit then (sint (snd wr), snd win) else win)"

definition window_after :: "int \<times> int \<Rightarrow> reg_write list \<Rightarrow> int \<times> int" where
  "window_after = foldl window_write"

definition never_inverted :: "int \<times> int \<Rightarrow> reg_write list \<Rightarrow> bool" where
  "never_inverted win ws \<longleftrightarrow>
     (\<forall>ps. prefix ps ws \<longrightarrow> fst (window_after win ps) < snd (window_after win ps))"

text \<open>The writes \<^verbatim>\<open>writeSocLimitsPct\<close> plans when the device holds the window \<open>(ol, ou)\<close>.\<close>

definition soc_plan :: "int \<Rightarrow> int \<Rightarrow> int \<Rightarrow> int \<Rightarrow> reg_write list" where
  "soc_plan ol ou lo up =
     (if ou < up then [(R_PcsSocUpperLimit, word_of_int up)] else []) @
     (if lo < ol then [(R_PcsSocLowerLimit, word_of_int lo)] else []) @
     (if up \<le> ou then [(R_PcsSocUpperLimit, word_of_int up)] else []) @
     (if ol \<le> lo then [(R_PcsSocLowerLimit, word_of_int lo)] else [])"

lemma soc_plan_window:
  assumes "ol < ou" "0 \<le> lo" "lo < up" "up \<le> 100"
  shows "never_inverted (ol, ou) (soc_plan ol ou lo up)"
    and "window_after (ol, ou) (soc_plan ol ou lo up) = (lo, up)"
  using assms
  by (auto simp: never_inverted_def soc_plan_def window_after_def window_write_def sint_of_int16
      prefix_Cons)

lemma never_inverted_prefix: "never_inverted win ws \<Longrightarrow> prefix ps ws \<Longrightarrow> never_inverted win ps"
  by (auto simp: never_inverted_def intro: prefix_order.trans)

lemma encode_pct:
  assumes "0 \<le> k" "k \<le> 100" shows "encodeSigned (Fin (of_int k)) (Fin 1) = Some (word_of_int k)"
proof -
  have "sround (of_int k) = k" using sround_le [of "of_int k" k] sround_ge [of k "of_int k"] by simp
  moreover have "rnd (of_int k) = Fin (of_int k)" by (rule rnd_of_int) (use assms in simp)
  ultimately show ?thesis using assms by (simp add: encodeSigned_def)
qed

lemma decode_pct: "decodeSigned w (Fin 1) = Fin (of_int (sint w))"
  using rnd_of_int [of "sint w"] sint16_bounds [of w] by (simp add: decodeSigned_def)

context write_monitor
begin

lemma poll_quiet: "writes_only lg P (poll c d)"
  unfolding poll_def poll_reads_def by (intro monitor)

lemma setpoint_monitor:
  assumes "holds_limits rc rd d"
  shows "writes_only lg (setpoint_write rc rd (d_bmsSystemFlags d)) (writePowerSetpointKw c d p)"
  unfolding writePowerSetpointKw_def
  using assms by (auto intro!: monitor setpoint_write_encoded [unfolded R_PcsPowerCommand_def] split: option.split)

lemma planned_write_when:
  "planned lg (\<lambda>ok. ok) (if b then [(a, v)] else []) (write_when c b a v)"
  by (simp add: write_when_def planned_write planned_return)

text \<open>The four conditional writes of \<^verbatim>\<open>writeSocLimitsPct\<close>, with every early return.\<close>

lemma planned_chain:
  "planned lg (\<lambda>r. r = Some True)
     ((if b1 then [w1] else []) @ (if b2 then [w2] else []) @
      (if b3 then [w3] else []) @ (if b4 then [w4] else []))
     (State_Monad.bind (write_when c b1 (fst w1) (snd w1)) (\<lambda>ok1.
        if \<not> ok1 then State_Monad.return (Some False)
        else State_Monad.bind (write_when c b2 (fst w2) (snd w2)) (\<lambda>ok2.
        if \<not> ok2 then State_Monad.return (Some False)
        else State_Monad.bind (write_when c b3 (fst w3) (snd w3)) (\<lambda>ok3.
        if \<not> ok3 then State_Monad.return (Some False)
        else State_Monad.bind (write_when c b4 (fst w4) (snd w4)) (\<lambda>ok4.
        State_Monad.return (Some ok4))))))"
proof -
  note w = planned_write_when [of _ "fst w" "snd w" for w, unfolded prod.collapse]
  have guard: "planned lg (\<lambda>r. r = Some True) (ps @ qs)
      (State_Monad.bind m (\<lambda>ok. if \<not> ok then State_Monad.return (Some False) else k))"
    if "planned lg (\<lambda>ok. ok) ps m" "planned lg (\<lambda>r. r = Some True) qs k" for ps qs m k
    using that by (intro planned_seq) (simp_all add: planned_return)
  have "planned lg (\<lambda>r. r = Some True) ((if b4 then [w4] else []) @ [])
      (State_Monad.bind (write_when c b4 (fst w4) (snd w4)) (\<lambda>ok4. State_Monad.return (Some ok4)))"
    by (rule planned_seq [OF w]) (simp_all add: planned_return)
  then show ?thesis
    unfolding append_Nil2 by (intro guard w)
qed

lemma soc_limits_planned:
  assumes "0 \<le> lo" "lo < up" "up \<le> 100"
    and "fst (run_state (mc_readHolding c R_PcsSocUpperLimit) w) = Some cu"
    and "fst (run_state (mc_readHolding c R_PcsSocLowerLimit)
          (snd (run_state (mc_readHolding c R_PcsSocUpperLimit) w))) = Some cl"
  shows "\<exists>ws. lg (snd (run_state (writeSocLimitsPct c d (Fin (of_int lo)) (Fin (of_int up))) w)) = lg w @ ws \<and>
    prefix ws (soc_plan (sint cl) (sint cu) lo up) \<and>
    (fst (run_state (writeSocLimitsPct c d (Fin (of_int lo)) (Fin (of_int up))) w) = Some True \<longrightarrow>
      ws = soc_plan (sint cl) (sint cu) lo up)"
proof -
  note plan = planned_chain [where ?b1.0 = "sint cu < up" and ?b2.0 = "lo < sint cl" and
      ?b3.0 = "up \<le> sint cu" and ?b4.0 = "sint cl \<le> lo" and
      ?w1.0 = "(R_PcsSocUpperLimit, word_of_int up)" and ?w2.0 = "(R_PcsSocLowerLimit, word_of_int lo)" and
      ?w3.0 = "(R_PcsSocUpperLimit, word_of_int up)" and ?w4.0 = "(R_PcsSocLowerLimit, word_of_int lo)",
      unfolded fst_conv snd_conv soc_plan_def [symmetric]]
  define w2 where "w2 = snd (run_state (mc_readHolding c R_PcsSocLowerLimit)
      (snd (run_state (mc_readHolding c R_PcsSocUpperLimit) w)))"
  have w2: "lg w2 = lg w" by (simp add: w2_def)
  show ?thesis
  proof (cases "writesEnabled d \<and> d_telemetryValid d")
    case True
    have "run_state (writeSocLimitsPct c d (Fin (of_int lo)) (Fin (of_int up))) w = run_state
      (State_Monad.bind (write_when c (sint cu < up) R_PcsSocUpperLimit (word_of_int up)) (\<lambda>ok1.
        if \<not> ok1 then State_Monad.return (Some False)
        else State_Monad.bind (write_when c (lo < sint cl) R_PcsSocLowerLimit (word_of_int lo)) (\<lambda>ok2.
        if \<not> ok2 then State_Monad.return (Some False)
        else State_Monad.bind (write_when c (up \<le> sint cu) R_PcsSocUpperLimit (word_of_int up)) (\<lambda>ok3.
        if \<not> ok3 then State_Monad.return (Some False)
        else State_Monad.bind (write_when c (sint cl \<le> lo) R_PcsSocLowerLimit (word_of_int lo)) (\<lambda>ok4.
        State_Monad.return (Some ok4)))))) w2"
      using True assms by (simp add: writeSocLimitsPct_def encode_pct decode_pct w2_def Let_def)
    moreover have "planned lg S p m \<Longrightarrow> \<exists>ws. lg (snd (run_state m w2)) = lg w @ ws \<and> prefix ws p \<and>
        (S (fst (run_state m w2)) \<longrightarrow> ws = p)" for S p and m :: "('w, bool option) state"
      unfolding planned_def w2 [symmetric] by blast
    ultimately show ?thesis
      using plan by (simp only:)
  next
    case False
    then show ?thesis by (auto simp: writeSocLimitsPct_def)
  qed
qed

end

section \<open>Properties\<close>

text \<open>
  A register decoded to engineering units and encoded again is the same
  register, for every 16-bit value and each of the three scales the map uses, in binary64
  arithmetic.
\<close>

theorem register_round_trip:
  "\<forall>s \<in> {1, 10, 100}. encodeSigned (decodeSigned raw (Fin s)) (Fin s) = Some raw"
  using encode_decode by blast

theorem register_round_trip_witness:
  "encodeSigned (decodeSigned 0xFF9C (Fin 10)) (Fin 10) = Some 0xFF9C"
  using register_round_trip [of "0xFF9C"] by simp

text \<open>
  Property C3 (safety). Whatever power the driver is asked to apply, and whatever its client does,
  the only register it writes is the power command 5005, with a raw value between the raw BMS
  limits it holds (a negative limit counts as zero) and never against a prohibition bit; the
  conversion to the register is always defined.
\<close>

theorem setpoint_within_bms_limits:
  assumes "holds_limits rc rd d"
  shows "fst (run_state (writePowerSetpointKw (recording c) d p) wl) \<noteq> None \<and>
    (\<exists>ws. snd (snd (run_state (writePowerSetpointKw (recording c) d p) wl)) = snd wl @ ws \<and>
       list_all (setpoint_write rc rd (d_bmsSystemFlags d)) ws)"
proof
  show "fst (run_state (writePowerSetpointKw (recording c) d p) wl) \<noteq> None"
    by (rule writePowerSetpointKw_defined)
qed (rule rec.setpoint_monitor [OF assms, of c p, unfolded writes_only_def, rule_format])

text \<open>A driver that polled a healthy unit limited to 100 kW and 120 kW.\<close>

definition ready_driver :: sun_driver where
  "ready_driver = \<lparr>d_approval = \<lparr>addressingConfirmed = True, signConfirmed = True,
       scalingConfirmed = True, int32WordOrderConfirmed = True, int32HighWordFirst = True\<rparr>,
     d_controlReady = True, d_limitsValid = True, d_maxChargeKw = Fin 100, d_maxDischargeKw = Fin 120,
     d_bmsSystemFlags = 0, d_telemetryValid = True, d_faultsClear = True, d_gridModeReady = True,
     d_workModeReady = True\<rparr>"

definition empty_bench :: bench where
  "empty_bench = \<lparr>b_input = Map.empty, b_holding = [R_PcsSocUpperLimit \<mapsto> 60, R_PcsSocLowerLimit \<mapsto> 40],
     b_coils = Map.empty, b_writesSucceed = True\<rparr>"

lemma ready_driver_limits: "holds_limits 1000 1200 ready_driver"
  by (simp add: holds_limits_def ready_driver_def decodeSigned_def std_max_def)

theorem setpoint_within_bms_limits_witness:
  "\<exists>ws. snd (snd (run_state (writePowerSetpointKw (recording bench_client) ready_driver (Fin 50))
     (empty_bench, []))) = ws \<and> list_all (setpoint_write 1000 1200 0) ws"
  using setpoint_within_bms_limits [OF ready_driver_limits, of bench_client "Fin 50" "(empty_bench, [])"]
  by (simp add: ready_driver_def)

text \<open>
  Until addressing, sign and scaling are all confirmed, no write operation of
  the driver touches the transport at all: the world is returned unchanged and the result is false.
\<close>

theorem commissioning_lock:
  assumes "\<not> (addressingConfirmed (d_approval d) \<and> signConfirmed (d_approval d) \<and>
      scalingConfirmed (d_approval d))"
  shows "run_state (refreshHeartbeat c d t) w = (False, w) \<and>
    run_state (writePowerSetpointKw c d p) w = (Some False, w) \<and>
    run_state (writeReactivePowerSetpointKvar c d q) w = (Some False, w) \<and>
    run_state (writePowerState c d on) w = ((Some False, d), w) \<and>
    run_state (writeSocLimitsPct c d lo up) w = (Some False, w)"
  using assms by (auto simp: writesEnabled_def approval_writesEnabled_def refreshHeartbeat_def
      writePowerSetpointKw_def writeReactivePowerSetpointKvar_def writePowerState_def
      writeSocLimitsPct_def)

theorem commissioning_lock_witness:
  "run_state (writePowerSetpointKw bench_client
     (ready_driver\<lparr>d_approval := (d_approval ready_driver)\<lparr>signConfirmed := False\<rparr>\<rparr>) (Fin 5)) empty_bench =
   (Some False, empty_bench)"
  using commissioning_lock [of "ready_driver\<lparr>d_approval := (d_approval ready_driver)\<lparr>signConfirmed := False\<rparr>\<rparr>"
      bench_client _ empty_bench "Fin 5"]
  by (simp add: ready_driver_def)

text \<open>
  Stopping the unit always attempts the zero setpoint first and the stop
  second, the second also when the first failed, and nothing else; the driver leaves the ready state
  exactly when the stop itself was acknowledged.
\<close>

theorem stop_writes_zero_then_off:
  assumes "writesEnabled d" "d_telemetryValid d"
  shows "\<exists>zero stop. snd (snd (run_state (writePowerState (recording c) d False) wl)) =
      snd wl @ [(R_PcsPowerCommand, 0), (R_PcsPowerOn, 0)] \<and>
    fst (run_state (writePowerState (recording c) d False) wl) =
      (Some (zero \<and> stop), if stop then d\<lparr>d_controlReady := False\<rparr> else d)"
  using assms by (auto simp: writePowerState_def recording_def)

theorem stop_writes_zero_then_off_witness:
  "snd (snd (run_state (writePowerState (recording bench_client) ready_driver False) (empty_bench, []))) =
   [(5005, 0), (5003, 0)]"
  using stop_writes_zero_then_off [of ready_driver bench_client "(empty_bench, [])"]
  by (simp add: ready_driver_def writesEnabled_def approval_writesEnabled_def)

text \<open>
  Property C15 (safety). Changing the state-of-charge window never passes through an inverted
  window: when the unit holds a proper window and the request is a proper window of whole percents,
  then after every prefix of the writes that were attempted (so also when one of them fails or is
  lost) the lower limit is below the upper one, and on success the window is the requested one.
\<close>

theorem soc_window_never_inverted:
  assumes "0 \<le> lo" "lo < up" "up \<le> 100"
    and "fst (run_state (mc_readHolding c R_PcsSocUpperLimit) (fst wl)) = Some cu"
    and "fst (run_state (mc_readHolding c R_PcsSocLowerLimit)
          (snd (run_state (mc_readHolding c R_PcsSocUpperLimit) (fst wl)))) = Some cl"
    and "sint cl < sint cu"
  shows "\<exists>ws. snd (snd (run_state (writeSocLimitsPct (recording c) d (Fin (of_int lo)) (Fin (of_int up))) wl)) =
      snd wl @ ws \<and>
    never_inverted (sint cl, sint cu) ws \<and>
    (fst (run_state (writeSocLimitsPct (recording c) d (Fin (of_int lo)) (Fin (of_int up))) wl) = Some True \<longrightarrow>
       window_after (sint cl, sint cu) ws = (lo, up))"
proof -
  have "fst (run_state (mc_readHolding (recording c) R_PcsSocUpperLimit) wl) = Some cu"
    and "fst (run_state (mc_readHolding (recording c) R_PcsSocLowerLimit)
      (snd (run_state (mc_readHolding (recording c) R_PcsSocUpperLimit) wl))) = Some cl"
    using assms(4,5) by (simp_all add: recording_def)
  from rec.soc_limits_planned [OF assms(1-3) this, of d]
  show ?thesis
    using soc_plan_window [OF assms(6,1,2,3)] never_inverted_prefix by metis
qed

theorem soc_window_never_inverted_witness:
  "\<exists>ws. snd (snd (run_state (writeSocLimitsPct (recording bench_client) ready_driver (Fin (of_int 70)) (Fin (of_int 90)))
      (empty_bench, []))) = ws \<and> never_inverted (40, 60) ws"
  using soc_window_never_inverted [of 70 90 bench_client "(empty_bench, [])" 60 40 ready_driver]
  by (auto simp: empty_bench_def)

end
