(* ===== verification/EdgeController.thy ===== *)
theory EdgeController
  imports SunStorage
begin

text \<open>
  The control loop \<^verbatim>\<open>EdgeController\<close> (\<^verbatim>\<open>include/gridex/EdgeController.hpp\<close>,
  \<^verbatim>\<open>src/EdgeController.cpp\<close>). A tick polls the driver, keeps the PCS watchdog alive, runs the
  safety envelope and writes the setpoint. The controller holds a reference to the driver; here the
  driver record is passed beside the controller and returned updated. A time point of
  \<^verbatim>\<open>std::chrono::steady_clock\<close> is an integer number of nanoseconds. The snapshot is \<open>None\<close> only
  if a register conversion were undefined.
\<close>

section \<open>Configuration, state, snapshot\<close>

record controller_config =
  emsTimeout :: int
  heartbeatRefresh :: int
  heartbeatTimeoutSeconds :: u16
  configuredLimit :: configured_power_limit

definition default_config :: controller_config where
  "default_config = \<lparr>emsTimeout = 15, heartbeatRefresh = 35, heartbeatTimeoutSeconds = 60,
     configuredLimit = \<lparr>cfgMaxChargeKw = None, cfgMaxDischargeKw = None\<rparr>\<rparr>"

record controller_snapshot =
  sn_state :: edge_state
  sn_battery :: battery_telemetry
  sn_command :: safety_result
  sn_emsConnected :: bool
  sn_heartbeatOk :: bool

record controller =
  ctl_config :: controller_config
  ctl_requestedPowerKw :: dbl
  ctl_site :: site_limit
  ctl_lastCommandAt :: "int option"
  ctl_lastHeartbeatAt :: "int option"

definition new_controller :: "controller_config \<Rightarrow> controller" where
  "new_controller cfg = \<lparr>ctl_config = cfg, ctl_requestedPowerKw = Fin 0,
     ctl_site = \<lparr>siteLoadKw = None, contractLimitKw = None\<rparr>,
     ctl_lastCommandAt = None, ctl_lastHeartbeatAt = None\<rparr>"

text \<open>A duration in seconds, compared with a difference of time points.\<close>

definition secs :: "int \<Rightarrow> int" where
  "secs n = n * 1000000000"

section \<open>Operations\<close>

definition receiveCommand :: "controller \<Rightarrow> dbl \<Rightarrow> site_limit \<Rightarrow> int \<Rightarrow> controller" where
  "receiveCommand ctl requested site now =
     ctl\<lparr>ctl_requestedPowerKw := requested, ctl_site := site, ctl_lastCommandAt := Some now\<rparr>"

definition ems_connected :: "controller \<Rightarrow> int \<Rightarrow> bool" where
  "ems_connected ctl now = (case ctl_lastCommandAt ctl of None \<Rightarrow> False
     | Some t \<Rightarrow> now - t \<le> secs (emsTimeout (ctl_config ctl)))"

definition heartbeat_due :: "controller \<Rightarrow> int \<Rightarrow> bool" where
  "heartbeat_due ctl now = (case ctl_lastHeartbeatAt ctl of None \<Rightarrow> True
     | Some t \<Rightarrow> secs (heartbeatRefresh (ctl_config ctl)) \<le> now - t)"

definition heartbeat_step ::
  "'w modbus_client \<Rightarrow> controller \<Rightarrow> sun_driver \<Rightarrow> int \<Rightarrow> ('w, bool \<times> controller) state" where
  "heartbeat_step c ctl d now =
     (if heartbeat_due ctl now then do {
        ok \<leftarrow> refreshHeartbeat c d (heartbeatTimeoutSeconds (ctl_config ctl));
        State_Monad.return (ok, if ok then ctl\<lparr>ctl_lastHeartbeatAt := Some now\<rparr> else ctl)
      } else State_Monad.return (True, ctl))"

definition tick_input :: "controller \<Rightarrow> battery_telemetry \<Rightarrow> bool \<Rightarrow> safety_input" where
  "tick_input ctl battery controlAvailable = \<lparr>si_requestedPowerKw = ctl_requestedPowerKw ctl,
     si_battery = battery, si_site = ctl_site ctl,
     si_configuredLimit = configuredLimit (ctl_config ctl), si_emsConnected = controlAvailable\<rparr>"

definition tick_state :: "battery_telemetry \<Rightarrow> bool \<Rightarrow> bool \<Rightarrow> edge_state" where
  "tick_state b heartbeatOk emsConnected =
     (if \<not> heartbeatOk then Fault
      else if quality b \<noteq> QGood then WaitingForComms
      else if \<not> limitsValid b then WaitingForBmsLimits
      else if \<not> controlReady b then
        (if pcsFault b \<or> bmsFault b \<or> pcsCommunicationFault b \<or> bmsCommunicationFault b
         then Fault else WaitingForPcsReady)
      else if \<not> emsConnected then SafeMode
      else Ready)"

definition locked_command :: "dbl \<Rightarrow> safety_result \<Rightarrow> safety_result" where
  "locked_command requested r = r\<lparr>appliedPowerKw := Fin 0,
     clamped := clamped r \<or> \<not> deq requested (Fin 0),
     reason := ''write path locked until commissioning is approved''\<rparr>"

definition failed_command :: "safety_result \<Rightarrow> safety_result" where
  "failed_command r = r\<lparr>appliedPowerKw := Fin 0, clamped := True,
     reason := ''PCS command write failed''\<rparr>"

text \<open>The rest of a tick, after the poll and the watchdog.\<close>

definition tick_finish :: "'w modbus_client \<Rightarrow> controller \<Rightarrow> sun_driver \<Rightarrow> int \<Rightarrow>
    battery_telemetry \<Rightarrow> bool \<Rightarrow> ('w, controller_snapshot option) state" where
  "tick_finish c ctl d now battery heartbeatOk =
     (let emsConnected = ems_connected ctl now;
          command = SafetyEnvelope_apply (tick_input ctl battery (emsConnected \<and> heartbeatOk));
          snapshot = \<lparr>sn_state = tick_state battery heartbeatOk emsConnected, sn_battery = battery,
            sn_command = command, sn_emsConnected = emsConnected, sn_heartbeatOk = heartbeatOk\<rparr>
      in if \<not> writesEnabled d then
           State_Monad.return (Some (snapshot\<lparr>sn_state := CommissioningLocked,
             sn_command := locked_command (ctl_requestedPowerKw ctl) command\<rparr>))
         else if controlReady battery then do {
           written \<leftarrow> writePowerSetpointKw c d (appliedPowerKw command);
           State_Monad.return
             (case written of None \<Rightarrow> None
              | Some ok \<Rightarrow> if ok then Some snapshot
                  else Some (snapshot\<lparr>sn_state := Fault, sn_command := failed_command command\<rparr>))
         } else State_Monad.return (Some snapshot))"

definition tick :: "'w modbus_client \<Rightarrow> controller \<Rightarrow> sun_driver \<Rightarrow> int \<Rightarrow>
    ('w, controller_snapshot option \<times> controller \<times> sun_driver) state" where
  "tick c ctl d now = do {
     (battery, d') \<leftarrow> poll c d;
     (heartbeatOk, ctl') \<leftarrow> heartbeat_step c ctl d' now;
     snapshot \<leftarrow> tick_finish c ctl d' now battery heartbeatOk;
     State_Monad.return (snapshot, ctl', d')
   }"

section \<open>The poll, seen through the snapshot\<close>

lemma erases_poll_reads: "erases (poll_reads (recording c)) (poll_reads c)"
  unfolding poll_reads_def by (intro erases_rules)

lemma recorded_poll_reads [simp]:
  "fst (run_state (poll_reads (recording c)) wl) = fst (run_state (poll_reads c) (fst wl))"
  using erases_poll_reads unfolding erases_def by blast

lemma poll_value_incomplete:
  "\<not> poll_complete r \<Longrightarrow> quality (poll_value d r) = QInvalid \<and> \<not> controlReady (poll_value d r)"
  by (simp add: poll_value_def default_battery_def)

lemma poll_value_limits: "quality (poll_value d r) = QGood \<longleftrightarrow> limitsValid (poll_value d r)"
  by (simp add: poll_value_def telemetry_of_def default_battery_def Let_def)

lemma poll_agrees:
  assumes "poll_complete r"
  shows "d_controlReady (driver_after_poll d r) = controlReady (poll_value d r)"
    and "d_limitsValid (driver_after_poll d r) = limitsValid (poll_value d r)"
    and "d_maxChargeKw (driver_after_poll d r) = maxChargeKw (poll_value d r)"
    and "d_maxDischargeKw (driver_after_poll d r) = maxDischargeKw (poll_value d r)"
    and "d_bmsSystemFlags (driver_after_poll d r) = bmsSystemFlags (poll_value d r)"
  using assms by (simp_all add: driver_after_poll_def poll_value_def Let_def)

lemma poll_flags: "poll_complete r \<Longrightarrow> bmsSystemFlags (poll_value d r) = the (p_systemFlags r)"
  by (simp add: poll_value_def telemetry_of_def Let_def)

lemma poll_limits:
  assumes "poll_complete r"
  shows "holds_limits (the (p_maxCharge r)) (the (p_maxDischarge r)) (driver_after_poll d r)"
  using assms by (simp add: holds_limits_def driver_after_poll_def telemetry_of_def Let_def)

text \<open>
  The command of the envelope is never rejected by the driver: both hold the limits of the same
  poll, and the envelope only ever tightens them.
\<close>

lemma envelope_accepted:
  assumes "poll_complete r" "si_battery i = poll_value d r" "si_requestedPowerKw i \<noteq> NaN"
  shows "isfinite (appliedPowerKw (SafetyEnvelope_apply i)) \<and>
    \<not> setpoint_rejected (driver_after_poll d r) (appliedPowerKw (SafetyEnvelope_apply i))"
proof -
  have z: "std_max (Fin 0) (maxChargeKw (poll_value d r)) = maxChargeKw (poll_value d r)"
    "std_max (Fin 0) (maxDischargeKw (poll_value d r)) = maxDischargeKw (poll_value d r)"
    using assms(1) by (auto simp: poll_value_def telemetry_of_def Let_def std_max_def)
  show ?thesis
    by (rule setpoint_accepted [OF poll_limits [OF assms(1)]])
       (use applied_within_limits [OF assms(3)] poll_agrees [OF assms(1), of d] z assms(2) in
         \<open>simp_all add: within_limits_def\<close>)
qed

section \<open>One tick\<close>

text \<open>The writes a tick may attempt, given what its own poll read.\<close>

definition heartbeat_write :: "controller_config \<Rightarrow> reg_write \<Rightarrow> bool" where
  "heartbeat_write cfg wr \<longleftrightarrow>
     wr = (R_HeartbeatEnable, 1) \<or> wr = (R_HeartbeatSeconds, heartbeatTimeoutSeconds cfg)"

definition tick_write :: "controller_config \<Rightarrow> poll_raw \<Rightarrow> reg_write \<Rightarrow> bool" where
  "tick_write cfg r wr \<longleftrightarrow> heartbeat_write cfg wr \<or> (poll_complete r \<and>
     setpoint_write (the (p_maxCharge r)) (the (p_maxDischarge r)) (the (p_systemFlags r)) wr)"

lemma run_tick:
  "run_state (tick c ctl d now) w =
     (let r = fst (run_state (poll_reads c) w); w1 = snd (run_state (poll_reads c) w);
          d' = driver_after_poll d r;
          h = run_state (heartbeat_step c ctl d' now) w1;
          f = run_state (tick_finish c ctl d' now (poll_value d r) (fst (fst h))) (snd h)
      in ((fst f, snd (fst h), d'), snd f))"
  by (simp add: tick_def poll_def Let_def case_prod_beta)

lemma controlReady_complete: "controlReady (poll_value d r) \<Longrightarrow> poll_complete r"
  using poll_value_incomplete by blast

lemma tick_finish_defined: "fst (run_state (tick_finish c ctl d now b h) w) \<noteq> None"
  using writePowerSetpointKw_defined [of c d "appliedPowerKw (SafetyEnvelope_apply
      (tick_input ctl b (ems_connected ctl now \<and> h)))" w]
  by (auto simp: tick_finish_def Let_def split: option.split)

lemma tick_defined: "\<exists>s. fst (fst (run_state (tick c ctl d now) w)) = Some s"
  unfolding run_tick Let_def fst_conv by (rule tick_finish_defined [unfolded not_None_eq])

context write_monitor
begin

lemma heartbeat_monitor:
  "writes_only lg (heartbeat_write (ctl_config ctl)) (heartbeat_step c ctl d now)"
  unfolding heartbeat_step_def refreshHeartbeat_def
  by (auto intro!: monitor simp: heartbeat_write_def)

lemma finish_monitor:
  assumes "controlReady (poll_value d r) \<Longrightarrow>
      writes_only lg P (writePowerSetpointKw c (driver_after_poll d r) (appliedPowerKw
        (SafetyEnvelope_apply (tick_input ctl (poll_value d r) (ems_connected ctl now \<and> h)))))"
  shows "writes_only lg P (tick_finish c ctl (driver_after_poll d r) now (poll_value d r) h)"
  using assms unfolding tick_finish_def Let_def by (auto intro!: monitor)

lemma tick_appends:
  assumes "\<And>x. heartbeat_write (ctl_config ctl) x \<Longrightarrow> P x"
    and "\<And>h. let r = fst (run_state (poll_reads c) w) in
      controlReady (poll_value d r) \<longrightarrow>
      writes_only lg P (writePowerSetpointKw c (driver_after_poll d r) (appliedPowerKw
        (SafetyEnvelope_apply (tick_input ctl (poll_value d r) (ems_connected ctl now \<and> h)))))"
  shows "appends lg P (tick c ctl d now) w"
  unfolding tick_def
proof (rule appends_bind [OF writes_only_appends [OF poll_quiet]])
  define r where "r = fst (run_state (poll_reads c) w)"
  have p: "fst (run_state (poll c d) w) = (poll_value d r, driver_after_poll d r)"
    by (simp add: poll_def r_def)
  show "appends lg P ((\<lambda>(battery, d'). State_Monad.bind (heartbeat_step c ctl d' now) (\<lambda>(hb, ctl').
      State_Monad.bind (tick_finish c ctl d' now battery hb) (\<lambda>s. State_Monad.return (s, ctl', d'))))
      (fst (run_state (poll c d) w))) (snd (run_state (poll c d) w))"
    unfolding p prod.case
    by (intro writes_only_appends writes_only_bind writes_only_weaken [OF heartbeat_monitor assms(1)])
       (use assms(2) in \<open>auto intro!: writes_only_bind finish_monitor simp: r_def [symmetric] Let_def\<close>)
qed

lemma tick_write_appends:
  "appends lg (tick_write (ctl_config ctl) (fst (run_state (poll_reads c) w))) (tick c ctl d now) w"
proof (rule tick_appends)
  fix h
  show "let r = fst (run_state (poll_reads c) w) in controlReady (poll_value d r) \<longrightarrow>
      writes_only lg (tick_write (ctl_config ctl) (fst (run_state (poll_reads c) w)))
       (writePowerSetpointKw c (driver_after_poll d r) (appliedPowerKw
        (SafetyEnvelope_apply (tick_input ctl (poll_value d r) (ems_connected ctl now \<and> h)))))"
    unfolding Let_def
    using controlReady_complete poll_agrees(5) poll_flags
    by (auto intro!: writes_only_weaken [OF setpoint_monitor [OF poll_limits]] simp: tick_write_def)
qed (simp add: tick_write_def)

end

section \<open>A healthy unit\<close>

definition healthy_bench :: bench where
  "healthy_bench = \<lparr>b_input = (\<lambda>a. Some (if a = R_BmsSoc then 500 else if a = R_BmsMaxChargePower then 1000
       else if a = R_BmsMaxDischargePower then 1200 else 0)),
     b_holding = (\<lambda>a. Some (if a = R_PcsWorkMode \<or> a = R_PcsPowerOn then 1 else 0)),
     b_coils = (\<lambda>a. Some False), b_writesSucceed = True\<rparr>"

definition approved_driver :: sun_driver where
  "approved_driver = new_driver (d_approval ready_driver)"

definition example_controller :: controller where
  "example_controller = receiveCommand (new_controller default_config) (Fin 40)
     \<lparr>siteLoadKw = None, contractLimitKw = None\<rparr> 0"

definition healthy_raw :: poll_raw where
  "healthy_raw = \<lparr>p_pcsFault = Some False, p_pcsOffGrid = Some False, p_pcsWarning = Some False,
     p_pcsCommunicationFault = Some False, p_bmsAlarm = Some False, p_bmsFault = Some False,
     p_bmsCommunicationFault = Some False, p_pcsGridMode = Some 0, p_pcsWorkMode = Some 1,
     p_pcsPowerOn = Some 1, p_socUpperLimit = Some 0, p_socLowerLimit = Some 0,
     p_actualPower = Some 0, p_reactivePower = Some 0, p_dcPower = Some 0, p_frequency = Some 0,
     p_commandedPower = Some 0, p_pcsStatus = Some 0, p_current = Some 0, p_soc = Some 500,
     p_soh = Some 0, p_voltage = Some 0, p_status = Some 0, p_accumulatedEnergy = Some [0, 0, 0, 0],
     p_systemFlags = Some 0, p_maxCharge = Some 1000, p_maxDischarge = Some 1200,
     p_dailyCharge = Some 0, p_dailyDischarge = Some 0\<rparr>"

lemma healthy_bench_simps [simp]:
  "b_input healthy_bench a = Some (if a = R_BmsSoc then 500 else if a = R_BmsMaxChargePower then 1000
     else if a = R_BmsMaxDischargePower then 1200 else 0)"
  "b_holding healthy_bench a = Some (if a = R_PcsWorkMode \<or> a = R_PcsPowerOn then 1 else 0)"
  "b_coils healthy_bench a = Some False"
  by (simp_all add: healthy_bench_def)

lemma healthy_poll [simp]: "run_state (poll_reads bench_client) healthy_bench = (healthy_raw, healthy_bench)"
proof -
  have "[0..<4] = [0, 1, 2, 3 :: nat]" by code_simp
  then show ?thesis by (simp add: poll_reads_def healthy_raw_def)
qed

lemma healthy_value:
  "poll_complete healthy_raw" "controlReady (poll_value d healthy_raw)"
  "limitsValid (poll_value d healthy_raw)"
  by (simp_all add: poll_value_def poll_complete_def telemetry_of_def healthy_raw_def decodeSigned_def Let_def)

lemma approved_driver_enabled: "writesEnabled approved_driver"
  by (simp add: approved_driver_def new_driver_def ready_driver_def writesEnabled_def approval_writesEnabled_def)

section \<open>Properties\<close>

text \<open>
  Property C1 (safety). Whatever the transport does and whatever the controller was asked, the only
  registers one tick writes are the two watchdog registers, with the enable value and the configured
  timeout, and the power command, with a raw value inside the raw BMS limits and prohibition bits
  that the poll of the same tick read; without a complete poll the power command is not written.
  A tick always yields a snapshot (no register conversion is undefined).
\<close>

theorem tick_writes_within_polled_limits:
  "fst (fst (run_state (tick (recording c) ctl d now) wl)) \<noteq> None \<and>
   (\<exists>ws. snd (snd (run_state (tick (recording c) ctl d now) wl)) = snd wl @ ws \<and>
      list_all (tick_write (ctl_config ctl) (fst (run_state (poll_reads c) (fst wl)))) ws)"
  using rec.tick_write_appends [of ctl c wl d now] tick_defined [of "recording c" ctl d now wl]
  unfolding appends_def by simp

text \<open>
  Before commissioning is approved a tick only reads: the world after it is the
  world after the poll, the reported state is \<^verbatim>\<open>CommissioningLocked\<close> and the applied power zero.
\<close>

theorem tick_locked:
  assumes "\<not> writesEnabled d"
  shows "snd (run_state (tick c ctl d now) w) = snd (run_state (poll_reads c) w) \<and>
    (\<exists>s. fst (fst (run_state (tick c ctl d now) w)) = Some s \<and>
       sn_state s = CommissioningLocked \<and> appliedPowerKw (sn_command s) = Fin 0)"
  using assms by (auto simp: run_tick Let_def tick_finish_def heartbeat_step_def refreshHeartbeat_def
      locked_command_def)

theorem tick_locked_witness:
  "snd (run_state (tick bench_client example_controller
     (new_driver \<lparr>addressingConfirmed = True, signConfirmed = False, scalingConfirmed = True,
        int32WordOrderConfirmed = True, int32HighWordFirst = True\<rparr>) 0) healthy_bench) = healthy_bench"
proof -
  have "\<not> writesEnabled (new_driver \<lparr>addressingConfirmed = True, signConfirmed = False,
      scalingConfirmed = True, int32WordOrderConfirmed = True, int32HighWordFirst = True\<rparr>)"
    by (simp add: new_driver_def writesEnabled_def approval_writesEnabled_def)
  from tick_locked [OF this, of bench_client example_controller 0 healthy_bench] show ?thesis by simp
qed

text \<open>
  Property C10 (safety). A stale or missing EMS command stops the unit: when no command arrived
  within the timeout, the reported power is zero, the state is not \<^verbatim>\<open>Ready\<close>, and any power command
  the tick writes is the zero register.
\<close>

theorem stale_command_stops:
  assumes "ctl_lastCommandAt ctl = None \<or>
      secs (emsTimeout (ctl_config ctl)) < now - the (ctl_lastCommandAt ctl)"
  shows "(\<exists>s. fst (fst (run_state (tick (recording c) ctl d now) wl)) = Some s \<and>
       appliedPowerKw (sn_command s) = Fin 0 \<and> sn_state s \<noteq> Ready) \<and>
    (\<exists>ws. snd (snd (run_state (tick (recording c) ctl d now) wl)) = snd wl @ ws \<and>
       list_all (\<lambda>wr. fst wr = R_PcsPowerCommand \<longrightarrow> snd wr = 0) ws)"
proof
  have ems: "\<not> ems_connected ctl now"
    using assms by (auto simp: ems_connected_def split: option.split)
  then have zero: "appliedPowerKw (SafetyEnvelope_apply
      (tick_input ctl b (ems_connected ctl now \<and> h))) = Fin 0" for b h
    by (intro apply_closed) (simp add: envelope_open_def tick_input_def)
  obtain s where s: "fst (fst (run_state (tick (recording c) ctl d now) wl)) = Some s"
    using tick_defined [of "recording c" ctl d now wl] by blast
  then have "appliedPowerKw (sn_command s) = Fin 0 \<and> sn_state s \<noteq> Ready"
    using zero ems by (auto simp: run_tick Let_def tick_finish_def locked_command_def failed_command_def
        tick_state_def split: if_splits option.splits)
  with s show "\<exists>s. fst (fst (run_state (tick (recording c) ctl d now) wl)) = Some s \<and>
      appliedPowerKw (sn_command s) = Fin 0 \<and> sn_state s \<noteq> Ready" by blast
  have "writes_only snd (\<lambda>wr. fst wr = R_PcsPowerCommand \<longrightarrow> snd wr = 0)
      (writePowerSetpointKw (recording c) d' (Fin 0))" for d'
    by (auto simp: writePowerSetpointKw_def intro!: monitor rec.write_monitor)
  then have "appends snd (\<lambda>wr. fst wr = R_PcsPowerCommand \<longrightarrow> snd wr = 0) (tick (recording c) ctl d now) wl"
    by (intro rec.tick_appends) (auto simp: heartbeat_write_def zero Let_def)
  then show "\<exists>ws. snd (snd (run_state (tick (recording c) ctl d now) wl)) = snd wl @ ws \<and>
      list_all (\<lambda>wr. fst wr = R_PcsPowerCommand \<longrightarrow> snd wr = 0) ws"
    unfolding appends_def .
qed

theorem stale_command_stops_witness:
  "\<exists>s. fst (fst (run_state (tick (recording bench_client) example_controller approved_driver 16000000000)
     (healthy_bench, []))) = Some s \<and> appliedPowerKw (sn_command s) = Fin 0"
  using stale_command_stops [of example_controller 16000000000 bench_client approved_driver "(healthy_bench, [])"]
  by (auto simp: example_controller_def receiveCommand_def new_controller_def default_config_def secs_def)

text \<open>How a tick ends when the unit is ready, and that a watchdog that is not due leaves no trace.\<close>

lemma tick_setpoint:
  assumes "writesEnabled d" "ctl_requestedPowerKw ctl \<noteq> NaN"
    and "fst (run_state (poll_reads c) (fst wl)) = r" "poll_complete r"
    and "controlReady (poll_value d r)" "limitsValid (poll_value d r)"
  shows "\<exists>hs hb raw ok s.
    snd (snd (run_state (tick (recording c) ctl d now) wl)) = snd wl @ hs @ [(R_PcsPowerCommand, raw)] \<and>
    list_all (heartbeat_write (ctl_config ctl)) hs \<and> (heartbeat_due ctl now \<or> hs = [] \<and> hb) \<and>
    encodeSigned (appliedPowerKw (SafetyEnvelope_apply
      (tick_input ctl (poll_value d r) (ems_connected ctl now \<and> hb)))) (Fin 10) = Some raw \<and>
    fst (fst (run_state (tick (recording c) ctl d now) wl)) = Some s \<and> sn_heartbeatOk s = hb \<and>
    (if ok then sn_state s = tick_state (poll_value d r) hb (ems_connected ctl now) \<and>
         sn_command s = SafetyEnvelope_apply (tick_input ctl (poll_value d r) (ems_connected ctl now \<and> hb))
     else sn_state s = Fault \<and> appliedPowerKw (sn_command s) = Fin 0)"
proof -
  let ?d = "driver_after_poll d r"
  define w1 where "w1 = snd (run_state (poll_reads (recording c)) wl)"
  have w1: "snd w1 = snd wl"
    using rec.poll_quiet [of "\<lambda>_. False" c d]
    unfolding w1_def by (auto simp: poll_def dest!: writes_only_none [of _ _ wl])
  define h where "h = run_state (heartbeat_step (recording c) ctl ?d now) w1"
  define hb where "hb = fst (fst h)"
  obtain hs where hs: "snd (snd h) = snd wl @ hs" "list_all (heartbeat_write (ctl_config ctl)) hs"
    using rec.heartbeat_monitor [of ctl c ?d now] w1 unfolding h_def by (metis writes_onlyD)
  have due: "heartbeat_due ctl now \<or> hs = [] \<and> hb"
    using hs(1) w1 by (auto simp: hb_def h_def heartbeat_step_def)
  define cmd where "cmd = SafetyEnvelope_apply (tick_input ctl (poll_value d r) (ems_connected ctl now \<and> hb))"
  have acc: "isfinite (appliedPowerKw cmd) \<and> \<not> setpoint_rejected ?d (appliedPowerKw cmd)"
    unfolding cmd_def by (rule envelope_accepted [OF assms(4)]) (use assms(2) in \<open>simp_all add: tick_input_def\<close>)
  then obtain raw where raw: "encodeSigned (appliedPowerKw cmd) (Fin 10) = Some raw"
    using encodeSigned_defined [of "appliedPowerKw cmd" 10] isfinite_not_NaN by (metis zero_less_numeral)
  define ok where "ok = fst (run_state (mc_writeHolding (recording c) R_PcsPowerCommand raw) (snd h))"
  have "run_state (writePowerSetpointKw (recording c) ?d (appliedPowerKw cmd)) (snd h) =
      (Some ok, snd (run_state (mc_writeHolding (recording c) R_PcsPowerCommand raw) (snd h)))"
    using assms acc raw by (simp add: writePowerSetpointKw_def poll_agrees ok_def)
  then have "run_state (tick (recording c) ctl d now) wl =
      ((Some (if ok then \<lparr>sn_state = tick_state (poll_value d r) hb (ems_connected ctl now),
           sn_battery = poll_value d r, sn_command = cmd,
           sn_emsConnected = ems_connected ctl now, sn_heartbeatOk = hb\<rparr>
         else \<lparr>sn_state = Fault, sn_battery = poll_value d r, sn_command = failed_command cmd,
           sn_emsConnected = ems_connected ctl now, sn_heartbeatOk = hb\<rparr>), snd (fst h), ?d),
       snd (run_state (mc_writeHolding (recording c) R_PcsPowerCommand raw) (snd h)))"
    using assms by (simp add: run_tick Let_def tick_finish_def w1_def [symmetric] h_def [symmetric]
        hb_def [symmetric] cmd_def [symmetric])
  with hs raw due show ?thesis
    by (intro exI [of _ hs] exI [of _ hb] exI [of _ raw] exI [of _ ok])
       (auto simp: recording_def cmd_def failed_command_def)
qed



text \<open>
  Property C31 (safety). The state \<^verbatim>\<open>Ready\<close> is reported only with everything in place: approval,
  a live EMS command, an acknowledged or still fresh watchdog, valid telemetry and limits and a
  ready PCS. The state \<^verbatim>\<open>WaitingForBmsLimits\<close> is never reported, because invalid limits also
  invalidate the telemetry and the earlier branch reports \<^verbatim>\<open>WaitingForComms\<close>.
\<close>

theorem tick_ready_sound:
  assumes "fst (fst (run_state (tick c ctl d now) w)) = Some s"
  shows "sn_state s \<noteq> WaitingForBmsLimits \<and> (sn_state s = Ready \<longrightarrow>
    writesEnabled d \<and> ems_connected ctl now \<and> sn_heartbeatOk s \<and> quality (sn_battery s) = QGood \<and>
    limitsValid (sn_battery s) \<and> controlReady (sn_battery s))"
  using assms poll_value_limits [of d "fst (run_state (poll_reads c) w)"]
  by (auto simp: run_tick Let_def tick_finish_def tick_state_def split: if_splits option.splits)

theorem tick_ready_sound_witness:
  "\<exists>s. fst (fst (run_state (tick bench_client example_controller approved_driver 1) healthy_bench)) = Some s \<and>
     sn_state s \<noteq> WaitingForBmsLimits"
proof -
  obtain s where "fst (fst (run_state (tick bench_client example_controller approved_driver 1) healthy_bench)) = Some s"
    using tick_defined [of bench_client example_controller approved_driver 1 healthy_bench] by blast
  with tick_ready_sound [OF this] show ?thesis by blast
qed

text \<open>
  Property C36 (error). When the limits or the state of charge read as invalid while the PCS is
  otherwise ready, the tick cannot command zero power: the driver refuses every setpoint, so the only
  registers written are the watchdog ones, and a fault is reported. The unit is left with its last
  power command and a refreshed watchdog.
\<close>

theorem invalid_limits_hold_last_command:
  assumes "writesEnabled d" "fst (run_state (poll_reads c) (fst wl)) = r"
    and "controlReady (poll_value d r)" "\<not> limitsValid (poll_value d r)"
  shows "(\<exists>ws. snd (snd (run_state (tick (recording c) ctl d now) wl)) = snd wl @ ws \<and>
      list_all (heartbeat_write (ctl_config ctl)) ws) \<and>
    (\<exists>s. fst (fst (run_state (tick (recording c) ctl d now) wl)) = Some s \<and> sn_state s = Fault)"
proof
  have nolim: "\<not> d_limitsValid (driver_after_poll d r)"
    using assms(3,4) poll_agrees(2) controlReady_complete by blast
  then have "run_state (writePowerSetpointKw (recording c) (driver_after_poll d r) p) w = (Some False, w)" for p w
    by (simp add: writePowerSetpointKw_def)
  then show "\<exists>s. fst (fst (run_state (tick (recording c) ctl d now) wl)) = Some s \<and> sn_state s = Fault"
    using assms by (simp add: run_tick Let_def tick_finish_def)
  have "appends snd (heartbeat_write (ctl_config ctl)) (tick (recording c) ctl d now) wl"
    by (rule rec.tick_appends) (use nolim assms(2) in \<open>simp_all add: Let_def writePowerSetpointKw_def\<close>)
  then show "\<exists>ws. snd (snd (run_state (tick (recording c) ctl d now) wl)) = snd wl @ ws \<and>
      list_all (heartbeat_write (ctl_config ctl)) ws"
    unfolding appends_def .
qed

text \<open>A unit that reports a state of charge of 110 percent.\<close>

definition full_bench :: bench where
  "full_bench = healthy_bench\<lparr>b_input := (b_input healthy_bench)(R_BmsSoc \<mapsto> 1100)\<rparr>"

lemma full_poll: "fst (run_state (poll_reads bench_client) full_bench) = healthy_raw\<lparr>p_soc := Some 1100\<rparr>"
proof -
  have "[0..<4] = [0, 1, 2, 3 :: nat]" by code_simp
  then show ?thesis by (simp add: poll_reads_def healthy_raw_def full_bench_def)
qed

theorem invalid_limits_hold_last_command_witness:
  "\<exists>s. fst (fst (run_state (tick (recording bench_client) example_controller approved_driver 1)
     (full_bench, []))) = Some s \<and> sn_state s = Fault"
proof -
  have "controlReady (poll_value approved_driver (healthy_raw\<lparr>p_soc := Some 1100\<rparr>))"
    "\<not> limitsValid (poll_value approved_driver (healthy_raw\<lparr>p_soc := Some 1100\<rparr>))"
    by (simp_all add: poll_value_def poll_complete_def telemetry_of_def healthy_raw_def decodeSigned_def Let_def)
  then show ?thesis
    using invalid_limits_hold_last_command [OF approved_driver_enabled, of bench_client "(full_bench, [])"
        "healthy_raw\<lparr>p_soc := Some 1100\<rparr>" example_controller 1] full_poll by simp
qed

text \<open>
  The watchdog never lapses silently: after a tick that reports a good
  heartbeat, the last acknowledged refresh is younger than the refresh period, which (35 s) is below
  the PCS timeout (60 s); a failed refresh leaves the time stamp alone, so the next tick retries.
\<close>

theorem heartbeat_fresh:
  assumes "fst (run_state (tick c ctl d now) w) = (Some s, ctl', d')" "0 < heartbeatRefresh (ctl_config ctl)"
  shows "if sn_heartbeatOk s
    then \<exists>t. ctl_lastHeartbeatAt ctl' = Some t \<and> now - t < secs (heartbeatRefresh (ctl_config ctl))
    else ctl_lastHeartbeatAt ctl' = ctl_lastHeartbeatAt ctl \<and> heartbeat_due ctl' now"
proof -
  let ?r = "fst (run_state (poll_reads c) w)"
  let ?h = "run_state (heartbeat_step c ctl (driver_after_poll d ?r) now) (snd (run_state (poll_reads c) w))"
  have "sn_heartbeatOk s = fst (fst ?h)" "ctl' = snd (fst ?h)"
    using assms(1) by (auto simp: run_tick Let_def tick_finish_def split: if_splits option.splits)
  then show ?thesis
    using assms(2)
    by (auto simp: heartbeat_step_def heartbeat_due_def secs_def not_le split: option.splits if_splits)
qed

theorem heartbeat_fresh_witness:
  "\<exists>s ctl' d'. fst (run_state (tick bench_client example_controller approved_driver 1) healthy_bench) =
     (Some s, ctl', d') \<and> (sn_heartbeatOk s \<longrightarrow> (\<exists>t. ctl_lastHeartbeatAt ctl' = Some t))"
proof -
  obtain s ctl' d' where r: "fst (run_state (tick bench_client example_controller approved_driver 1) healthy_bench) =
      (Some s, ctl', d')"
    using tick_defined [of bench_client example_controller approved_driver 1 healthy_bench] by (metis prod.collapse)
  with heartbeat_fresh [OF r] show ?thesis
    by (auto simp: example_controller_def receiveCommand_def new_controller_def default_config_def)
qed

end
