(* ===== verification/RegisterBank.thy ===== *)
theory RegisterBank
  imports EdgeController
begin

text \<open>
  The register bank of the northbound Modbus server: the address map
  (\<^verbatim>\<open>include/gridex/NorthboundMap.hpp\<close>), the shared register arrays and the command latches of
  \<^verbatim>\<open>NorthboundRegisterBank\<close> (\<^verbatim>\<open>base-rockpie/.../NorthboundRegisterBank.{hpp,cpp}\<close>), and the node
  sample it publishes (\<^verbatim>\<open>MbusNodeTelemetry.hpp\<close>). Every method of the class takes the mutex for its
  whole body, so a method is one atomic step on the record \<open>bank\<close>; interleavings of the server
  thread and the service loop are sequences of these steps. A publication is \<open>None\<close> where an encoder
  would convert a NaN, which is undefined in C++.
\<close>

section \<open>The address map\<close>

definition HoldingRegisterCount :: nat where [simp]: "HoldingRegisterCount = 17"
definition OperatorApplyKeyValue :: u16 where [simp]: "OperatorApplyKeyValue = 0xA55A"
definition NodeSlotBase :: nat where [simp]: "NodeSlotBase = 0x0100"
definition NodeSlotStride :: nat where [simp]: "NodeSlotStride = 16"
definition NodeSlotCount :: nat where [simp]: "NodeSlotCount = 32"
definition InputRegisterCount :: nat where
  [simp]: "InputRegisterCount = NodeSlotBase + NodeSlotStride * NodeSlotCount"

definition H_CommandSequence :: nat where [simp]: "H_CommandSequence = 0"
definition H_RequestedPowerKwX10 :: nat where [simp]: "H_RequestedPowerKwX10 = 1"
definition H_CommandEnable :: nat where [simp]: "H_CommandEnable = 2"
definition H_EmsHeartbeat :: nat where [simp]: "H_EmsHeartbeat = 3"
definition H_OperatorSequence :: nat where [simp]: "H_OperatorSequence = 4"
definition H_OperatorActionMask :: nat where [simp]: "H_OperatorActionMask = 5"
definition H_RequestedRunState :: nat where [simp]: "H_RequestedRunState = 6"
definition H_RequestedReactivePowerKvarX10 :: nat where [simp]: "H_RequestedReactivePowerKvarX10 = 7"
definition H_RequestedSocUpperPct :: nat where [simp]: "H_RequestedSocUpperPct = 8"
definition H_RequestedSocLowerPct :: nat where [simp]: "H_RequestedSocLowerPct = 9"
definition H_OperatorApplyKey :: nat where [simp]: "H_OperatorApplyKey = 10"
definition H_NodeCommandSequence :: nat where [simp]: "H_NodeCommandSequence = 11"
definition H_NodeCommandTargetSlot :: nat where [simp]: "H_NodeCommandTargetSlot = 12"
definition H_NodeRequestedPowerKwX10 :: nat where [simp]: "H_NodeRequestedPowerKwX10 = 13"
definition H_NodeCommandEnable :: nat where [simp]: "H_NodeCommandEnable = 14"
definition H_NodeCommandTtlSeconds :: nat where [simp]: "H_NodeCommandTtlSeconds = 15"
definition H_NodeCommandApplyKey :: nat where [simp]: "H_NodeCommandApplyKey = 16"
definition I_ActualPowerKwX10 :: nat where [simp]: "I_ActualPowerKwX10 = 0"
definition I_SocPctX10 :: nat where [simp]: "I_SocPctX10 = 1"
definition I_SohPct :: nat where [simp]: "I_SohPct = 2"
definition I_VoltageVX10 :: nat where [simp]: "I_VoltageVX10 = 3"
definition I_CurrentAX10 :: nat where [simp]: "I_CurrentAX10 = 4"
definition I_MaxChargeKwX10 :: nat where [simp]: "I_MaxChargeKwX10 = 5"
definition I_MaxDischargeKwX10 :: nat where [simp]: "I_MaxDischargeKwX10 = 6"
definition I_BatteryStatus :: nat where [simp]: "I_BatteryStatus = 7"
definition I_BatterySystemFlags :: nat where [simp]: "I_BatterySystemFlags = 8"
definition I_QualityBits :: nat where [simp]: "I_QualityBits = 9"
definition I_EdgeState :: nat where [simp]: "I_EdgeState = 10"
definition I_AppliedPowerKwX10 :: nat where [simp]: "I_AppliedPowerKwX10 = 11"
definition I_ControlReady :: nat where [simp]: "I_ControlReady = 12"
definition I_ConfiguredMaxChargeKwX10 :: nat where [simp]: "I_ConfiguredMaxChargeKwX10 = 13"
definition I_ConfiguredMaxDischargeKwX10 :: nat where [simp]: "I_ConfiguredMaxDischargeKwX10 = 14"
definition I_DcPowerKwX10 :: nat where [simp]: "I_DcPowerKwX10 = 15"
definition I_CommandedPowerKwX10 :: nat where [simp]: "I_CommandedPowerKwX10 = 16"
definition I_PcsStatus :: nat where [simp]: "I_PcsStatus = 17"
definition I_ReactivePowerKvarX10 :: nat where [simp]: "I_ReactivePowerKvarX10 = 18"
definition I_AccumulatedChargeKwhX10High :: nat where [simp]: "I_AccumulatedChargeKwhX10High = 19"
definition I_AccumulatedChargeKwhX10Low :: nat where [simp]: "I_AccumulatedChargeKwhX10Low = 20"
definition I_AccumulatedDischargeKwhX10High :: nat where [simp]: "I_AccumulatedDischargeKwhX10High = 21"
definition I_AccumulatedDischargeKwhX10Low :: nat where [simp]: "I_AccumulatedDischargeKwhX10Low = 22"
definition I_DailyChargeKwhX10 :: nat where [simp]: "I_DailyChargeKwhX10 = 23"
definition I_DailyDischargeKwhX10 :: nat where [simp]: "I_DailyDischargeKwhX10 = 24"
definition I_AlarmBits :: nat where [simp]: "I_AlarmBits = 25"
definition I_LastOperatorSequence :: nat where [simp]: "I_LastOperatorSequence = 26"
definition I_LastOperatorResult :: nat where [simp]: "I_LastOperatorResult = 27"
definition I_FrequencyHzX100 :: nat where [simp]: "I_FrequencyHzX100 = 28"
definition I_SocUpperLimitPct :: nat where [simp]: "I_SocUpperLimitPct = 29"
definition I_SocLowerLimitPct :: nat where [simp]: "I_SocLowerLimitPct = 30"
definition I_ExtendedTelemetryValid :: nat where [simp]: "I_ExtendedTelemetryValid = 31"
definition I_PcsPowerOn :: nat where [simp]: "I_PcsPowerOn = 32"
definition I_PcsGridTied :: nat where [simp]: "I_PcsGridTied = 33"
definition I_PcsCurrentSourceMode :: nat where [simp]: "I_PcsCurrentSourceMode = 34"
definition N_Online :: nat where [simp]: "N_Online = 0"
definition N_Address :: nat where [simp]: "N_Address = 1"
definition N_NodeType :: nat where [simp]: "N_NodeType = 2"
definition N_NodeState :: nat where [simp]: "N_NodeState = 3"
definition N_DriverId :: nat where [simp]: "N_DriverId = 4"
definition N_Quality :: nat where [simp]: "N_Quality = 5"
definition N_Heartbeat :: nat where [simp]: "N_Heartbeat = 6"
definition N_ActualPowerKwX10 :: nat where [simp]: "N_ActualPowerKwX10 = 7"
definition N_EnergyWhHigh :: nat where [simp]: "N_EnergyWhHigh = 8"
definition N_EnergyWhLow :: nat where [simp]: "N_EnergyWhLow = 9"
definition N_DeviceState :: nat where [simp]: "N_DeviceState = 10"
definition N_AlarmBits :: nat where [simp]: "N_AlarmBits = 11"
definition N_AgeSeconds :: nat where [simp]: "N_AgeSeconds = 12"
definition N_CloudConnected :: nat where [simp]: "N_CloudConnected = 13"
definition A_RunState :: u16 where [simp]: "A_RunState = 1"
definition A_ReactivePower :: u16 where [simp]: "A_ReactivePower = 2"
definition A_SocLimits :: u16 where [simp]: "A_SocLimits = 4"
definition A_All :: u16 where [simp]: "A_All = A_RunState OR A_ReactivePower OR A_SocLimits"

section \<open>Commands, samples, and the bank\<close>

record northbound_command =
  nc_sequence :: u16
  nc_heartbeat :: u16
  nc_requestedPowerKw :: dbl
  nc_enabled :: bool

record operator_command =
  oc_sequence :: u16
  oc_actionMask :: u16
  oc_requestedRunState :: u16
  oc_requestedReactivePowerKvar :: dbl
  oc_requestedSocUpperPct :: dbl
  oc_requestedSocLowerPct :: dbl
  oc_authorized :: bool

record node_command =
  cmd_sequence :: u16
  cmd_targetSlot :: nat
  cmd_requestedPowerKw :: dbl
  cmd_ttlSeconds :: u16
  cmd_enabled :: bool
  cmd_authorized :: bool

datatype node_poll_status = PollUnknown | PollOnline | TransportFailure | IdentityFailure | TelemetryFailure

record node_telemetry =
  nt_address :: u8
  nt_nodeType :: u16
  nt_nodeState :: u16
  nt_driverId :: u16
  nt_quality :: u16
  nt_heartbeat :: u16
  nt_actualPowerKw :: dbl
  nt_energyWh :: u32
  nt_deviceState :: u16
  nt_alarmBits :: u16
  nt_cloudConnected :: bool
  nt_online :: bool
  nt_pollStatus :: node_poll_status
  nt_consecutiveFailures :: u32
  nt_ethernetStatus :: u16
  nt_modbusTcpStatus :: u16
  nt_driverReady :: u16
  nt_deviceBusStatus :: u16
  nt_watchdogStatus :: u16
  nt_recoveryCount :: u16
  nt_ethernetRecoveryCount :: u16
  nt_busRecoveryCount :: u16
  nt_lastError :: u16
  nt_lastSeen :: int
  nt_lastSuccessfulContact :: int

definition default_node_telemetry :: node_telemetry where
  "default_node_telemetry = \<lparr>nt_address = 0, nt_nodeType = 0, nt_nodeState = 0, nt_driverId = 0,
     nt_quality = 0, nt_heartbeat = 0, nt_actualPowerKw = Fin 0, nt_energyWh = 0, nt_deviceState = 0,
     nt_alarmBits = 0, nt_cloudConnected = False, nt_online = False, nt_pollStatus = PollUnknown,
     nt_consecutiveFailures = 0, nt_ethernetStatus = 0, nt_modbusTcpStatus = 0, nt_driverReady = 0,
     nt_deviceBusStatus = 0, nt_watchdogStatus = 0, nt_recoveryCount = 0,
     nt_ethernetRecoveryCount = 0, nt_busRecoveryCount = 0, nt_lastError = 0, nt_lastSeen = 0,
     nt_lastSuccessfulContact = 0\<rparr>"

record bank =
  bk_holding :: "u16 list"
  bk_input :: "u16 list"
  bk_commandObserved :: bool
  bk_lastSequence :: u16
  bk_lastHeartbeat :: u16
  bk_operatorCommandObserved :: bool
  bk_lastOperatorSequence :: u16
  bk_nodeCommandObserved :: bool
  bk_lastNodeCommandSequence :: u16

definition new_bank :: bank where
  "new_bank = \<lparr>bk_holding = replicate HoldingRegisterCount 0, bk_input = replicate InputRegisterCount 0,
     bk_commandObserved = True, bk_lastSequence = 0, bk_lastHeartbeat = 0,
     bk_operatorCommandObserved = True, bk_lastOperatorSequence = 0,
     bk_nodeCommandObserved = True, bk_lastNodeCommandSequence = 0\<rparr>"

section \<open>Encoders\<close>

definition encodeSignedX10 :: "dbl \<Rightarrow> u16 option" where
  "encodeSignedX10 value = map_option word_of_int (clamp_round (- 32768) 32767 (dmul value (Fin 10)))"

definition encodeUnsigned :: "dbl \<Rightarrow> dbl \<Rightarrow> u16 option" where
  "encodeUnsigned value scale = (if \<not> isfinite value then Some 0
     else map_option word_of_int (clamp_round 0 65535 (dmul value scale)))"

definition encodeUnsigned32 :: "dbl \<Rightarrow> dbl \<Rightarrow> u32 option" where
  "encodeUnsigned32 value scale = (if \<not> isfinite value then Some 0
     else map_option word_of_int (clamp_round 0 4294967295 (dmul value scale)))"

section \<open>Register access\<close>

definition readRange :: "u16 list \<Rightarrow> u16 \<Rightarrow> u16 \<Rightarrow> u16 list option" where
  "readRange registers start count =
     (if count = 0 \<or> length registers < unat start + unat count then None
      else Some (take (unat count) (drop (unat start) registers)))"

definition bank_readHolding :: "bank \<Rightarrow> u16 \<Rightarrow> u16 \<Rightarrow> u16 list option" where
  "bank_readHolding bank start count = readRange (bk_holding bank) start count"

definition bank_readInput :: "bank \<Rightarrow> u16 \<Rightarrow> u16 \<Rightarrow> u16 list option" where
  "bank_readInput bank start count = readRange (bk_input bank) start count"

definition bank_writeHolding :: "bank \<Rightarrow> u16 \<Rightarrow> u16 list \<Rightarrow> bool \<times> bank" where
  "bank_writeHolding bank start values =
     (if values = [] \<or> length (bk_holding bank) < unat start + length values then (False, bank)
      else (True, bank\<lparr>bk_holding := overwrite (bk_holding bank) (unat start) values\<rparr>))"

section \<open>Command latches\<close>

definition takeCommand :: "bank \<Rightarrow> northbound_command option \<times> bank" where
  "takeCommand bank =
     (let h = bk_holding bank; sequence = h ! H_CommandSequence; heartbeat = h ! H_EmsHeartbeat;
          enabled = (h ! H_CommandEnable = 1)
      in if bk_commandObserved bank \<and> sequence = bk_lastSequence bank \<and> heartbeat = bk_lastHeartbeat bank
         then (None, bank)
         else (Some \<lparr>nc_sequence = sequence, nc_heartbeat = heartbeat,
                 nc_requestedPowerKw = (if enabled
                   then ddiv (Fin (of_int (sint (h ! H_RequestedPowerKwX10)))) (Fin 10) else Fin 0),
                 nc_enabled = enabled\<rparr>,
               bank\<lparr>bk_commandObserved := True, bk_lastSequence := sequence,
                 bk_lastHeartbeat := heartbeat\<rparr>))"

definition takeOperatorCommand :: "bank \<Rightarrow> operator_command option \<times> bank" where
  "takeOperatorCommand bank =
     (let h = bk_holding bank; sequence = h ! H_OperatorSequence
      in if bk_operatorCommandObserved bank \<and> sequence = bk_lastOperatorSequence bank then (None, bank)
         else (Some \<lparr>oc_sequence = sequence, oc_actionMask = h ! H_OperatorActionMask,
                 oc_requestedRunState = h ! H_RequestedRunState,
                 oc_requestedReactivePowerKvar =
                   ddiv (Fin (of_int (sint (h ! H_RequestedReactivePowerKvarX10)))) (Fin 10),
                 oc_requestedSocUpperPct = Fin (of_nat (unat (h ! H_RequestedSocUpperPct))),
                 oc_requestedSocLowerPct = Fin (of_nat (unat (h ! H_RequestedSocLowerPct))),
                 oc_authorized = (h ! H_OperatorApplyKey = OperatorApplyKeyValue)\<rparr>,
               bank\<lparr>bk_operatorCommandObserved := True, bk_lastOperatorSequence := sequence\<rparr>))"

definition takeNodeCommand :: "bank \<Rightarrow> node_command option \<times> bank" where
  "takeNodeCommand bank =
     (let h = bk_holding bank; sequence = h ! H_NodeCommandSequence
      in if bk_nodeCommandObserved bank \<and> sequence = bk_lastNodeCommandSequence bank then (None, bank)
         else (Some \<lparr>cmd_sequence = sequence, cmd_targetSlot = unat (h ! H_NodeCommandTargetSlot),
                 cmd_requestedPowerKw =
                   ddiv (Fin (of_int (sint (h ! H_NodeRequestedPowerKwX10)))) (Fin 10),
                 cmd_ttlSeconds = h ! H_NodeCommandTtlSeconds,
                 cmd_enabled = (h ! H_NodeCommandEnable = 1),
                 cmd_authorized = (h ! H_NodeCommandApplyKey = OperatorApplyKeyValue)\<rparr>,
               bank\<lparr>bk_nodeCommandObserved := True, bk_lastNodeCommandSequence := sequence\<rparr>))"

section \<open>Publication\<close>

text \<open>Assignments \<^verbatim>\<open>input_[address] = value\<close> in order; \<open>None\<close> as soon as a value is undefined.\<close>

fun assign_all :: "u16 list \<Rightarrow> (nat \<times> u16 option) list \<Rightarrow> u16 list option" where
  "assign_all input [] = Some input"
| "assign_all input ((address, v) # ws) =
     (case v of None \<Rightarrow> None | Some value \<Rightarrow> assign_all (input[address := value]) ws)"

definition flag16 :: "bool \<Rightarrow> u16" where
  "flag16 b = (if b then 1 else 0)"

definition publishOperatorResult :: "bank \<Rightarrow> u16 \<Rightarrow> u16 \<Rightarrow> bank" where
  "publishOperatorResult bank sequence result = bank\<lparr>bk_input :=
     (bk_input bank)[I_LastOperatorSequence := sequence, I_LastOperatorResult := result]\<rparr>"

definition quality_bits :: "controller_snapshot \<Rightarrow> u16" where
  "quality_bits s = (let b = sn_battery s in
     (if quality b = QGood then push_bit 0 1 else 0) OR
     (if limitsValid b then push_bit 1 1 else 0) OR
     (if sn_emsConnected s then push_bit 2 1 else 0) OR
     (if sn_heartbeatOk s then push_bit 3 1 else 0) OR
     (if \<not> pcsFault b \<and> \<not> bmsFault b then push_bit 4 1 else 0) OR
     (if controlReady b then push_bit 5 1 else 0) OR
     (if extendedTelemetryValid b then push_bit 6 1 else 0))"

definition alarm_bits :: "battery_telemetry \<Rightarrow> u16" where
  "alarm_bits b = (if pcsWarning b then push_bit 0 1 else 0) OR (if bmsAlarm b then push_bit 1 1 else 0)"

definition high_word :: "u32 \<Rightarrow> u16" where
  "high_word x = ucast (drop_bit 16 x)"

definition value_or_zero :: "dbl option \<Rightarrow> dbl" where
  "value_or_zero x = (case x of None \<Rightarrow> Fin 0 | Some d \<Rightarrow> d)"

definition publish_values :: "controller_snapshot \<Rightarrow> configured_power_limit \<Rightarrow> (nat \<times> u16 option) list" where
  "publish_values s limit = (let b = sn_battery s;
       charge = encodeUnsigned32 (accumulatedChargeKwh b) (Fin 10);
       discharge = encodeUnsigned32 (accumulatedDischargeKwh b) (Fin 10)
     in [(I_ActualPowerKwX10, encodeSignedX10 (actualPowerKw b)),
         (I_SocPctX10, encodeUnsigned (socPct b) (Fin 10)),
         (I_SohPct, encodeUnsigned (sohPct b) (Fin 1)),
         (I_VoltageVX10, encodeUnsigned (voltageV b) (Fin 10)),
         (I_CurrentAX10, encodeSignedX10 (currentA b)),
         (I_MaxChargeKwX10, encodeUnsigned (maxChargeKw b) (Fin 10)),
         (I_MaxDischargeKwX10, encodeUnsigned (maxDischargeKw b) (Fin 10)),
         (I_BatteryStatus, Some (statusCode b)),
         (I_BatterySystemFlags, Some (bmsSystemFlags b)),
         (I_QualityBits, Some (quality_bits s)),
         (I_EdgeState, Some (edge_state_code (sn_state s))),
         (I_AppliedPowerKwX10, encodeSignedX10 (appliedPowerKw (sn_command s))),
         (I_ControlReady, Some (flag16 (controlReady b))),
         (I_ConfiguredMaxChargeKwX10, encodeUnsigned (value_or_zero (cfgMaxChargeKw limit)) (Fin 10)),
         (I_ConfiguredMaxDischargeKwX10, encodeUnsigned (value_or_zero (cfgMaxDischargeKw limit)) (Fin 10)),
         (I_DcPowerKwX10, encodeSignedX10 (dcPowerKw b)),
         (I_CommandedPowerKwX10, encodeSignedX10 (commandedPowerKw b)),
         (I_PcsStatus, Some (pcsStatusCode b)),
         (I_ReactivePowerKvarX10, encodeSignedX10 (reactivePowerKvar b)),
         (I_AccumulatedChargeKwhX10High, map_option high_word charge),
         (I_AccumulatedChargeKwhX10Low, map_option ucast charge),
         (I_AccumulatedDischargeKwhX10High, map_option high_word discharge),
         (I_AccumulatedDischargeKwhX10Low, map_option ucast discharge),
         (I_DailyChargeKwhX10, encodeUnsigned (dailyChargeKwh b) (Fin 10)),
         (I_DailyDischargeKwhX10, encodeUnsigned (dailyDischargeKwh b) (Fin 10)),
         (I_AlarmBits, Some (alarm_bits b)),
         (I_FrequencyHzX100, encodeUnsigned (frequencyHz b) (Fin 100)),
         (I_SocUpperLimitPct, encodeUnsigned (socUpperLimitPct b) (Fin 1)),
         (I_SocLowerLimitPct, encodeUnsigned (socLowerLimitPct b) (Fin 1)),
         (I_ExtendedTelemetryValid, Some (flag16 (extendedTelemetryValid b))),
         (I_PcsPowerOn, Some (flag16 (pcsPowerOn b))),
         (I_PcsGridTied, Some (flag16 (pcsGridTied b))),
         (I_PcsCurrentSourceMode, Some (flag16 (pcsCurrentSourceMode b)))])"

definition publish :: "bank \<Rightarrow> controller_snapshot \<Rightarrow> configured_power_limit \<Rightarrow> bank option" where
  "publish bank s limit =
     map_option (\<lambda>i. bank\<lparr>bk_input := i\<rparr>) (assign_all (bk_input bank) (publish_values s limit))"

text \<open>\<^verbatim>\<open>duration_cast<seconds>\<close> truncates towards zero.\<close>

definition whole_seconds :: "int \<Rightarrow> int" where
  "whole_seconds ns = (if 0 \<le> ns then ns div 1000000000 else - (- ns div 1000000000))"

definition age_seconds :: "node_telemetry \<Rightarrow> int \<Rightarrow> u16" where
  "age_seconds sample now =
     (let age = if nt_online sample then whole_seconds (now - nt_lastSeen sample) else 65535
      in word_of_int (max 0 (min 65535 age)))"

definition node_values :: "node_telemetry \<Rightarrow> int \<Rightarrow> (nat \<times> u16 option) list" where
  "node_values sample now =
     [(N_Online, Some (flag16 (nt_online sample))),
      (N_Address, Some (ucast (nt_address sample))),
      (N_NodeType, Some (nt_nodeType sample)),
      (N_NodeState, Some (nt_nodeState sample)),
      (N_DriverId, Some (nt_driverId sample)),
      (N_Quality, Some (nt_quality sample)),
      (N_Heartbeat, Some (nt_heartbeat sample)),
      (N_ActualPowerKwX10, encodeSignedX10 (nt_actualPowerKw sample)),
      (N_EnergyWhHigh, Some (high_word (nt_energyWh sample))),
      (N_EnergyWhLow, Some (ucast (nt_energyWh sample))),
      (N_DeviceState, Some (nt_deviceState sample)),
      (N_AlarmBits, Some (nt_alarmBits sample)),
      (N_CloudConnected, Some (flag16 (nt_cloudConnected sample))),
      (N_AgeSeconds, Some (age_seconds sample now))]"

definition publishNode :: "bank \<Rightarrow> nat \<Rightarrow> node_telemetry \<Rightarrow> int \<Rightarrow> bank option" where
  "publishNode bank slot sample now =
     (if NodeSlotCount \<le> slot then Some bank
      else let base = NodeSlotBase + slot * NodeSlotStride in
        map_option (\<lambda>i. bank\<lparr>bk_input := i\<rparr>)
          (assign_all (bk_input bank) (map (\<lambda>(a, v). (base + a, v)) (node_values sample now))))"

section \<open>The invariant\<close>

text \<open>The arrays keep their sizes and the latches stay armed, as the header initialises them.\<close>

definition bank_ok :: "bank \<Rightarrow> bool" where
  "bank_ok b \<longleftrightarrow> length (bk_holding b) = HoldingRegisterCount \<and> length (bk_input b) = InputRegisterCount \<and>
     bk_commandObserved b \<and> bk_operatorCommandObserved b \<and> bk_nodeCommandObserved b"

lemma assign_all_length: "assign_all xs ws = Some ys \<Longrightarrow> length ys = length xs"
  by (induction xs ws rule: assign_all.induct) (auto split: option.splits)

lemma assign_all_defined: "list_all (\<lambda>w. snd w \<noteq> None) ws \<Longrightarrow> \<exists>ys. assign_all xs ws = Some ys"
  by (induction xs ws rule: assign_all.induct) auto

lemma assign_all_other:
  "assign_all xs ws = Some ys \<Longrightarrow> a \<notin> fst ` set ws \<Longrightarrow> ys ! a = xs ! a"
  by (induction xs ws rule: assign_all.induct) (auto split: option.splits)

lemma assign_all_nth:
  "assign_all xs ws = Some ys \<Longrightarrow> distinct (map fst ws) \<Longrightarrow> (a, v) \<in> set ws \<Longrightarrow> a < length xs \<Longrightarrow>
     v = Some (ys ! a)"
proof (induction xs ws rule: assign_all.induct)
  case (2 input address w ws)
  then show ?case
    using assign_all_other [of "input[address := the w]" ws ys address]
    by (auto split: option.splits)
qed simp

lemma take_preserves:
  "bank_ok b \<Longrightarrow> bank_ok (snd (takeCommand b))"
  "bank_ok b \<Longrightarrow> bank_ok (snd (takeOperatorCommand b))"
  "bank_ok b \<Longrightarrow> bank_ok (snd (takeNodeCommand b))"
  by (auto simp: bank_ok_def takeCommand_def takeOperatorCommand_def takeNodeCommand_def Let_def)

lemma publish_preserves:
  "bank_ok b \<Longrightarrow> publish b s l = Some b' \<Longrightarrow> bank_ok b'"
  "bank_ok b \<Longrightarrow> publishNode b slot x now = Some b' \<Longrightarrow> bank_ok b'"
  "bank_ok b \<Longrightarrow> bank_ok (publishOperatorResult b q r)"
  by (auto simp: bank_ok_def publish_def publishNode_def publishOperatorResult_def Let_def
      dest: assign_all_length split: if_splits)

lemma write_preserves: "bank_ok b \<Longrightarrow> bank_ok (snd (bank_writeHolding b start vs))"
  by (auto simp: bank_ok_def bank_writeHolding_def)

lemma new_bank_ok: "bank_ok new_bank"
  by (simp add: bank_ok_def new_bank_def)

section \<open>Encoders on decoded registers\<close>

lemma encodeSignedX10_encodeSigned: "encodeSignedX10 v = encodeSigned v (Fin 10)"
  by (simp add: encodeSignedX10_def encodeSigned_def)

lemma encodeSignedX10_defined: "v \<noteq> NaN \<Longrightarrow> encodeSignedX10 v \<noteq> None"
  unfolding encodeSignedX10_encodeSigned by (metis encodeSigned_defined option.distinct(1) zero_less_numeral)

lemma encodeUnsigned_defined: "0 < s \<Longrightarrow> encodeUnsigned v (Fin s) \<noteq> None"
  using clamp_round_defined [of 0 65535 "dmul v (Fin s)"] dmul_scale_not_NaN [of v s]
  by (cases "isfinite v") (auto simp: encodeUnsigned_def isfinite_not_NaN)

lemma encodeUnsigned32_defined: "0 < s \<Longrightarrow> encodeUnsigned32 v (Fin s) \<noteq> None"
  using clamp_round_defined [of 0 4294967295 "dmul v (Fin s)"] dmul_scale_not_NaN [of v s]
  by (cases "isfinite v") (auto simp: encodeUnsigned32_def isfinite_not_NaN)

lemma encodeUnsigned_limit:
  "encodeUnsigned (std_max (Fin 0) (decodeSigned raw (Fin 10))) (Fin 10) = Some (word_of_int (max 0 (sint raw)))"
proof -
  obtain m where m: "std_max (Fin 0) (decodeSigned raw (Fin 10)) = Fin m"
      "\<bar>m * 10 - of_int (max 0 (sint raw))\<bar> \<le> 1 / 1000000" by (rule limit_close)
  have "\<bar>m * 10 - of_int (max 0 (sint raw))\<bar> \<le> 2 / 5" using m(2) by linarith
  moreover have "\<bar>max 0 (sint raw)\<bar> \<le> 2 ^ 40" using sint16_bounds [of raw] by simp
  ultimately obtain y where "rnd (m * 10) = Fin y" "sround y = max 0 (sint raw)" by (rule rnd_near_int)
  then show ?thesis
    using sint16_bounds [of raw] by (simp add: m(1) encodeUnsigned_def)
qed

section \<open>What a publication leaves in the bank\<close>

lemma publish_addresses: "distinct (map fst (publish_values s l)) \<and> (\<forall>w \<in> set (publish_values s l). fst w < 256)"
  by (simp add: publish_values_def Let_def)

lemma node_addresses: "distinct (map fst (node_values x now)) \<and> (\<forall>w \<in> set (node_values x now). fst w < 16)"
  by (simp add: node_values_def)

lemma publish_nth:
  assumes "bank_ok b" "publish b s l = Some b'" "(a, v) \<in> set (publish_values s l)"
  shows "v = Some (bk_input b' ! a)"
  using assms publish_addresses [of s l] assign_all_nth [of "bk_input b" "publish_values s l" "bk_input b'" a v]
  by (auto simp: publish_def bank_ok_def)

lemma publish_defined:
  assumes "actualPowerKw (sn_battery s) \<noteq> NaN" "currentA (sn_battery s) \<noteq> NaN"
    "appliedPowerKw (sn_command s) \<noteq> NaN" "dcPowerKw (sn_battery s) \<noteq> NaN"
    "commandedPowerKw (sn_battery s) \<noteq> NaN" "reactivePowerKvar (sn_battery s) \<noteq> NaN"
  shows "\<exists>b'. publish b s l = Some b'"
proof -
  have "list_all (\<lambda>w. snd w \<noteq> None) (publish_values s l)"
    unfolding publish_values_def Let_def list.pred_inject snd_conv
    using assms by (simp only: encodeSignedX10_defined encodeUnsigned_defined encodeUnsigned32_defined
        zero_less_numeral zero_less_one option.map_disc_iff option.distinct not_False_eq_True simp_thms
        list.pred_inject)
  from assign_all_defined [OF this, of "bk_input b"] show ?thesis by (auto simp: publish_def)
qed

text \<open>Every double of a poll is a number, so is the command of a tick on a numeric request.\<close>

lemma opt_decode_finite [simp]:
  "isfinite (opt_decode x (Fin 10))" "isfinite (opt_decode x (Fin 1))" "isfinite (opt_decode x (Fin 100))"
  by (simp_all add: opt_decode_def split: option.split)

lemma poll_value_finite:
  "isfinite (actualPowerKw (poll_value d r))" "isfinite (currentA (poll_value d r))"
  "isfinite (dcPowerKw (poll_value d r))" "isfinite (commandedPowerKw (poll_value d r))"
  "isfinite (reactivePowerKvar (poll_value d r))" "isfinite (maxChargeKw (poll_value d r))"
  "isfinite (maxDischargeKw (poll_value d r))"
  by (auto simp: poll_value_def telemetry_of_def default_battery_def Let_def intro: std_max_finite)

lemma tick_snapshot_finite:
  assumes "fst (fst (run_state (tick c ctl d now) w)) = Some s" "ctl_requestedPowerKw ctl \<noteq> NaN"
  shows "sn_battery s = poll_value d (fst (run_state (poll_reads c) w)) \<and> isfinite (appliedPowerKw (sn_command s))"
proof -
  have "isfinite (appliedPowerKw (SafetyEnvelope_apply (tick_input ctl (poll_value d r) e)))" for r e
    by (rule apply_finite) (use assms(2) in \<open>simp_all add: tick_input_def poll_value_finite\<close>)
  then show ?thesis
    using assms(1) by (auto simp: run_tick Let_def tick_finish_def locked_command_def failed_command_def
        split: if_splits option.splits)
qed

section \<open>Interleavings of the server thread and the service loop\<close>

datatype bank_event =
    EmsWrite u16 "u16 list"
  | TakeCommand
  | TakeOperatorCommand
  | TakeNodeCommand
  | Publish controller_snapshot configured_power_limit
  | PublishNode nat node_telemetry int
  | PublishOperatorResult u16 u16

fun bank_step :: "bank \<Rightarrow> bank_event \<Rightarrow> (northbound_command option \<times> bank) option" where
  "bank_step b (EmsWrite start vs) = Some (None, snd (bank_writeHolding b start vs))"
| "bank_step b TakeCommand = Some (takeCommand b)"
| "bank_step b TakeOperatorCommand = Some (None, snd (takeOperatorCommand b))"
| "bank_step b TakeNodeCommand = Some (None, snd (takeNodeCommand b))"
| "bank_step b (Publish s l) = map_option (Pair None) (publish b s l)"
| "bank_step b (PublishNode slot x now) = map_option (Pair None) (publishNode b slot x now)"
| "bank_step b (PublishOperatorResult q r) = Some (None, publishOperatorResult b q r)"

text \<open>The commands a run hands to the controller, in order.\<close>

fun run_bank :: "bank \<Rightarrow> bank_event list \<Rightarrow> northbound_command list option" where
  "run_bank b [] = Some []"
| "run_bank b (e # es) = (case bank_step b e of None \<Rightarrow> None
     | Some (c, b') \<Rightarrow> map_option ((@) (case c of None \<Rightarrow> [] | Some x \<Rightarrow> [x])) (run_bank b' es))"

text \<open>The sequence and heartbeat registers at each \<^verbatim>\<open>takeCommand\<close> of a run.\<close>

definition command_key :: "bank \<Rightarrow> u16 \<times> u16" where
  "command_key b = (bk_holding b ! H_CommandSequence, bk_holding b ! H_EmsHeartbeat)"

fun sampled_keys :: "bank \<Rightarrow> bank_event list \<Rightarrow> (u16 \<times> u16) list" where
  "sampled_keys b [] = []"
| "sampled_keys b (e # es) = (case bank_step b e of None \<Rightarrow> []
     | Some (c, b') \<Rightarrow> (if e = TakeCommand then [command_key b] else []) @ sampled_keys b' es)"

definition latched_key :: "bank \<Rightarrow> u16 \<times> u16" where
  "latched_key b = (bk_lastSequence b, bk_lastHeartbeat b)"

definition key_of :: "northbound_command \<Rightarrow> u16 \<times> u16" where
  "key_of c = (nc_sequence c, nc_heartbeat c)"

lemma bank_step_ok: "bank_ok b \<Longrightarrow> bank_step b e = Some (c, b') \<Longrightarrow> bank_ok b'"
  by (cases e) (auto intro: write_preserves publish_preserves dest: take_preserves)

lemma bank_step_latch:
  assumes "bank_step b e = Some (c, b')" "e \<noteq> TakeCommand"
  shows "c = None \<and> latched_key b' = latched_key b"
  using assms by (cases e) (auto simp: latched_key_def bank_writeHolding_def takeOperatorCommand_def
      takeNodeCommand_def publish_def publishNode_def publishOperatorResult_def Let_def split: if_splits)

lemma takeCommand_latch:
  assumes "bank_ok b"
  shows "if command_key b = latched_key b then takeCommand b = (None, b)
    else \<exists>c b'. takeCommand b = (Some c, b') \<and> key_of c = command_key b \<and> latched_key b' = command_key b"
  using assms by (auto simp: takeCommand_def command_key_def latched_key_def key_of_def bank_ok_def Let_def)

lemma run_bank_keys:
  "bank_ok b \<Longrightarrow> run_bank b es = Some cs \<Longrightarrow>
     map key_of cs = tl (remdups_adj (latched_key b # sampled_keys b es))"
proof (induction es arbitrary: b cs)
  case (Cons e es)
  obtain c b' cs' where s: "bank_step b e = Some (c, b')" "run_bank b' es = Some cs'"
    "cs = (case c of None \<Rightarrow> [] | Some x \<Rightarrow> [x]) @ cs'"
    using Cons.prems(2) by (auto split: option.splits)
  have ih: "map key_of cs' = tl (remdups_adj (latched_key b' # sampled_keys b' es))"
    using Cons.IH [OF bank_step_ok [OF Cons.prems(1) s(1)] s(2)] .
  show ?case
  proof (cases "e = TakeCommand")
    case True
    with s(1) have t: "takeCommand b = (c, b')" by simp
    have hd: "remdups_adj (k # ks) = k # tl (remdups_adj (k # ks))" for k :: "u16 \<times> u16" and ks
      by (metis hd_remdups_adj list.collapse list.sel(1) remdups_adj_Nil_iff list.discI)
    show ?thesis
      using takeCommand_latch [OF Cons.prems(1)] t s ih True hd [of "latched_key b'" "sampled_keys b' es"]
      by (auto split: if_splits)
  next
    case False
    with bank_step_latch [OF s(1) False] s ih show ?thesis by simp
  qed
qed simp

text \<open>What publishing a node leaves in the bank: its own slot, and nothing else.\<close>

lemma publishNode_slot:
  assumes "bank_ok b" "nt_actualPowerKw x \<noteq> NaN"
  shows "\<exists>b'. publishNode b slot x now = Some b' \<and> bank_ok b' \<and> bk_holding b' = bk_holding b \<and>
    (slot < NodeSlotCount \<longrightarrow>
      (\<forall>(k, v) \<in> set (node_values x now). Some (bk_input b' ! (NodeSlotBase + slot * NodeSlotStride + k)) = v)) \<and>
    (\<forall>a < InputRegisterCount. (a < NodeSlotBase + slot * NodeSlotStride \<or>
        NodeSlotBase + (slot + 1) * NodeSlotStride \<le> a) \<longrightarrow> bk_input b' ! a = bk_input b ! a)"
proof (cases "slot < NodeSlotCount")
  case False
  with assms(1) show ?thesis by (auto simp: publishNode_def)
next
  case True
  define base where "base = NodeSlotBase + slot * NodeSlotStride"
  define ws where "ws = map (\<lambda>(a, v). (base + a, v)) (node_values x now)"
  have "list_all (\<lambda>w. snd w \<noteq> None) (node_values x now)"
    unfolding node_values_def using encodeSignedX10_defined [OF assms(2)] by simp
  then have "list_all (\<lambda>w. snd w \<noteq> None) ws" by (auto simp: ws_def list_all_iff)
  then obtain i where i: "assign_all (bk_input b) ws = Some i" using assign_all_defined by blast
  then have b': "publishNode b slot x now = Some (b\<lparr>bk_input := i\<rparr>)"
    using True by (simp add: publishNode_def ws_def base_def Let_def)
  have fst_ws: "map fst ws = map ((+) base) (map fst (node_values x now))"
    by (auto simp: ws_def)
  have dist: "distinct (map fst ws)"
    using node_addresses [of x now] unfolding fst_ws by (simp only: distinct_map) (auto intro: inj_onI)
  have "Some (i ! (base + k)) = v" if "(k, v) \<in> set (node_values x now)" for k v
  proof -
    have "k < 16" using node_addresses [of x now] that by force
    then have "base + k < length (bk_input b)" using True assms(1) by (simp add: base_def bank_ok_def)
    moreover have "(base + k, v) \<in> set ws" using that by (force simp: ws_def)
    ultimately show ?thesis using assign_all_nth [OF i dist] by simp
  qed
  moreover have "i ! a = bk_input b ! a" if "a < base \<or> base + 16 \<le> a" for a
  proof (rule assign_all_other [OF i])
    show "a \<notin> fst ` set ws" using node_addresses [of x now] that by (force simp: ws_def)
  qed
  ultimately show ?thesis
    using b' publish_preserves(2) [OF assms(1) b'] by (auto simp: base_def)
qed

section \<open>Properties\<close>

text \<open>
  Property C17 (refinement). Whatever the interleaving of EMS writes, publications and service-loop
  calls, the controller receives exactly one command per change of the pair (sequence, heartbeat)
  as the service loop samples it, in order and without repetition: the delivered keys are the
  sampled keys with adjacent duplicates removed, starting from the zeroed registers (which are not a
  command).
\<close>

theorem commands_once_per_change:
  assumes "run_bank new_bank es = Some cs"
  shows "map key_of cs = tl (remdups_adj ((0, 0) # sampled_keys new_bank es))"
  using run_bank_keys [OF new_bank_ok assms] by (simp add: latched_key_def new_bank_def)

theorem commands_once_per_change_witness:
  "\<exists>cs. run_bank new_bank [TakeCommand, EmsWrite 0 [7, 100, 0, 0], TakeCommand, TakeCommand, EmsWrite 3 [1], TakeCommand] =
     Some cs \<and> map key_of cs = [(7, 0), (7, 1)]"
proof -
  define es where "es = [TakeCommand, EmsWrite 0 [7, 100, 0, 0], TakeCommand, TakeCommand, EmsWrite 3 [1], TakeCommand]"
  have k: "sampled_keys new_bank es = [(0, 0), (7, 0), (7, 0), (7, 1)]"
    unfolding es_def by code_simp
  have "run_bank new_bank es \<noteq> None"
    unfolding es_def by code_simp
  then obtain cs where cs: "run_bank new_bank es = Some cs" by blast
  from commands_once_per_change [OF cs] k cs show ?thesis
    unfolding es_def by simp
qed

text \<open>
  A successful write is read back exactly, leaves every other holding
  register, the input registers and the command latches alone; a write is refused exactly when it is
  empty or leaves the register file, and then nothing changes.
\<close>

theorem holding_write_read:
  assumes "bank_ok b" "bank_writeHolding b start vs = (ok, b')" "length vs < 65536"
  shows "bank_ok b' \<and> (ok \<longleftrightarrow> vs \<noteq> [] \<and> unat start + length vs \<le> HoldingRegisterCount) \<and>
    (\<not> ok \<longrightarrow> b' = b) \<and>
    (ok \<longrightarrow> bank_readHolding b' start (of_nat (length vs)) = Some vs \<and>
       (\<forall>i < HoldingRegisterCount. i < unat start \<or> unat start + length vs \<le> i \<longrightarrow> bk_holding b' ! i = bk_holding b ! i) \<and>
       bk_input b' = bk_input b \<and> latched_key b' = latched_key b)"
proof -
  have n: "unat (of_nat (length vs) :: u16) = length vs" using assms(3) by (simp add: unat_of_nat take_bit_nat_eq_self)
  then have "vs \<noteq> [] \<Longrightarrow> (of_nat (length vs) :: u16) \<noteq> 0" by (metis length_0_conv unat_0)
  with n assms(1,2) show ?thesis
    using write_preserves [OF assms(1), of start vs]
    by (auto simp: bank_writeHolding_def bank_readHolding_def readRange_def bank_ok_def latched_key_def
        nth_overwrite overwrite_range split: if_splits)
qed

theorem holding_write_read_witness:
  "bank_readHolding (snd (bank_writeHolding new_bank 1 [0xFF9C, 1])) 1 2 = Some [0xFF9C, 1]"
proof -
  have "fst (bank_writeHolding new_bank 1 [0xFF9C, 1])"
    by (simp add: bank_writeHolding_def new_bank_def)
  with holding_write_read [OF new_bank_ok prod.collapse [symmetric], where start = 1 and vs = "[0xFF9C, 1]"] show ?thesis
    by simp
qed



text \<open>
  Publishing a node sample writes the 14 registers of its own slot and nothing
  else: the battery registers, the operator result, the holding registers and every other node's slot
  keep their values, and a slot number beyond the last slot is ignored.
\<close>

theorem node_slot_isolated:
  assumes "bank_ok b" "nt_actualPowerKw x \<noteq> NaN"
  shows "\<exists>b'. publishNode b slot x now = Some b' \<and> bank_ok b' \<and> bk_holding b' = bk_holding b \<and>
    (slot < NodeSlotCount \<longrightarrow>
      (\<forall>(k, v) \<in> set (node_values x now). Some (bk_input b' ! (NodeSlotBase + slot * NodeSlotStride + k)) = v)) \<and>
    (\<forall>a < InputRegisterCount. (a < NodeSlotBase + slot * NodeSlotStride \<or>
        NodeSlotBase + (slot + 1) * NodeSlotStride \<le> a) \<longrightarrow> bk_input b' ! a = bk_input b ! a)"
  using assms by (rule publishNode_slot)

theorem node_slot_isolated_witness:
  "\<exists>b'. publishNode new_bank 3 (default_node_telemetry\<lparr>nt_quality := 1\<rparr>) 0 = Some b' \<and>
     bk_input b' ! (0x100 + 3 * 16 + N_AgeSeconds) = 65535"
proof -
  have "nt_actualPowerKw (default_node_telemetry\<lparr>nt_quality := 1\<rparr>) \<noteq> NaN"
    by (simp add: default_node_telemetry_def)
  from node_slot_isolated [OF new_bank_ok this, of 3 0]
  show ?thesis
    by (auto simp: node_values_def age_seconds_def default_node_telemetry_def)
qed

end
