(* ===== verification/Sockets.thy ===== *)
theory Sockets
  imports Prelude
begin

text \<open>
  The POSIX calls the two Modbus TCP endpoints make on a connected socket, as parameters of the
  model: \<^verbatim>\<open>recv\<close> and \<^verbatim>\<open>send\<close> act on an arbitrary network state, and may return part of what was
  asked, be interrupted, or fail. The locale \<open>byte_stream\<close> states what POSIX documents of a stream
  socket on which the peer's bytes arrive: no byte is lost, repeated or reordered, at most the
  requested number is returned, and interruptions are finite. A scripted socket instantiates it.
\<close>

section \<open>The calls\<close>

datatype recv_result = Got "u8 list" | RecvIntr | RecvErr

datatype send_result = Sent nat | SendIntr | SendErr

record 'n net =
  os_recv :: "int \<Rightarrow> nat \<Rightarrow> ('n, recv_result) state"
  os_send :: "int \<Rightarrow> u8 list \<Rightarrow> ('n, send_result) state"

section \<open>The contract of a byte stream\<close>

text \<open>
  \<open>pending w\<close> are the bytes that will still arrive, \<open>outbox w\<close> the bytes handed to the peer so far,
  and \<open>budget w\<close> bounds the interruptions still to come.
\<close>

definition recv_law :: "('n \<Rightarrow> u8 list) \<Rightarrow> ('n \<Rightarrow> u8 list) \<Rightarrow> ('n \<Rightarrow> nat) \<Rightarrow> nat \<Rightarrow> 'n \<Rightarrow>
    recv_result \<times> 'n \<Rightarrow> bool" where
  "recv_law pending outbox budget n w r \<longleftrightarrow> outbox (snd r) = outbox w \<and> (case fst r of
     Got bs \<Rightarrow> bs \<noteq> [] \<and> length bs \<le> n \<and> pending w = bs @ pending (snd r)
   | RecvIntr \<Rightarrow> pending (snd r) = pending w \<and> budget (snd r) < budget w
   | RecvErr \<Rightarrow> False)"

definition send_law :: "('n \<Rightarrow> u8 list) \<Rightarrow> ('n \<Rightarrow> u8 list) \<Rightarrow> ('n \<Rightarrow> nat) \<Rightarrow> u8 list \<Rightarrow> 'n \<Rightarrow>
    send_result \<times> 'n \<Rightarrow> bool" where
  "send_law pending outbox budget bs w r \<longleftrightarrow> pending (snd r) = pending w \<and> (case fst r of
     Sent k \<Rightarrow> 0 < k \<and> k \<le> length bs \<and> outbox (snd r) = outbox w @ take k bs
   | SendIntr \<Rightarrow> outbox (snd r) = outbox w \<and> budget (snd r) < budget w
   | SendErr \<Rightarrow> False)"

locale byte_stream =
  fixes net :: "('n, 'x) net_scheme" and fd :: int
    and pending outbox :: "'n \<Rightarrow> u8 list" and budget :: "'n \<Rightarrow> nat"
  assumes recv_ok: "0 < n \<Longrightarrow> pending w \<noteq> [] \<Longrightarrow>
      recv_law pending outbox budget n w (run_state (os_recv net fd n) w)"
    and send_ok: "bs \<noteq> [] \<Longrightarrow> send_law pending outbox budget bs w (run_state (os_send net fd bs) w)"

section \<open>A scripted socket\<close>

text \<open>Segments and interruptions in the order they happen, and a window that limits one \<^verbatim>\<open>send\<close>.\<close>

datatype sock_event = Data "u8 list" | Interrupted

record script =
  sc_events :: "sock_event list"
  sc_outbox :: "u8 list"
  sc_window :: nat

fun script_recv :: "nat \<Rightarrow> sock_event list \<Rightarrow> recv_result \<times> sock_event list" where
  "script_recv n [] = (Got [], [])"
| "script_recv n (Interrupted # es) = (RecvIntr, es)"
| "script_recv n (Data bs # es) =
     (if bs = [] then script_recv n es
      else if length bs \<le> n then (Got bs, es)
      else (Got (take n bs), Data (drop n bs) # es))"

fun event_bytes :: "sock_event \<Rightarrow> u8 list" where
  "event_bytes (Data bs) = bs"
| "event_bytes Interrupted = []"

definition script_pending :: "script \<Rightarrow> u8 list" where
  "script_pending w = concat (map event_bytes (sc_events w))"

definition script_net :: "script net" where
  "script_net = \<lparr>os_recv = \<lambda>fd n. State (\<lambda>w. let r = script_recv n (sc_events w) in (fst r, w\<lparr>sc_events := snd r\<rparr>)),
     os_send = \<lambda>fd bs. State (\<lambda>w. let k = min (Suc (sc_window w)) (length bs) in
       (Sent k, w\<lparr>sc_outbox := sc_outbox w @ take k bs\<rparr>))\<rparr>"

lemma script_recv_law:
  "0 < n \<Longrightarrow> concat (map event_bytes es) \<noteq> [] \<Longrightarrow> (case script_recv n es of
     (Got bs, es') \<Rightarrow> bs \<noteq> [] \<and> length bs \<le> n \<and>
       concat (map event_bytes es) = bs @ concat (map event_bytes es')
   | (RecvIntr, es') \<Rightarrow> concat (map event_bytes es') = concat (map event_bytes es) \<and> length es' < length es
   | (RecvErr, es') \<Rightarrow> False)"
proof (induction n es rule: script_recv.induct)
  case (3 n bs es)
  then show ?case
    by (auto simp: append_assoc [symmetric] split: prod.splits recv_result.splits simp del: append_assoc)
qed auto

interpretation script: byte_stream script_net fd script_pending sc_outbox "\<lambda>w. length (sc_events w)" for fd
proof
  fix n :: nat and w :: script
  assume "0 < n" "script_pending w \<noteq> []"
  with script_recv_law [of n "sc_events w"]
  show "recv_law script_pending sc_outbox (\<lambda>w. length (sc_events w)) n w (run_state (os_recv script_net fd n) w)"
    by (auto simp: script_net_def recv_law_def script_pending_def Let_def split: prod.splits recv_result.splits)
next
  fix bs :: "u8 list" and w :: script
  assume "bs \<noteq> []"
  then show "send_law script_pending sc_outbox (\<lambda>w. length (sc_events w)) bs w (run_state (os_send script_net fd bs) w)"
    by (auto simp: script_net_def send_law_def script_pending_def Let_def)
qed

end
