(* ===== verification/NorthboundServer.thy ===== *)
theory NorthboundServer
  imports RegisterBank Sockets ModbusTcp
begin

text \<open>
  The northbound Modbus TCP server (\<^verbatim>\<open>base-rockpie/src/NorthboundModbusTcpServer.cpp\<close>): the PDU
  handler on the register bank, the MBAP framing of one request, and the client loop with its
  blocking helpers \<^verbatim>\<open>receiveExact\<close> and \<^verbatim>\<open>sendAll\<close>. The helpers may run for ever on an interrupted
  or stalled socket, so they are partial functions. What \<^verbatim>\<open>poll\<close> and the flag \<^verbatim>\<open>running_\<close> say at each
  turn of the client loop is a list of outcomes.
\<close>

section \<open>The PDU handler\<close>

definition exception_pdu :: "u8 \<Rightarrow> u8 \<Rightarrow> u8 list" where
  "exception_pdu function code = [function OR 0x80, code]"

definition handlePdu :: "bank \<Rightarrow> u8 list \<Rightarrow> u8 list \<times> bank" where
  "handlePdu bank pdu =
     (if pdu = [] then (exception_pdu 0 0x03, bank)
      else let function = pdu ! 0 in
      if function = 0x03 \<or> function = 0x04 then
        (if length pdu \<noteq> 5 then (exception_pdu function 0x03, bank)
         else let start = readU16 pdu 1; count = readU16 pdu 3 in
         if count = 0 \<or> 125 < count then (exception_pdu function 0x03, bank)
         else case (if function = 0x03 then bank_readHolding bank start count
                    else bank_readInput bank start count) of
           None \<Rightarrow> (exception_pdu function 0x02, bank)
         | Some values \<Rightarrow> (foldl appendU16 [function, of_nat (length values * 2)] values, bank))
      else if function = 0x06 then
        (if length pdu \<noteq> 5 then (exception_pdu function 0x03, bank)
         else let address = readU16 pdu 1; v = readU16 pdu 3;
                  (ok, bank') = bank_writeHolding bank address [v] in
         if \<not> ok then (exception_pdu function 0x02, bank') else (pdu, bank'))
      else if function = 0x10 then
        (if length pdu < 6 then (exception_pdu function 0x03, bank)
         else let start = readU16 pdu 1; count = readU16 pdu 3; byteCount = pdu ! 5 in
         if count = 0 \<or> 123 < count \<or> unat byteCount \<noteq> unat count * 2 \<or> length pdu \<noteq> 6 + unat byteCount
         then (exception_pdu function 0x03, bank)
         else let (ok, bank') = bank_writeHolding bank start (readWords pdu 6 (unat count)) in
         if \<not> ok then (exception_pdu function 0x02, bank')
         else (appendU16 (appendU16 [function] start) count, bank'))
      else (exception_pdu function 0x01, bank))"

section \<open>One request\<close>

record server_config =
  sv_bindAddress :: string
  sv_port :: u16
  sv_unitId :: u8

definition frame_ok :: "u8 list \<Rightarrow> bool" where
  "frame_ok header \<longleftrightarrow> readU16 header 2 = 0 \<and> 2 \<le> readU16 header 4 \<and> readU16 header 4 \<le> 254"

definition frame_answer :: "server_config \<Rightarrow> bank \<Rightarrow> u8 list \<Rightarrow> u8 list \<Rightarrow> u8 list \<times> bank" where
  "frame_answer cfg bank header pdu =
     (let (responsePdu, bank') =
        (if header ! 6 \<noteq> sv_unitId cfg then (exception_pdu (pdu ! 0) 0x0B, bank) else handlePdu bank pdu)
      in (appendU16 (take 4 header) (of_nat (length responsePdu + 1)) @ [header ! 6] @ responsePdu, bank'))"

section \<open>Blocking helpers\<close>

text \<open>\<open>Some (Some bytes, w)\<close>: received; \<open>Some (None, w)\<close>: the call returned false; \<open>None\<close>: it
  never returns.\<close>

partial_function (option) receiveExact ::
  "('n, 'x) net_scheme \<Rightarrow> int \<Rightarrow> nat \<Rightarrow> 'n \<Rightarrow> (u8 list option \<times> 'n) option" where
  "receiveExact net fd n w =
     (if n = 0 then Some (Some [], w)
      else case run_state (os_recv net fd n) w of (r, w') \<Rightarrow>
        (case r of
           Got bs \<Rightarrow> if bs = [] then Some (None, w')
             else Option.bind (receiveExact net fd (n - length bs) w')
               (\<lambda>(rest, w''). Some (map_option ((@) bs) rest, w''))
         | RecvIntr \<Rightarrow> receiveExact net fd n w'
         | RecvErr \<Rightarrow> Some (None, w')))"

partial_function (option) sendAll ::
  "('n, 'x) net_scheme \<Rightarrow> int \<Rightarrow> u8 list \<Rightarrow> 'n \<Rightarrow> (bool \<times> 'n) option" where
  "sendAll net fd data w =
     (if data = [] then Some (True, w)
      else case run_state (os_send net fd data) w of (r, w') \<Rightarrow>
        (case r of
           Sent k \<Rightarrow> sendAll net fd (drop k data) w'
         | SendIntr \<Rightarrow> sendAll net fd data w'
         | SendErr \<Rightarrow> Some (False, w')))"

section \<open>The client loop\<close>

text \<open>The body of the loop once \<^verbatim>\<open>poll\<close> reported data; the first component says whether the
  connection is kept.\<close>

definition serve_request ::
  "('n, 'x) net_scheme \<Rightarrow> server_config \<Rightarrow> int \<Rightarrow> bank \<Rightarrow> 'n \<Rightarrow> (bool \<times> bank \<times> 'n) option" where
  "serve_request net cfg fd bank w =
     Option.bind (receiveExact net fd 7 w) (\<lambda>(h, w1). case h of None \<Rightarrow> Some (False, bank, w1)
     | Some header \<Rightarrow>
         if \<not> frame_ok header then Some (False, bank, w1)
         else Option.bind (receiveExact net fd (unat (readU16 header 4) - 1) w1) (\<lambda>(p, w2). case p of
           None \<Rightarrow> Some (False, bank, w2)
         | Some pdu \<Rightarrow>
             (let (response, bank') = frame_answer cfg bank header pdu in
              Option.bind (sendAll net fd response w2) (\<lambda>(ok, w3). Some (ok, bank', w3)))))"

datatype poll_outcome = NotRunning | PollError | PollTimeout | PollHangup | PollReadable | PollOther

fun handleClient ::
  "('n, 'x) net_scheme \<Rightarrow> server_config \<Rightarrow> int \<Rightarrow> poll_outcome list \<Rightarrow> bank \<Rightarrow> 'n \<Rightarrow> (bank \<times> 'n) option" where
  "handleClient net cfg fd [] bank w = Some (bank, w)"
| "handleClient net cfg fd (NotRunning # ps) bank w = Some (bank, w)"
| "handleClient net cfg fd (PollError # ps) bank w = Some (bank, w)"
| "handleClient net cfg fd (PollTimeout # ps) bank w = handleClient net cfg fd ps bank w"
| "handleClient net cfg fd (PollHangup # ps) bank w = Some (bank, w)"
| "handleClient net cfg fd (PollOther # ps) bank w = handleClient net cfg fd ps bank w"
| "handleClient net cfg fd (PollReadable # ps) bank w =
     Option.bind (serve_request net cfg fd bank w) (\<lambda>(keep, bank', w').
       if keep then handleClient net cfg fd ps bank' w' else Some (bank', w'))"

section \<open>The accept loop, start and stop\<close>

text \<open>
  One iteration of \<^verbatim>\<open>run\<close> is an outcome: the stop flag was seen, nothing to accept, the accept failed, or
  a client was accepted and its own loop ran through the given polls until it was closed.
\<close>

datatype accept_outcome = AcceptStopped | AcceptNothing | AcceptFailed | Accepted int "poll_outcome list"

fun server_run :: "('n, 'x) net_scheme \<Rightarrow> server_config \<Rightarrow> accept_outcome list \<Rightarrow> bank \<Rightarrow> 'n \<Rightarrow> (bank \<times> 'n) option" where
  "server_run net cfg [] bank w = Some (bank, w)"
| "server_run net cfg (AcceptStopped # os) bank w = Some (bank, w)"
| "server_run net cfg (AcceptNothing # os) bank w = server_run net cfg os bank w"
| "server_run net cfg (AcceptFailed # os) bank w = server_run net cfg os bank w"
| "server_run net cfg (Accepted fd polls # os) bank w =
     Option.bind (handleClient net cfg fd polls bank w) (\<lambda>(bank', w'). server_run net cfg os bank' w')"

record server =
  nb_running :: bool
  nb_listenFd :: int
  nb_worker :: bool

definition new_server :: server where
  "new_server = \<lparr>nb_running = False, nb_listenFd = -1, nb_worker = False\<rparr>"

record listen_results =
  lr_socket :: int
  lr_addressValid :: bool
  lr_bound :: bool
  lr_listening :: bool

text \<open>The second component lists the descriptors the call closed.\<close>

definition server_start :: "listen_results \<Rightarrow> server \<Rightarrow> bool \<times> int list \<times> server" where
  "server_start r sv =
     (if nb_running sv then (True, [], sv)
      else let fd = lr_socket r; sv1 = sv\<lparr>nb_listenFd := fd\<rparr> in
        if fd < 0 then (False, [], sv1)
        else if \<not> lr_addressValid r \<or> \<not> lr_bound r \<or> \<not> lr_listening r then (False, [fd], sv1\<lparr>nb_listenFd := -1\<rparr>)
        else (True, [], sv1\<lparr>nb_running := True, nb_worker := True\<rparr>))"

definition server_stop :: "server \<Rightarrow> int list \<times> server" where
  "server_stop sv =
     (if \<not> nb_running sv then ([], sv)
      else if 0 \<le> nb_listenFd sv then ([nb_listenFd sv], sv\<lparr>nb_running := False, nb_listenFd := -1, nb_worker := False\<rparr>)
      else ([], sv\<lparr>nb_running := False, nb_worker := False\<rparr>))"

text \<open>The server holds a listening descriptor exactly while it runs, and closes every one it opened.\<close>

definition server_ok :: "server \<Rightarrow> bool" where
  "server_ok sv \<longleftrightarrow> (nb_running sv \<longleftrightarrow> 0 \<le> nb_listenFd sv) \<and> (nb_worker sv \<longleftrightarrow> nb_running sv)"

lemma server_lifecycle:
  "server_ok new_server"
  "server_ok sv \<Longrightarrow> server_ok (snd (snd (server_start r sv))) \<and> fst (server_start r sv) = nb_running (snd (snd (server_start r sv)))"
  "server_ok sv \<Longrightarrow> \<not> nb_running sv \<Longrightarrow> 0 \<le> lr_socket r \<Longrightarrow> \<not> fst (server_start r sv) \<Longrightarrow> fst (snd (server_start r sv)) = [lr_socket r]"
  "server_ok sv \<Longrightarrow> server_ok (snd (server_stop sv)) \<and> \<not> nb_running (snd (server_stop sv)) \<and>
     fst (server_stop sv) = (if nb_running sv then [nb_listenFd sv] else [])"
  by (auto simp: server_ok_def new_server_def server_start_def server_stop_def Let_def)

section \<open>The helpers on a byte stream\<close>

context byte_stream
begin

lemma receiveExact_stream:
  "n \<le> length (pending w) \<Longrightarrow>
     \<exists>w'. receiveExact net fd n w = Some (Some (take n (pending w)), w') \<and> pending w' = drop n (pending w) \<and>
       outbox w' = outbox w"
proof (induction "(n, budget w)" arbitrary: n w rule: wf_induct_rule [OF wf_lex_prod [OF wf_less wf_less]])
  case 1
  note IH = this(1) and len = this(2)
  show ?case
  proof (cases "n = 0")
    case True
    then show ?thesis by (subst receiveExact.simps) simp
  next
    case False
    with len have "pending w \<noteq> []" by auto
    obtain r w1 where r: "run_state (os_recv net fd n) w = (r, w1)" by fastforce
    from recv_ok [of n w] False \<open>pending w \<noteq> []\<close> have law: "recv_law pending outbox budget n w (r, w1)"
      by (simp add: r)
    show ?thesis
    proof (cases r)
      case (Got bs)
      with law have bs: "bs \<noteq> []" "length bs \<le> n" "pending w = bs @ pending w1" "outbox w1 = outbox w"
        by (auto simp: recv_law_def)
      have "n - length bs < n" using bs(1) False by simp
      moreover have "n - length bs \<le> length (pending w1)" using bs len by simp
      ultimately obtain w' where
        "receiveExact net fd (n - length bs) w1 = Some (Some (take (n - length bs) (pending w1)), w')"
        "pending w' = drop (n - length bs) (pending w1)" "outbox w' = outbox w1"
        using IH [of "n - length bs" w1] by auto
      with bs False Got r show ?thesis
        by (subst receiveExact.simps) simp
    next
      case RecvIntr
      with law have p: "pending w1 = pending w" "budget w1 < budget w" "outbox w1 = outbox w"
        by (auto simp: recv_law_def)
      then obtain w' where "receiveExact net fd n w1 = Some (Some (take n (pending w1)), w')"
        "pending w' = drop n (pending w1)" "outbox w' = outbox w1"
        using IH [of n w1] len by auto
      with p False RecvIntr r show ?thesis by (subst receiveExact.simps) simp
    next
      case RecvErr
      with law show ?thesis by (simp add: recv_law_def)
    qed
  qed
qed

lemma sendAll_stream:
  "\<exists>w'. sendAll net fd data w = Some (True, w') \<and> pending w' = pending w \<and> outbox w' = outbox w @ data"
proof (induction "(length data, budget w)" arbitrary: data w
    rule: wf_induct_rule [OF wf_lex_prod [OF wf_less wf_less]])
  case 1
  note IH = this
  show ?case
  proof (cases "data = []")
    case True
    then show ?thesis by (subst sendAll.simps) simp
  next
    case False
    obtain r w1 where r: "run_state (os_send net fd data) w = (r, w1)" by fastforce
    have law: "send_law pending outbox budget data w (r, w1)" using send_ok [OF False, of w] r by simp
    show ?thesis
    proof (cases r)
      case (Sent k)
      with law have k: "0 < k" "k \<le> length data" "outbox w1 = outbox w @ take k data" "pending w1 = pending w"
        by (auto simp: send_law_def)
      then have "length (drop k data) < length data" by simp
      then obtain w' where "sendAll net fd (drop k data) w1 = Some (True, w')" "pending w' = pending w1"
          "outbox w' = outbox w1 @ drop k data"
        using IH [of "drop k data" w1] by auto
      with k False Sent r show ?thesis by (subst sendAll.simps) simp
    next
      case SendIntr
      with law have "outbox w1 = outbox w" "budget w1 < budget w" "pending w1 = pending w"
        by (auto simp: send_law_def)
      moreover from this obtain w' where "sendAll net fd data w1 = Some (True, w')" "pending w' = pending w1"
          "outbox w' = outbox w1 @ data"
        using IH [of data w1] by auto
      ultimately show ?thesis using False SendIntr r by (subst sendAll.simps) simp
    next
      case SendErr
      with law show ?thesis by (simp add: send_law_def)
    qed
  qed
qed

text \<open>One request, whatever the segmentation: the reply depends on the bytes alone.\<close>

lemma serve_request_stream:
  assumes "pending w = adu @ rest" "length adu = 6 + unat (readU16 adu 4)" "frame_ok (take 7 adu)"
  shows "\<exists>w'. serve_request net cfg fd b w =
      Some (True, snd (frame_answer cfg b (take 7 adu) (drop 7 adu)), w') \<and>
    pending w' = rest \<and> outbox w' = outbox w @ fst (frame_answer cfg b (take 7 adu) (drop 7 adu))"
proof -
  define n where "n = unat (readU16 adu 4)"
  have "2 \<le> n" using assms(3) by (simp add: frame_ok_def n_def word_le_nat_alt)
  have adu: "length adu = 6 + n" using assms(2) by (simp add: n_def)
  obtain w1 where w1: "receiveExact net fd 7 w = Some (Some (take 7 adu), w1)"
      "pending w1 = drop 7 adu @ rest" "outbox w1 = outbox w"
    using receiveExact_stream [of 7 w] assms(1) adu \<open>2 \<le> n\<close> by auto
  have "n - 1 \<le> length (pending w1)" using w1(2) adu \<open>2 \<le> n\<close> by simp
  then obtain w2 where w2: "receiveExact net fd (n - 1) w1 = Some (Some (drop 7 adu), w2)"
      "pending w2 = rest" "outbox w2 = outbox w"
    using receiveExact_stream [of "n - 1" w1] w1 adu \<open>2 \<le> n\<close> by auto
  obtain w3 where "sendAll net fd (fst (frame_answer cfg b (take 7 adu) (drop 7 adu))) w2 = Some (True, w3)"
      "pending w3 = rest" "outbox w3 = outbox w @ fst (frame_answer cfg b (take 7 adu) (drop 7 adu))"
    using sendAll_stream [of "fst (frame_answer cfg b (take 7 adu) (drop 7 adu))" w2] w2 by auto
  with w1 w2 assms(3) show ?thesis
    by (simp add: serve_request_def n_def case_prod_beta)
qed

end

section \<open>The handler keeps the bank well formed\<close>

text \<open>What a PDU may do to the bank: the holding registers change within their size, nothing else.\<close>

definition only_holding :: "bank \<Rightarrow> bank \<Rightarrow> bool" where
  "only_holding b b' \<longleftrightarrow> length (bk_holding b') = length (bk_holding b) \<and> b' = b\<lparr>bk_holding := bk_holding b'\<rparr>"

lemma only_holding_refl [simp]: "only_holding b b"
  by (simp add: only_holding_def)

lemma write_only_holding: "bank_writeHolding b start vs = (ok, b') \<Longrightarrow> only_holding b b'"
  by (auto simp: bank_writeHolding_def only_holding_def split: if_splits)

lemma handlePdu_only_holding: "only_holding b (snd (handlePdu b pdu))"
  using write_only_holding
  by (auto simp: handlePdu_def Let_def split: option.split prod.split)

lemma only_holding_ok: "only_holding b b' \<Longrightarrow> bank_ok b \<Longrightarrow> bank_ok b'"
  by (cases b; cases b') (auto simp: only_holding_def bank_ok_def)

text \<open>A reply fits a frame and carries the function code, with the high bit set for an exception.\<close>

lemma readRange_length: "readRange regs start count = Some vs \<Longrightarrow> length vs = unat count"
  by (auto simp: readRange_def split: if_splits)

lemma count_bound: "\<not> 125 < (count :: u16) \<Longrightarrow> unat count \<le> 125"
  by (simp add: not_less word_le_nat_alt)

lemma handlePdu_reply:
  "fst (handlePdu b pdu) \<noteq> [] \<and> length (fst (handlePdu b pdu)) \<le> 252"
  by (auto simp: handlePdu_def Let_def exception_pdu_def foldl_appendU16 appendU16_def bank_readHolding_def
      bank_readInput_def dest!: readRange_length count_bound split: option.split prod.split)

section \<open>The frame handler as a register server\<close>

definition northbound_serve :: "server_config \<Rightarrow> bank \<Rightarrow> u8 list \<Rightarrow> u8 list \<times> bank" where
  "northbound_serve cfg bank adu =
     (if frame_ok (take 7 adu) then frame_answer cfg bank (take 7 adu) (drop 7 adu) else ([], bank))"

lemma frame_ok_mbap:
  assumes "0 < length pdu" "length pdu < 254" shows "frame_ok (take 7 (mbap tid u pdu))"
proof -
  have "(2 :: u16) \<le> of_nat (length pdu + 1)" "(of_nat (length pdu + 1) :: u16) \<le> 254"
    using assms by (simp_all add: word_le_nat_alt unat_of_nat16 Suc_le_eq del: of_nat_add of_nat_Suc length_greater_0_conv)
  then show ?thesis by (simp add: frame_ok_def del: mbap_fields(5))
qed

lemma frame_answer_mbap:
  "frame_answer cfg b (take 7 (mbap tid (sv_unitId cfg) pdu)) pdu =
     (mbap tid (sv_unitId cfg) (fst (handlePdu b pdu)), snd (handlePdu b pdu))"
  by (simp add: frame_answer_def mbap_def appendU16_def case_prod_beta nth_append)

lemma serve_mbap:
  assumes "0 < length pdu" "length pdu < 254"
  shows "northbound_serve cfg b (mbap tid (sv_unitId cfg) pdu) =
    (mbap tid (sv_unitId cfg) (fst (handlePdu b pdu)), snd (handlePdu b pdu))"
  using frame_ok_mbap [OF assms, of tid "sv_unitId cfg"] frame_answer_mbap [of cfg b tid pdu]
  unfolding northbound_serve_def by (simp only: if_True mbap_fields(6))

lemma handle_read:
  assumes "0 < unat n" "unat n \<le> 125"
  shows "unat a + unat n \<le> length (bk_holding b) \<Longrightarrow> handlePdu b (read_pdu 0x03 a n) =
      (read_reply 0x03 (take (unat n) (drop (unat a) (bk_holding b))), b)"
    and "unat a + unat n \<le> length (bk_input b) \<Longrightarrow> handlePdu b (read_pdu 0x04 a n) =
      (read_reply 0x04 (take (unat n) (drop (unat a) (bk_input b))), b)"
proof -
  have n: "n \<noteq> 0" "\<not> 125 < n" using assms by (auto simp: word_less_nat_alt)
  have pdu: "read_pdu f a n \<noteq> []" for f by (simp add: read_pdu_def)
  show "unat a + unat n \<le> length (bk_holding b) \<Longrightarrow> handlePdu b (read_pdu 0x03 a n) =
      (read_reply 0x03 (take (unat n) (drop (unat a) (bk_holding b))), b)"
    "unat a + unat n \<le> length (bk_input b) \<Longrightarrow> handlePdu b (read_pdu 0x04 a n) =
      (read_reply 0x04 (take (unat n) (drop (unat a) (bk_input b))), b)"
    using n pdu by (simp_all add: handlePdu_def bank_readHolding_def bank_readInput_def readRange_def
        foldl_appendU16 read_reply_def Let_def)
qed

lemma handle_write_single:
  assumes "bank_ok b"
  shows "handlePdu b (write_pdu a v) = (if unat a + 1 \<le> 17
    then (write_pdu a v, b\<lparr>bk_holding := overwrite (bk_holding b) (unat a) [v]\<rparr>) else ([0x86, 2], b))"
proof -
  have pdu: "write_pdu a v \<noteq> []" by (simp add: write_pdu_def)
  show ?thesis using assms pdu
    by (auto simp: handlePdu_def bank_writeHolding_def Let_def bank_ok_def exception_pdu_def)
qed

lemma handle_write_range:
  assumes "bank_ok b" "vs \<noteq> []" "length vs \<le> 123" "unat a + length vs \<le> 17"
  shows "handlePdu b (write_range_pdu a vs) = (0x10 # u16_bytes a @ u16_bytes (of_nat (length vs)),
    b\<lparr>bk_holding := overwrite (bk_holding b) (unat a) vs\<rparr>)"
proof -
  define n :: u16 where "n = of_nat (length vs)"
  have un: "unat n = length vs" using assms(3) by (simp add: n_def unat_of_nat16)
  have n: "n \<noteq> 0" "\<not> 123 < n" using assms(2,3) un by (auto simp: word_less_nat_alt)
  have bc: "unat (of_nat (length vs * 2) :: u8) = length vs * 2"
    using assms(3) by (intro unat_of_nat8) simp
  have pdu: "write_range_pdu a vs \<noteq> []" by (simp add: write_range_pdu_def)
  have "readU16 (write_range_pdu a vs) 3 = n" by (simp add: n_def)
  with n un bc pdu assms show ?thesis
    by (simp add: handlePdu_def bank_writeHolding_def bank_ok_def Let_def appendU16_def n_def [symmetric]
        del: of_nat_mult)
qed

interpretation northbound: register_server "northbound_serve cfg" "sv_unitId cfg" bank_ok bk_holding bk_input 125
  "\<lambda>a k. 0 < k \<and> a + k \<le> 17" for cfg
  by unfold_locales
     (auto simp: serve_mbap handle_read handle_write_single handle_write_range bank_ok_def)

lemma handlePdu_function:
  assumes "pdu \<noteq> []"
  shows "hd (fst (handlePdu b pdu)) = pdu ! 0 \<or>
    (hd (fst (handlePdu b pdu)) = pdu ! 0 OR 0x80 \<and> length (fst (handlePdu b pdu)) = 2 \<and> snd (handlePdu b pdu) = b)"
proof -
  have w: "fst (bank_writeHolding b a vs) \<or> snd (bank_writeHolding b a vs) = b" for a vs
    by (simp add: bank_writeHolding_def)
  show ?thesis
    using assms w unfolding handlePdu_def Let_def
    by (auto simp: exception_pdu_def foldl_appendU16 appendU16_def hd_conv_nth case_prod_beta split: option.split)
qed

section \<open>Properties\<close>

text \<open>
  Property C19 (safety). Any byte string a client can send as a PDU leaves the bank well formed and
  touches nothing but holding registers: telemetry, node slots, operator results and the command
  latches are out of reach. The reply is never empty and fits a Modbus frame; it carries the
  request's function code, or it is a two-byte exception and the bank is unchanged.
\<close>

theorem northbound_pdu_safe:
  assumes "bank_ok b" "pdu \<noteq> []"
  shows "bank_ok (snd (handlePdu b pdu)) \<and> only_holding b (snd (handlePdu b pdu)) \<and>
    1 \<le> length (fst (handlePdu b pdu)) \<and> length (fst (handlePdu b pdu)) \<le> 252 \<and>
    (hd (fst (handlePdu b pdu)) = pdu ! 0 \<or>
     (hd (fst (handlePdu b pdu)) = pdu ! 0 OR 0x80 \<and> length (fst (handlePdu b pdu)) = 2 \<and> snd (handlePdu b pdu) = b))"
  using handlePdu_only_holding [of b pdu] only_holding_ok [OF _ assms(1)] handlePdu_reply [of b pdu]
    handlePdu_function [OF assms(2), of b]
  by (simp add: Suc_le_eq)

theorem northbound_pdu_safe_witness:
  "bank_ok (snd (handlePdu new_bank [0x06, 0, 2, 0, 1])) \<and> fst (handlePdu new_bank [0x2B, 14, 1, 0]) = [0xAB, 1]"
proof
  show "bank_ok (snd (handlePdu new_bank [0x06, 0, 2, 0, 1]))"
    using northbound_pdu_safe [OF new_bank_ok, of "[0x06, 0, 2, 0, 1]"] by simp
  show "fst (handlePdu new_bank [0x2B, 14, 1, 0]) = [0xAB, 1]"
    by (simp add: handlePdu_def exception_pdu_def)
qed

text \<open>
  A block written with function 16 is read back with function 3 exactly, and
  a value written with function 6 likewise, through the complete frame handler.
\<close>

theorem northbound_write_then_read:
  assumes "bank_ok b" "vs \<noteq> []" "unat a + length vs \<le> HoldingRegisterCount"
  shows "\<exists>b'. northbound_serve cfg b (mbap t1 (sv_unitId cfg) (write_range_pdu a vs)) =
      (mbap t1 (sv_unitId cfg) (0x10 # u16_bytes a @ u16_bytes (of_nat (length vs))), b') \<and>
    northbound_serve cfg b' (mbap t2 (sv_unitId cfg) (read_pdu 0x03 a (of_nat (length vs)))) =
      (mbap t2 (sv_unitId cfg) (read_reply 0x03 vs), b')"
proof -
  have len: "length vs \<le> 123" "unat (of_nat (length vs) :: u16) = length vs"
    using assms(3) by (simp_all add: unat_of_nat16)
  then obtain b' where b': "northbound_serve cfg b (mbap t1 (sv_unitId cfg) (write_range_pdu a vs)) =
      (mbap t1 (sv_unitId cfg) (0x10 # u16_bytes a @ u16_bytes (of_nat (length vs))), b')"
      "bank_ok b'" "bk_holding b' = overwrite (bk_holding b) (unat a) vs"
    using northbound.write_range [OF assms(1,2) len(1), of a cfg t1] assms(2,3) by auto
  have fits: "unat a + length vs \<le> length (bk_holding b)" using assms(1,3) by (simp add: bank_ok_def)
  then have "northbound_serve cfg b' (mbap t2 (sv_unitId cfg) (read_pdu 0x03 a (of_nat (length vs)))) =
      (mbap t2 (sv_unitId cfg) (read_reply 0x03 vs), b')"
    using northbound.read_holding [OF b'(2), of "of_nat (length vs)" a cfg t2] len assms(2) b'(3)
    by (simp add: overwrite_range)
  with b'(1) show ?thesis by blast
qed

theorem northbound_write_then_read_witness:
  "\<exists>b'. northbound_serve \<lparr>sv_bindAddress = ''0.0.0.0'', sv_port = 1502, sv_unitId = 1\<rparr> b' (mbap 8 1 (read_pdu 0x03 0 3)) =
     (mbap 8 1 (read_reply 0x03 [1, 500, 1]), b')"
  using northbound_write_then_read [OF new_bank_ok, of "[1, 500, 1]" 0
      "\<lparr>sv_bindAddress = ''0.0.0.0'', sv_port = 1502, sv_unitId = 1\<rparr>" 7 8] by auto

text \<open>
  Property C23 (liveness). However TCP splits the bytes of a request, however often the calls are
  interrupted and however little each send accepts, the server consumes exactly the request, answers
  exactly once with the frame computed from its bytes, and keeps the connection.
\<close>

theorem northbound_segmentation:
  assumes "script_pending w = mbap tid u pdu @ rest" "0 < length pdu" "length pdu < 254"
  shows "\<exists>w' b'. serve_request script_net cfg fd b w = Some (True, b', w') \<and> script_pending w' = rest \<and>
    (if u = sv_unitId cfg
     then sc_outbox w' = sc_outbox w @ mbap tid u (fst (handlePdu b pdu)) \<and> b' = snd (handlePdu b pdu)
     else sc_outbox w' = sc_outbox w @ mbap tid u [pdu ! 0 OR 0x80, 0x0B] \<and> b' = b)"
proof -
  have l: "length (mbap tid u pdu) = 6 + unat (readU16 (mbap tid u pdu) 4)"
    using assms(3) by (simp add: unat_of_nat16 del: of_nat_add of_nat_Suc)
  have a: "frame_answer cfg b (take 7 (mbap tid u pdu)) (drop 7 (mbap tid u pdu)) =
      (if u = sv_unitId cfg then (mbap tid u (fst (handlePdu b pdu)), snd (handlePdu b pdu))
       else (mbap tid u [pdu ! 0 OR 0x80, 0x0B], b))"
    by (simp add: frame_answer_def mbap_def appendU16_def case_prod_beta nth_append exception_pdu_def)
  from script.serve_request_stream [OF assms(1) l frame_ok_mbap [OF assms(2,3)], of cfg fd b]
  show ?thesis unfolding a by (cases "u = sv_unitId cfg") auto
qed

theorem northbound_segmentation_witness:
  "\<exists>w' b'. serve_request script_net \<lparr>sv_bindAddress = ''0.0.0.0'', sv_port = 1502, sv_unitId = 1\<rparr> 5 new_bank
     \<lparr>sc_events = [Data [0, 9, 0], Interrupted, Data [0, 0, 6, 1, 3], Data [0, 0, 0, 1, 0xFF]], sc_outbox = [], sc_window = 2\<rparr> =
       Some (True, b', w') \<and> script_pending w' = [0xFF]"
proof -
  let ?w = "\<lparr>sc_events = [Data [0, 9, 0], Interrupted, Data [0, 0, 6, 1, 3], Data [0, 0, 0, 1, 0xFF]],
     sc_outbox = [], sc_window = 2\<rparr>"
  have "script_pending ?w = mbap 9 1 [3, 0, 0, 0, 1] @ [0xFF]"
    by (simp add: script_pending_def mbap_def u16_bytes_def)
  from northbound_segmentation [OF this, of "\<lparr>sv_bindAddress = ''0.0.0.0'', sv_port = 1502, sv_unitId = 1\<rparr>" 5 new_bank]
  show ?thesis by auto
qed

end
