(* ===== verification/PosixClient.thy ===== *)
theory PosixClient
  imports NorthboundServer ModbusClient
begin

text \<open>
  The Modbus TCP client of the Rock Pi (\<^verbatim>\<open>base-rockpie/src/PosixModbusTcpClient.cpp\<close>): connection set-up,
  the blocking send and receive loops, one framed transaction, and the register operations on top.
  The operating system calls are the fields of a record, as in theory \<^verbatim>\<open>Sockets\<close>; a socket time-out
  is a failed call. The mutex covers each operation, so an operation is one step on the pair of the
  client object and the network. The operations instantiate the interface \<^verbatim>\<open>IModbusClient\<close>.
\<close>

section \<open>The object and the calls it makes\<close>

record endpoint =
  ep_host :: string
  ep_port :: u16
  ep_unitId :: u8
  ep_timeout :: int

definition default_endpoint :: endpoint where
  "default_endpoint = \<lparr>ep_host = ''192.168.50.10'', ep_port = 3200, ep_unitId = 1, ep_timeout = 800\<rparr>"

record ('n, 'a) client_net = "'n net" +
  os_getaddrinfo :: "string \<Rightarrow> u16 \<Rightarrow> ('n, 'a list option) state"
  os_socket :: "'a \<Rightarrow> ('n, int) state"
  os_connect :: "int \<Rightarrow> 'a \<Rightarrow> ('n, bool) state"
  os_close :: "int \<Rightarrow> ('n, unit) state"

record posix_client =
  pc_socket :: int
  pc_transactionId :: u16

type_synonym 'n posix_world = "posix_client \<times> 'n"

definition new_client :: posix_client where
  "new_client = \<lparr>pc_socket = - 1, pc_transactionId = 0\<rparr>"

section \<open>Connection\<close>

fun try_addresses :: "('n, 'a) client_net \<Rightarrow> 'a list \<Rightarrow> 'n \<Rightarrow> int \<times> 'n" where
  "try_addresses net [] n = (- 1, n)"
| "try_addresses net (current # rest) n =
     (let (candidate, n1) = run_state (os_socket net current) n
      in if candidate < 0 then try_addresses net rest n1
         else let (isConnected, n2) = run_state (os_connect net candidate current) n1
              in if isConnected then (candidate, n2)
                 else try_addresses net rest (snd (run_state (os_close net candidate) n2)))"

definition connectLocked :: "('n, 'a) client_net \<Rightarrow> endpoint \<Rightarrow> 'n posix_world \<Rightarrow> bool \<times> 'n posix_world" where
  "connectLocked net ep = (\<lambda>(pc, n).
     if 0 \<le> pc_socket pc then (True, (pc, n))
     else let (addresses, n1) = run_state (os_getaddrinfo net (ep_host ep) (ep_port ep)) n
          in case addresses of None \<Rightarrow> (False, (pc, n1))
             | Some as \<Rightarrow>
                 (let (fd, n2) = try_addresses net as n1;
                      pc' = (if 0 \<le> fd then pc\<lparr>pc_socket := fd\<rparr> else pc)
                  in (0 \<le> pc_socket pc', (pc', n2))))"

definition disconnectLocked :: "('n, 'a) client_net \<Rightarrow> 'n posix_world \<Rightarrow> 'n posix_world" where
  "disconnectLocked net = (\<lambda>(pc, n).
     if 0 \<le> pc_socket pc then (pc\<lparr>pc_socket := - 1\<rparr>, snd (run_state (os_close net (pc_socket pc)) n))
     else (pc, n))"

section \<open>Blocking loops\<close>

text \<open>Unlike the server's, these give up on the first result that is not positive, so they end.\<close>

function client_sendAll :: "('n, 'x) net_scheme \<Rightarrow> int \<Rightarrow> u8 list \<Rightarrow> 'n \<Rightarrow> bool \<times> 'n" where
  "client_sendAll net fd bytes n =
     (if bytes = [] then (True, n)
      else let r = run_state (os_send net fd bytes) n
           in case fst r of
                Sent k \<Rightarrow> if k = 0 then (False, snd r) else client_sendAll net fd (drop k bytes) (snd r)
              | _ \<Rightarrow> (False, snd r))"
  by pat_completeness auto
termination
  by (relation "measure (\<lambda>(net, fd, bytes, n). length bytes)") auto

function client_receiveAll :: "('n, 'x) net_scheme \<Rightarrow> int \<Rightarrow> nat \<Rightarrow> 'n \<Rightarrow> u8 list option \<times> 'n" where
  "client_receiveAll net fd need n =
     (if need = 0 then (Some [], n)
      else let r = run_state (os_recv net fd need) n
           in case fst r of
                Got bs \<Rightarrow> if bs = [] then (None, snd r)
                  else let rest = client_receiveAll net fd (need - length bs) (snd r)
                       in (map_option ((@) bs) (fst rest), snd rest)
              | _ \<Rightarrow> (None, snd r))"
  by pat_completeness auto
termination
  by (relation "measure (\<lambda>(net, fd, need, n). need)") auto

declare client_sendAll.simps [simp del] client_receiveAll.simps [simp del]

section \<open>One transaction\<close>

definition request_adu :: "u16 \<Rightarrow> u8 \<Rightarrow> u8 \<Rightarrow> u8 list \<Rightarrow> u8 list" where
  "request_adu transaction unitId function payload =
     appendU16 (appendU16 (appendU16 [] transaction) 0) (of_nat (2 + length payload)) @ [unitId] @ [function] @ payload"

definition reply_header_ok :: "u16 \<Rightarrow> u8 \<Rightarrow> u8 list \<Rightarrow> bool" where
  "reply_header_ok transaction unitId header \<longleftrightarrow>
     readU16 header 0 = transaction \<and> readU16 header 2 = 0 \<and> 2 \<le> readU16 header 4 \<and>
     header ! 6 = unitId \<and> readU16 header 4 \<le> 260"

definition transactLocked ::
  "('n, 'a) client_net \<Rightarrow> endpoint \<Rightarrow> u8 \<Rightarrow> u8 list \<Rightarrow> 'n posix_world \<Rightarrow> u8 list option \<times> 'n posix_world" where
  "transactLocked net ep function payload w =
     (case connectLocked net ep w of (isConnected, (pc0, n0)) \<Rightarrow>
      if \<not> isConnected then (None, (pc0, n0))
      else let transaction = pc_transactionId pc0 + 1;
               pc = pc0\<lparr>pc_transactionId := transaction\<rparr>;
               (sent, n1) = client_sendAll net (pc_socket pc)
                 (request_adu transaction (ep_unitId ep) function payload) n0
           in if \<not> sent then (None, disconnectLocked net (pc, n1))
      else let (header, n2) = client_receiveAll net (pc_socket pc) 7 n1
           in case header of None \<Rightarrow> (None, disconnectLocked net (pc, n2))
      | Some h \<Rightarrow>
          if \<not> reply_header_ok transaction (ep_unitId ep) h then (None, disconnectLocked net (pc, n2))
          else let (body, n3) = client_receiveAll net (pc_socket pc) (unat (readU16 h 4) - 1) n2
               in case body of None \<Rightarrow> (None, disconnectLocked net (pc, n3))
          | Some pdu \<Rightarrow>
              if pdu = [] \<or> pdu ! 0 \<noteq> function \<or> pdu ! 0 AND 0x80 \<noteq> 0 then (None, (pc, n3))
              else (Some pdu, (pc, n3)))"

section \<open>Register operations\<close>

definition posix_readRegister ::
  "('n, 'a) client_net \<Rightarrow> endpoint \<Rightarrow> u8 \<Rightarrow> u16 \<Rightarrow> 'n posix_world \<Rightarrow> u16 option \<times> 'n posix_world" where
  "posix_readRegister net ep function address w =
     (let (response, w') = transactLocked net ep function (appendU16 (appendU16 [] address) 1) w
      in (case response of None \<Rightarrow> None
          | Some r \<Rightarrow> if length r \<noteq> 4 \<or> r ! 1 \<noteq> 2 then None else Some (readU16 r 2), w'))"

definition decode_range :: "u8 \<Rightarrow> u16 \<Rightarrow> u8 list option \<Rightarrow> u16 list option" where
  "decode_range function count response = (case response of None \<Rightarrow> None
     | Some r \<Rightarrow> if length r \<noteq> 2 + unat count * 2 \<or> r ! 0 \<noteq> function \<or> unat (r ! 1) \<noteq> unat count * 2
         then None else Some (readWords r 2 (unat count)))"

definition posix_readInputRange ::
  "('n, 'a) client_net \<Rightarrow> endpoint \<Rightarrow> u16 \<Rightarrow> u16 \<Rightarrow> 'n posix_world \<Rightarrow> u16 list option \<times> 'n posix_world" where
  "posix_readInputRange net ep start count w =
     (if count = 0 \<or> 125 < count \<or> 65536 < unat start + unat count then (None, w)
      else let (response, w') = transactLocked net ep 0x04
             [ucast (drop_bit 8 start), ucast start, ucast (drop_bit 8 count), ucast count] w
           in (decode_range 0x04 count response, w'))"

definition posix_readHoldingRange ::
  "('n, 'a) client_net \<Rightarrow> endpoint \<Rightarrow> u16 \<Rightarrow> u16 \<Rightarrow> 'n posix_world \<Rightarrow> u16 list option \<times> 'n posix_world" where
  "posix_readHoldingRange net ep start count w =
     (if count = 0 \<or> 125 < count then (None, w)
      else let (response, w') = transactLocked net ep 0x03
             [ucast (drop_bit 8 start), ucast start, ucast (drop_bit 8 count), ucast count] w
           in (decode_range 0x03 count response, w'))"

definition posix_readCoil ::
  "('n, 'a) client_net \<Rightarrow> endpoint \<Rightarrow> u16 \<Rightarrow> 'n posix_world \<Rightarrow> bool option \<times> 'n posix_world" where
  "posix_readCoil net ep address w =
     (let (response, w') = transactLocked net ep 0x01 (appendU16 (appendU16 [] address) 1) w
      in (case response of None \<Rightarrow> None
          | Some r \<Rightarrow> if length r \<noteq> 3 \<or> r ! 1 \<noteq> 1 then None else Some (r ! 2 AND 0x01 \<noteq> 0), w'))"

definition posix_writeHolding ::
  "('n, 'a) client_net \<Rightarrow> endpoint \<Rightarrow> u16 \<Rightarrow> u16 \<Rightarrow> 'n posix_world \<Rightarrow> bool \<times> 'n posix_world" where
  "posix_writeHolding net ep address v w =
     (let (response, w') = transactLocked net ep 0x06 (appendU16 (appendU16 [] address) v) w
      in (case response of None \<Rightarrow> False
          | Some r \<Rightarrow> length r = 5 \<and> readU16 r 1 = address \<and> readU16 r 3 = v, w'))"

definition posix_writeHoldingRange ::
  "('n, 'a) client_net \<Rightarrow> endpoint \<Rightarrow> u16 \<Rightarrow> u16 list \<Rightarrow> 'n posix_world \<Rightarrow> bool \<times> 'n posix_world" where
  "posix_writeHoldingRange net ep start values w =
     (if values = [] \<or> 123 < length values then (False, w)
      else let count = of_nat (length values) :: u16;
               payload = [ucast (drop_bit 8 start), ucast start, ucast (drop_bit 8 count), ucast count,
                 of_nat (length values * 2)] @ concat (map (\<lambda>v. [ucast (drop_bit 8 v), ucast v]) values);
               (response, w') = transactLocked net ep 0x10 payload w
           in (case response of None \<Rightarrow> False
               | Some r \<Rightarrow> length r = 5 \<and> r ! 0 = 0x10 \<and> r ! 1 = ucast (drop_bit 8 start) \<and> r ! 2 = ucast start \<and>
                   r ! 3 = ucast (drop_bit 8 count) \<and> r ! 4 = ucast count, w'))"

text \<open>The override of the interface \<^verbatim>\<open>IModbusClient\<close>.\<close>

definition posix_modbus :: "('n, 'a) client_net \<Rightarrow> endpoint \<Rightarrow> 'n posix_world modbus_client" where
  "posix_modbus net ep = \<lparr>
     mc_readInput = (\<lambda>address. State (posix_readRegister net ep 0x04 address)),
     mc_readInputRange = (\<lambda>start count. State (posix_readInputRange net ep start count)),
     mc_readHolding = (\<lambda>address. State (posix_readRegister net ep 0x03 address)),
     mc_readCoil = (\<lambda>address. State (posix_readCoil net ep address)),
     mc_writeHolding = (\<lambda>address v. State (posix_writeHolding net ep address v))\<rparr>"

section \<open>Framing\<close>

lemma request_adu_mbap: "request_adu t u f payload = mbap t u (f # payload)"
  by (simp add: request_adu_def mbap_def appendU16_def)

lemma disconnect_socket [simp]: "pc_socket pc < 0 \<Longrightarrow> disconnectLocked net (pc, n) = (pc, n)"
  by (simp add: disconnectLocked_def)

lemma connect_open [simp]: "0 \<le> pc_socket pc \<Longrightarrow> connectLocked net ep (pc, n) = (True, (pc, n))"
  by (simp add: connectLocked_def)

lemma connect_ok: "connectLocked net ep w = (True, (pc, n)) \<Longrightarrow>
    0 \<le> pc_socket pc \<and> pc_transactionId pc = pc_transactionId (fst w)"
  by (auto simp: connectLocked_def Let_def split: prod.splits if_splits option.splits)

section \<open>A server at the other end of the connection\<close>

text \<open>
  The network of a client talking to a server \<open>serve\<close>: bytes sent are collected until they form a
  complete frame, which is then served; the reply waits to be received. A schedule decides how many
  bytes each call moves, so every segmentation is covered. Receiving with nothing to come times out.
\<close>

record 's loop =
  lp_server :: 's
  lp_request :: "u8 list"
  lp_reply :: "u8 list"
  lp_chunks :: "nat list"

definition lp_chunk :: "'s loop \<Rightarrow> nat" where
  "lp_chunk l = (case lp_chunks l of [] \<Rightarrow> 1000 | c # cs \<Rightarrow> Suc c)"

definition lp_tick :: "'s loop \<Rightarrow> 's loop" where
  "lp_tick l = l\<lparr>lp_chunks := tl (lp_chunks l)\<rparr>"

definition frame_complete :: "u8 list \<Rightarrow> bool" where
  "frame_complete bs \<longleftrightarrow> 7 \<le> length bs \<and> 6 + unat (readU16 bs 4) \<le> length bs"

definition lp_deliver :: "('s \<Rightarrow> u8 list \<Rightarrow> u8 list \<times> 's) \<Rightarrow> 's loop \<Rightarrow> 's loop" where
  "lp_deliver serve l = (if frame_complete (lp_request l)
     then l\<lparr>lp_server := snd (serve (lp_server l) (lp_request l)), lp_request := [],
            lp_reply := lp_reply l @ fst (serve (lp_server l) (lp_request l))\<rparr>
     else l)"

definition loop_net :: "('s \<Rightarrow> u8 list \<Rightarrow> u8 list \<times> 's) \<Rightarrow> ('s loop, unit) client_net" where
  "loop_net serve = \<lparr>
     os_recv = \<lambda>fd n. State (\<lambda>l. let k = min n (lp_chunk l) in
       if lp_reply l = [] then (RecvErr, l)
       else (Got (take k (lp_reply l)), (lp_tick l)\<lparr>lp_reply := drop k (lp_reply l)\<rparr>)),
     os_send = \<lambda>fd bs. State (\<lambda>l. let k = min (length bs) (lp_chunk l) in
       (Sent k, lp_deliver serve ((lp_tick l)\<lparr>lp_request := lp_request l @ take k bs\<rparr>))),
     os_getaddrinfo = \<lambda>host port. State (\<lambda>l. (Some [()], l)),
     os_socket = \<lambda>a. State (\<lambda>l. (3, l)),
     os_connect = \<lambda>fd a. State (\<lambda>l. (True, l)),
     os_close = \<lambda>fd. State (\<lambda>l. ((), l\<lparr>lp_request := [], lp_reply := []\<rparr>))\<rparr>"

lemma lp_chunk_pos [simp]: "0 < lp_chunk l"
  by (simp add: lp_chunk_def split: list.split)

lemma lp_tick_simps [simp]:
  "lp_server (lp_tick l) = lp_server l" "lp_request (lp_tick l) = lp_request l" "lp_reply (lp_tick l) = lp_reply l"
  by (simp_all add: lp_tick_def)

lemma loop_receiveAll:
  "lp_reply l = bs @ rest \<Longrightarrow> n = length bs \<Longrightarrow>
     \<exists>l'. client_receiveAll (loop_net serve) fd n l = (Some bs, l') \<and> lp_reply l' = rest \<and>
       lp_server l' = lp_server l \<and> lp_request l' = lp_request l"
proof (induction n arbitrary: bs l rule: less_induct)
  case (less n)
  show ?case
  proof (cases "n = 0")
    case True
    with less show ?thesis by (subst client_receiveAll.simps) simp
  next
    case False
    define k where "k = min n (lp_chunk l)"
    define l1 where "l1 = (lp_tick l)\<lparr>lp_reply := drop k (lp_reply l)\<rparr>"
    have k: "0 < k" "k \<le> n" using False by (auto simp: k_def)
    have ne: "lp_reply l \<noteq> []" using False less.prems by auto
    have r: "run_state (os_recv (loop_net serve) fd n) l = (Got (take k (lp_reply l)), l1)"
      using ne by (simp add: loop_net_def k_def l1_def Let_def)
    have t: "take k (lp_reply l) = take k bs" using k less.prems by simp
    have nt: "take k bs \<noteq> []" "length (take k bs) = k" using k False less.prems by auto
    have "lp_reply l1 = drop k bs @ rest" using k less.prems by (simp add: l1_def)
    moreover have "n - k < n" "n - k = length (drop k bs)" using k less.prems by auto
    ultimately obtain l' where
      "client_receiveAll (loop_net serve) fd (n - k) l1 = (Some (drop k bs), l')" "lp_reply l' = rest"
      "lp_server l' = lp_server l1" "lp_request l' = lp_request l1" using less.IH by metis
    then show ?thesis
      using False r t nt by (subst client_receiveAll.simps) (simp add: Let_def l1_def)
  qed
qed

lemma frame_complete_prefix:
  assumes "mbap t u pdu = sent @ rest" "length pdu < 65535"
  shows "frame_complete sent \<longleftrightarrow> rest = []"
proof -
  have len: "length sent + length rest = 7 + length pdu"
    using arg_cong [OF assms(1), of length] by simp
  have field: "readU16 sent 4 = of_nat (length pdu + 1)" if "7 \<le> length sent"
    using that mbap_fields(3) [of t u pdu] unfolding assms(1) by (simp add: readU16_def nth_append)
  have "unat (of_nat (length pdu + 1) :: u16) = length pdu + 1" using assms(2) by (intro unat_of_nat16) simp
  with field have "frame_complete sent \<longleftrightarrow> 7 + length pdu \<le> length sent"
    by (auto simp: frame_complete_def)
  also have "\<dots> \<longleftrightarrow> length rest = 0" using len by linarith
  finally show ?thesis by simp
qed

lemma loop_sendAll:
  assumes "length pdu < 65535"
  shows "mbap t u pdu = lp_request l @ bytes \<Longrightarrow> bytes \<noteq> [] \<Longrightarrow>
     \<exists>l'. client_sendAll (loop_net serve) fd bytes l = (True, l') \<and> lp_request l' = [] \<and>
       lp_server l' = snd (serve (lp_server l) (mbap t u pdu)) \<and>
       lp_reply l' = lp_reply l @ fst (serve (lp_server l) (mbap t u pdu))"
proof (induction bytes arbitrary: l rule: length_induct)
  case (1 bytes)
  define k where "k = min (length bytes) (lp_chunk l)"
  define l0 where "l0 = (lp_tick l)\<lparr>lp_request := lp_request l @ take k bytes\<rparr>"
  have k: "0 < k" "k \<le> length bytes" using 1 by (auto simp: k_def)
  have r: "run_state (os_send (loop_net serve) fd bytes) l = (Sent k, lp_deliver serve l0)"
    by (simp add: loop_net_def k_def l0_def Let_def)
  have adu: "mbap t u pdu = lp_request l0 @ drop k bytes" using 1 by (simp add: l0_def)
  note fc = frame_complete_prefix [OF adu assms]
  show ?case
  proof (cases "drop k bytes = []")
    case True
    with adu have "lp_request l0 = mbap t u pdu" by simp
    then have "lp_deliver serve l0 = l0\<lparr>lp_server := snd (serve (lp_server l) (mbap t u pdu)), lp_request := [],
        lp_reply := lp_reply l @ fst (serve (lp_server l) (mbap t u pdu))\<rparr>"
      using fc True by (simp add: lp_deliver_def l0_def)
    with True r 1 k show ?thesis
      by (subst client_sendAll.simps, subst client_sendAll.simps) (simp add: Let_def)
  next
    case False
    then have d: "lp_deliver serve l0 = l0" using fc by (simp add: lp_deliver_def)
    have "length (drop k bytes) < length bytes" using k by simp
    with 1 adu False obtain l' where
      "client_sendAll (loop_net serve) fd (drop k bytes) l0 = (True, l')" "lp_request l' = []"
      "lp_server l' = snd (serve (lp_server l0) (mbap t u pdu))"
      "lp_reply l' = lp_reply l0 @ fst (serve (lp_server l0) (mbap t u pdu))" by blast
    with r d k 1 show ?thesis
      by (subst client_sendAll.simps) (simp add: Let_def l0_def)
  qed
qed

text \<open>One transaction over the loop: the reply of the server, accepted or refused by its function code.\<close>

definition idle :: "'s loop \<Rightarrow> bool" where
  "idle l \<longleftrightarrow> lp_request l = [] \<and> lp_reply l = []"

lemma loop_transact:
  assumes "0 \<le> pc_socket pc" "idle l" "request = f # payload" "length payload \<le> 252"
    and "serve (lp_server l) (mbap (pc_transactionId pc + 1) (ep_unitId ep) request) =
      (mbap (pc_transactionId pc + 1) (ep_unitId ep) reply, s')"
    and "reply \<noteq> []" "length reply \<le> 259"
  shows "\<exists>l'. transactLocked (loop_net serve) ep f payload (pc, l) =
      (if reply ! 0 \<noteq> f \<or> reply ! 0 AND 0x80 \<noteq> 0 then None else Some reply,
       (pc\<lparr>pc_transactionId := pc_transactionId pc + 1\<rparr>, l')) \<and> idle l' \<and> lp_server l' = s'"
proof -
  define t where "t = pc_transactionId pc + 1"
  define u where "u = ep_unitId ep"
  have "mbap t u (f # payload) = lp_request l @ mbap t u (f # payload)" "mbap t u (f # payload) \<noteq> []"
    using assms(2) by (simp_all add: idle_def mbap_def)
  from loop_sendAll [OF _ this, of "serve" "pc_socket pc"] assms(4) obtain l1 where
    l1: "client_sendAll (loop_net serve) (pc_socket pc) (mbap t u (f # payload)) l = (True, l1)"
      "lp_request l1 = []" "lp_server l1 = s'" "lp_reply l1 = mbap t u reply"
    using assms(2,3,5) by (auto simp: idle_def t_def u_def)
  have "lp_reply l1 = take 7 (mbap t u reply) @ reply"
    using l1(4) append_take_drop_id [of 7 "mbap t u reply"] by (simp only: mbap_fields(6))
  from loop_receiveAll [OF this, of 7 "serve" "pc_socket pc"] l1 obtain l2 where
    l2: "client_receiveAll (loop_net serve) (pc_socket pc) 7 l1 = (Some (take 7 (mbap t u reply)), l2)"
      "lp_reply l2 = reply @ []" "lp_server l2 = s'" "lp_request l2 = []" by auto
  have n: "unat (of_nat (length reply + 1) :: u16) = length reply + 1"
    using assms(7) by (intro unat_of_nat16) simp
  obtain l3 where
    l3: "client_receiveAll (loop_net serve) (pc_socket pc) (length reply) l2 = (Some reply, l3)"
      "lp_reply l3 = []" "lp_server l3 = s'" "lp_request l3 = []"
    using loop_receiveAll [OF l2(2) refl, of "serve" "pc_socket pc"] l2 by auto
  have fields: "readU16 (take 7 (mbap t u reply)) 0 = t" "readU16 (take 7 (mbap t u reply)) 2 = 0"
    "unat (readU16 (take 7 (mbap t u reply)) 4) = length reply + 1" "take 7 (mbap t u reply) ! 6 = u"
    using n by (simp_all del: mbap_fields(5) of_nat_add of_nat_Suc)
  have "2 \<le> length reply + 1" using assms(6) by (cases reply) auto
  then have "reply_header_ok t u (take 7 (mbap t u reply))"
    unfolding reply_header_ok_def word_le_nat_alt using fields assms(7) by (simp del: mbap_fields)
  with l1 l2 l3 fields assms(1,6) show ?thesis
    by (auto simp: transactLocked_def request_adu_mbap Let_def idle_def t_def [symmetric] u_def [symmetric]
        simp del: mbap_fields)
qed

context register_server
begin

lemma client_writeHolding:
  assumes "0 \<le> pc_socket pc" "idle l" "ep_unitId ep = unitId" "good (lp_server l)"
  shows "\<exists>l'. posix_writeHolding (loop_net serve) ep a v (pc, l) =
      (writable (unat a) 1, (pc\<lparr>pc_transactionId := pc_transactionId pc + 1\<rparr>, l')) \<and> idle l' \<and> good (lp_server l') \<and>
    holding (lp_server l') = (if writable (unat a) 1 then overwrite (holding (lp_server l)) (unat a) [v]
      else holding (lp_server l))"
proof (cases "writable (unat a) 1")
  case True
  from write_single [OF assms(4) True, of "pc_transactionId pc + 1" v] obtain s' where
    s': "serve (lp_server l) (mbap (pc_transactionId pc + 1) (ep_unitId ep) (write_pdu a v)) =
        (mbap (pc_transactionId pc + 1) (ep_unitId ep) (write_pdu a v), s')" "good s'"
      "holding s' = overwrite (holding (lp_server l)) (unat a) [v]"
    using assms(3) by auto
  have w: "write_pdu a v = 6 # appendU16 (appendU16 [] a) v" "write_pdu a v \<noteq> []"
    by (simp_all add: write_pdu_def appendU16_def)
  from loop_transact [where serve = serve, OF assms(1,2) w(1) _ s'(1)] w(2) obtain l' where
    "transactLocked (loop_net serve) ep 6 (appendU16 (appendU16 [] a) v) (pc, l) =
      (Some (write_pdu a v), (pc\<lparr>pc_transactionId := pc_transactionId pc + 1\<rparr>, l'))" "idle l'" "lp_server l' = s'"
    by (auto simp: appendU16_def)
  with True s' show ?thesis by (simp add: posix_writeHolding_def)
next
  case False
  from write_refused [OF assms(4) False, of "pc_transactionId pc + 1" v] obtain code where
    s': "serve (lp_server l) (mbap (pc_transactionId pc + 1) (ep_unitId ep) (write_pdu a v)) =
        (mbap (pc_transactionId pc + 1) (ep_unitId ep) [0x86, code], lp_server l)"
    using assms(3) by auto
  have w: "write_pdu a v = 6 # appendU16 (appendU16 [] a) v"
    by (simp add: write_pdu_def appendU16_def)
  from loop_transact [where serve = serve, OF assms(1,2) w _ s'] obtain l' where
    "transactLocked (loop_net serve) ep 6 (appendU16 (appendU16 [] a) v) (pc, l) =
      (None, (pc\<lparr>pc_transactionId := pc_transactionId pc + 1\<rparr>, l'))" "idle l'" "lp_server l' = lp_server l"
    by (auto simp: appendU16_def)
  with False assms(4) show ?thesis by (simp add: posix_writeHolding_def)
qed

lemma client_readRegister:
  assumes "0 \<le> pc_socket pc" "idle l" "ep_unitId ep = unitId" "good (lp_server l)" "1 \<le> maxRead"
    and "f = 0x03 \<and> regs = holding (lp_server l) \<or> f = 0x04 \<and> regs = inputs (lp_server l)"
    and "unat a < length regs"
  shows "\<exists>l'. posix_readRegister (loop_net serve) ep f a (pc, l) =
      (Some (regs ! unat a), (pc\<lparr>pc_transactionId := pc_transactionId pc + 1\<rparr>, l')) \<and> idle l' \<and>
    lp_server l' = lp_server l"
proof -
  have t: "take (Suc 0) (drop (unat a) regs) = [regs ! unat a]"
    using assms(7) by (simp add: take_Suc_conv_app_nth)
  have s': "serve (lp_server l) (mbap (pc_transactionId pc + 1) (ep_unitId ep) (read_pdu f a 1)) =
      (mbap (pc_transactionId pc + 1) (ep_unitId ep) (read_reply f [regs ! unat a]), lp_server l)"
    using assms(3-7) t read_holding [of "lp_server l" 1 a] read_input [of "lp_server l" 1 a] by auto
  have w: "read_pdu f a 1 = f # appendU16 (appendU16 [] a) 1"
    by (simp add: read_pdu_def appendU16_def)
  have r: "read_reply f [regs ! unat a] = f # 2 # u16_bytes (regs ! unat a)" by (simp add: read_reply_def)
  have f: "f AND 0x80 = 0" using assms(6) by auto
  from loop_transact [where serve = serve, OF assms(1,2) w _ s'] f obtain l' where
    "transactLocked (loop_net serve) ep f (appendU16 (appendU16 [] a) 1) (pc, l) =
      (Some (read_reply f [regs ! unat a]), (pc\<lparr>pc_transactionId := pc_transactionId pc + 1\<rparr>, l'))" "idle l'"
    "lp_server l' = lp_server l"
    by (auto simp: appendU16_def r)
  moreover have "readU16 (f # 2 # u16_bytes (regs ! unat a)) 2 = regs ! unat a"
    using readU16_at [of "[f, 2]" 2 "regs ! unat a" "[]"] by simp
  ultimately show ?thesis by (simp add: posix_readRegister_def r)
qed

lemma client_decode_range:
  assumes "0 < unat n" "unat n \<le> 125" "unat a + unat n \<le> length regs"
  shows "decode_range f n (Some (read_reply f (take (unat n) (drop (unat a) regs)))) =
    Some (take (unat n) (drop (unat a) regs))"
proof -
  define vs where "vs = take (unat n) (drop (unat a) regs)"
  have l: "length vs = unat n" using assms(3) by (simp add: vs_def)
  have "unat (of_nat (length vs * 2) :: u8) = length vs * 2" using assms(2) l by (intro unat_of_nat8) simp
  then have "unat (read_reply f vs ! 1) = unat n * 2" by (simp add: read_reply_def l del: of_nat_mult)
  then show ?thesis
    using l readWords_read_reply [of f vs] unfolding vs_def [symmetric]
    by (simp add: decode_range_def) (simp add: read_reply_def)
qed

lemma client_readRange:
  assumes "0 \<le> pc_socket pc" "idle l" "ep_unitId ep = unitId" "good (lp_server l)"
    and "0 < unat n" "unat n \<le> maxRead" "unat n \<le> 125"
  shows "unat a + unat n \<le> length (holding (lp_server l)) \<Longrightarrow>
      \<exists>l'. posix_readHoldingRange (loop_net serve) ep a n (pc, l) =
        (Some (take (unat n) (drop (unat a) (holding (lp_server l)))),
         (pc\<lparr>pc_transactionId := pc_transactionId pc + 1\<rparr>, l')) \<and> idle l' \<and> lp_server l' = lp_server l"
    and "unat a + unat n \<le> length (inputs (lp_server l)) \<Longrightarrow> unat a + unat n \<le> 65536 \<Longrightarrow>
      \<exists>l'. posix_readInputRange (loop_net serve) ep a n (pc, l) =
        (Some (take (unat n) (drop (unat a) (inputs (lp_server l)))),
         (pc\<lparr>pc_transactionId := pc_transactionId pc + 1\<rparr>, l')) \<and> idle l' \<and> lp_server l' = lp_server l"
proof -
  have n: "n \<noteq> 0" "\<not> 125 < n" using assms(5,7) by (auto simp: word_less_nat_alt)
  have w: "read_pdu f a n = f # [ucast (drop_bit 8 a), ucast a, ucast (drop_bit 8 n), ucast n]" for f
    by (simp add: read_pdu_def u16_bytes_def)
  have len: "read_reply f (take (unat n) (drop (unat a) regs)) \<noteq> []"
    "length (read_reply f (take (unat n) (drop (unat a) regs))) \<le> 259"
    "read_reply f (take (unat n) (drop (unat a) regs)) ! 0 = f" for f regs
    using assms(7) by (simp_all add: read_reply_def)
  show "\<exists>l'. posix_readHoldingRange (loop_net serve) ep a n (pc, l) =
        (Some (take (unat n) (drop (unat a) (holding (lp_server l)))),
         (pc\<lparr>pc_transactionId := pc_transactionId pc + 1\<rparr>, l')) \<and> idle l' \<and> lp_server l' = lp_server l"
    if fits: "unat a + unat n \<le> length (holding (lp_server l))"
    using loop_transact [where serve = serve and ep = ep, OF assms(1,2) w _ _ len(1,2),
        where s' = "lp_server l"] read_holding [OF assms(4-6) fits] assms(3) n len(3) client_decode_range [OF assms(5,7) fits]
    by (fastforce simp: posix_readHoldingRange_def)
  show "\<exists>l'. posix_readInputRange (loop_net serve) ep a n (pc, l) =
        (Some (take (unat n) (drop (unat a) (inputs (lp_server l)))),
         (pc\<lparr>pc_transactionId := pc_transactionId pc + 1\<rparr>, l')) \<and> idle l' \<and> lp_server l' = lp_server l"
    if fits: "unat a + unat n \<le> length (inputs (lp_server l))" "unat a + unat n \<le> 65536"
    using loop_transact [where serve = serve and ep = ep, OF assms(1,2) w _ _ len(1,2),
        where s' = "lp_server l"] read_input [OF assms(4-6) fits(1)] assms(3) n len(3) client_decode_range [OF assms(5,7) fits(1)] fits(2)
    by (fastforce simp: posix_readInputRange_def)
qed

lemma client_writeHoldingRange:
  assumes "0 \<le> pc_socket pc" "idle l" "ep_unitId ep = unitId" "good (lp_server l)"
    and "vs \<noteq> []" "length vs \<le> 123" "writable (unat a) (length vs)"
  shows "\<exists>l'. posix_writeHoldingRange (loop_net serve) ep a vs (pc, l) =
      (True, (pc\<lparr>pc_transactionId := pc_transactionId pc + 1\<rparr>, l')) \<and> idle l' \<and> good (lp_server l') \<and>
    holding (lp_server l') = overwrite (holding (lp_server l)) (unat a) vs"
proof -
  define n :: u16 where "n = of_nat (length vs)"
  define payload :: "u8 list" where "payload = [ucast (drop_bit 8 a), ucast a, ucast (drop_bit 8 n), ucast n,
      of_nat (length vs * 2)] @ concat (map (\<lambda>v. [ucast (drop_bit 8 v), ucast v]) vs)"
  define reply :: "u8 list" where "reply = 0x10 # u16_bytes a @ u16_bytes n"
  have b: "u16_bytes = (\<lambda>v. [ucast (drop_bit 8 v), ucast v])"
    by (rule ext) (simp add: u16_bytes_def)
  have w: "write_range_pdu a vs = 0x10 # payload"
    by (simp add: write_range_pdu_def payload_def n_def words_bytes_def b)
  have len: "length payload \<le> 252"
    using assms(6) arg_cong [OF w, of length] by simp
  from write_range [OF assms(4-7), of "pc_transactionId pc + 1"] obtain s' where
    s': "serve (lp_server l) (mbap (pc_transactionId pc + 1) (ep_unitId ep) (write_range_pdu a vs)) =
        (mbap (pc_transactionId pc + 1) (ep_unitId ep) reply, s')" "good s'"
      "holding s' = overwrite (holding (lp_server l)) (unat a) vs"
    using assms(3) unfolding reply_def n_def by auto
  from loop_transact [where serve = serve, OF assms(1,2) w len s'(1)] obtain l' where
    "transactLocked (loop_net serve) ep 0x10 payload (pc, l) =
      (Some reply, (pc\<lparr>pc_transactionId := pc_transactionId pc + 1\<rparr>, l'))" "idle l'" "lp_server l' = s'"
    by (auto simp: reply_def)
  with s' assms(5,6) show ?thesis
    unfolding posix_writeHoldingRange_def Let_def n_def [symmetric] payload_def [symmetric]
    by (simp add: reply_def u16_bytes_def)
qed

end

section \<open>Properties\<close>



text \<open>
  Property C13 (equivalence). Client and server agree end to end: over a connection with any
  segmentation, writing a register through the client succeeds exactly for the 17 holding registers
  and then changes exactly that register of the bank, and reading any input or holding register
  returns its value. So the framing, the codecs and the two loops on both sides compose to plain
  register access.
\<close>

theorem client_server_register_access:
  assumes "0 \<le> pc_socket pc" "idle l" "ep_unitId ep = sv_unitId cfg" "bank_ok (lp_server l)"
  shows "(\<exists>l'. posix_writeHolding (loop_net (northbound_serve cfg)) ep a v (pc, l) =
      (unat a < HoldingRegisterCount, (pc\<lparr>pc_transactionId := pc_transactionId pc + 1\<rparr>, l')) \<and> idle l' \<and>
      bk_holding (lp_server l') = (if unat a < HoldingRegisterCount then (bk_holding (lp_server l))[unat a := v]
        else bk_holding (lp_server l))) \<and>
    (unat a < InputRegisterCount \<longrightarrow> fst (posix_readRegister (loop_net (northbound_serve cfg)) ep 0x04 a (pc, l)) =
      Some (bk_input (lp_server l) ! unat a)) \<and>
    (unat a < HoldingRegisterCount \<longrightarrow> fst (posix_readRegister (loop_net (northbound_serve cfg)) ep 0x03 a (pc, l)) =
      Some (bk_holding (lp_server l) ! unat a))"
proof -
  have upd: "i < length xs \<Longrightarrow> overwrite xs i [x] = xs[i := x]" for xs :: "u16 list" and i x
    by (simp add: overwrite_def upd_conv_take_nth_drop)
  have len: "length (bk_holding (lp_server l)) = 17" "length (bk_input (lp_server l)) = 768"
    using assms(4) by (simp_all add: bank_ok_def)
  have w: "\<exists>l'. posix_writeHolding (loop_net (northbound_serve cfg)) ep a v (pc, l) =
      (unat a < HoldingRegisterCount, (pc\<lparr>pc_transactionId := pc_transactionId pc + 1\<rparr>, l')) \<and> idle l' \<and>
      bk_holding (lp_server l') = (if unat a < HoldingRegisterCount then (bk_holding (lp_server l))[unat a := v]
        else bk_holding (lp_server l))"
    using northbound.client_writeHolding [OF assms(1,2,3,4), of a v] upd len by (auto simp: Suc_le_eq)
  have r: "fst (posix_readRegister (loop_net (northbound_serve cfg)) ep f a (pc, l)) = Some (regs ! unat a)"
    if "f = 3 \<and> regs = bk_holding (lp_server l) \<or> f = 4 \<and> regs = bk_input (lp_server l)" "unat a < length regs" for f regs
    using northbound.client_readRegister [OF assms(1-4) _ that] by auto
  show ?thesis using w r [of 4 "bk_input (lp_server l)"] r [of 3 "bk_holding (lp_server l)"] len by simp
qed

theorem client_server_register_access_witness:
  "fst (posix_writeHolding (loop_net (northbound_serve \<lparr>sv_bindAddress = [], sv_port = 1502, sv_unitId = 1\<rparr>))
     default_endpoint 2 1 (\<lparr>pc_socket = 3, pc_transactionId = 0xFFFF\<rparr>,
       \<lparr>lp_server = new_bank, lp_request = [], lp_reply = [], lp_chunks = [0, 3, 1]\<rparr>))"
  using client_server_register_access [of "\<lparr>pc_socket = 3, pc_transactionId = 0xFFFF\<rparr>"
      "\<lparr>lp_server = new_bank, lp_request = [], lp_reply = [], lp_chunks = [0, 3, 1]\<rparr>" default_endpoint
      "\<lparr>sv_bindAddress = [], sv_port = 1502, sv_unitId = 1\<rparr>" 2 1]
  by (auto simp: idle_def default_endpoint_def new_bank_ok)

end
