(* ===== verification/OtaApply.thy ===== *)
theory OtaApply
  imports EspOta PosixClient Texts
begin

text \<open>
  The update tool of the Rock Pi (\<^verbatim>\<open>base-rockpie/src/OtaApply.cpp\<close>): arguments, the owner-only token file,
  the hash of the image, and the HTTP request it sends. Files are what the operating system returns
  for them (size, permission bits, contents); the image is read twice, once for the hash and once for
  the upload, so it is two arguments. The network is that of theory \<^verbatim>\<open>PosixClient\<close>.
\<close>

section \<open>Texts\<close>

definition trim_char :: "char \<Rightarrow> bool" where
  "trim_char c \<longleftrightarrow> c \<in> {CHR '' '', CHR 0x09, CHR 0x0D, CHR 0x0A}"

definition trim :: "string \<Rightarrow> string" where
  "trim v = rev (dropWhile trim_char (rev (dropWhile trim_char v)))"

definition getline :: "string \<Rightarrow> string" where
  "getline content = takeWhile (\<lambda>c. c \<noteq> CHR 0x0A) content"

definition bytes_of :: "string \<Rightarrow> u8 list" where
  "bytes_of s = map of_char s"

section \<open>Arguments\<close>

record arguments =
  ar_host :: string
  ar_port :: u16
  ar_firmware :: string
  ar_tokenFile :: string
  ar_selfTest :: bool

definition default_arguments :: arguments where
  "default_arguments = \<lparr>ar_host = [], ar_port = 8080, ar_firmware = [], ar_tokenFile = [], ar_selfTest = False\<rparr>"

fun parse_from :: "string list \<Rightarrow> arguments \<Rightarrow> arguments option" where
  "parse_from [] a = Some a"
| "parse_from (argument # rest) a =
     (if argument = ''--self-test'' then parse_from rest (a\<lparr>ar_selfTest := True\<rparr>)
      else case rest of [] \<Rightarrow> None
        | v # rest' \<Rightarrow>
            if argument = ''--host'' then parse_from rest' (a\<lparr>ar_host := v\<rparr>)
            else if argument = ''--firmware'' then parse_from rest' (a\<lparr>ar_firmware := v\<rparr>)
            else if argument = ''--token-file'' then parse_from rest' (a\<lparr>ar_tokenFile := v\<rparr>)
            else if argument = ''--port'' then
              (case stoul v of None \<Rightarrow> None
               | Some parsed \<Rightarrow> if parsed = 0 \<or> 65535 < parsed then None
                   else parse_from rest' (a\<lparr>ar_port := ucast parsed\<rparr>))
            else None)"

definition parseArguments :: "string list \<Rightarrow> arguments option" where
  "parseArguments argv = (case parse_from argv default_arguments of None \<Rightarrow> None
     | Some a \<Rightarrow> if ar_selfTest a then Some a
         else if ar_host a = [] \<or> ar_firmware a = [] \<or> ar_tokenFile a = [] then None else Some a)"

section \<open>Files\<close>

record ota_files =
  of_size :: "nat option"
  of_tokenStat :: "nat option"
  of_tokenContent :: string
  of_hashOpen :: bool
  of_hashContent :: "u8 list"
  of_hashEof :: bool
  of_sendContent :: "u8 list"

definition readToken :: "ota_files \<Rightarrow> string option" where
  "readToken fs = (case of_tokenStat fs of None \<Rightarrow> None
     | Some mode \<Rightarrow> if mode mod 64 \<noteq> 0 then None
         else let token = trim (getline (of_tokenContent fs))
              in if length token < 32 \<or> 128 < length token then None else Some token)"

text \<open>The successive reads of a file into the 8192-byte buffer.\<close>

function read_blocks :: "u8 list \<Rightarrow> u8 list list" where
  "read_blocks content = (if content = [] then [] else take 8192 content # read_blocks (drop 8192 content))"
  by pat_completeness auto
termination
  by (relation "measure length") auto

declare read_blocks.simps [simp del]

definition hashFile :: "ota_files \<Rightarrow> string option" where
  "hashFile fs = (if \<not> of_hashOpen fs then None
     else case sha_updates new_sha256 (read_blocks (of_hashContent fs)) of None \<Rightarrow> None
       | Some h \<Rightarrow> if \<not> of_hashEof fs then None else Some (hexDigest (sha_finish h)))"

section \<open>Network\<close>

function ota_sendAll :: "('n, 'x) net_scheme \<Rightarrow> int \<Rightarrow> u8 list \<Rightarrow> 'n \<Rightarrow> bool \<times> 'n" where
  "ota_sendAll net fd data n = (if data = [] then (True, n)
     else case run_state (os_send net fd data) n of
       (Sent k, n') \<Rightarrow> if k = 0 then (False, n') else ota_sendAll net fd (drop k data) n'
     | (SendIntr, n') \<Rightarrow> (False, n')
     | (SendErr, n') \<Rightarrow> (False, n'))"
  by pat_completeness auto
termination
  by (relation "measure (\<lambda>(net, fd, data, n). length data)") auto

declare ota_sendAll.simps [simp del]

fun connect_candidates :: "('n, 'a) client_net \<Rightarrow> 'a list \<Rightarrow> 'n \<Rightarrow> int \<times> 'n" where
  "connect_candidates net [] n = (- 1, n)"
| "connect_candidates net (candidate # rest) n =
     (let (fd, n1) = run_state (os_socket net candidate) n
      in if fd < 0 then connect_candidates net rest n1
         else let (ok, n2) = run_state (os_connect net fd candidate) n1
              in if ok then (fd, n2) else connect_candidates net rest (snd (run_state (os_close net fd) n2)))"

definition connectIpv4 :: "('n, 'a) client_net \<Rightarrow> string \<Rightarrow> u16 \<Rightarrow> 'n \<Rightarrow> int \<times> 'n" where
  "connectIpv4 net host port n = (case run_state (os_getaddrinfo net host port) n of
     (None, n1) \<Rightarrow> (- 1, n1) | (Some results, n1) \<Rightarrow> if results = [] then (- 1, n1) else connect_candidates net results n1)"

section \<open>The request\<close>

definition crlf :: string where "crlf = [CHR 0x0D, CHR 0x0A]"
definition quote :: string where "quote = [CHR 0x22]"

definition boundary :: string where "boundary = ''gridex-ota-v1-boundary''"

definition multipartStart :: string where
  "multipartStart = ''--'' @ boundary @ crlf @ ''Content-Disposition: form-data; name='' @ quote @ ''firmware'' @ quote @
     ''; filename='' @ quote @ ''firmware.bin'' @ quote @ crlf @ ''Content-Type: application/octet-stream'' @ crlf @ crlf"

definition multipartEnd :: string where
  "multipartEnd = crlf @ ''--'' @ boundary @ ''--'' @ crlf"

definition request_header :: "string \<Rightarrow> nat \<Rightarrow> string \<Rightarrow> string \<Rightarrow> string" where
  "request_header host contentLength digest token =
     ''POST /gridex/ota HTTP/1.1'' @ crlf @ ''Host: '' @ host @
     crlf @ ''Content-Type: multipart/form-data; boundary='' @ boundary @
     crlf @ ''Content-Length: '' @ show_nat contentLength @
     crlf @ ''X-GrideX-SHA256: '' @ digest @
     crlf @ ''X-GrideX-Token: '' @ token @
     crlf @ ''Connection: close'' @ crlf @ crlf"

fun send_blocks :: "('n, 'x) net_scheme \<Rightarrow> int \<Rightarrow> u8 list list \<Rightarrow> 'n \<Rightarrow> bool \<times> 'n" where
  "send_blocks net fd [] n = (True, n)"
| "send_blocks net fd (b # bs) n = (case ota_sendAll net fd b n of (ok, n') \<Rightarrow> if ok then send_blocks net fd bs n' else (False, n'))"

fun has_infix :: "string \<Rightarrow> string \<Rightarrow> bool" where
  "has_infix p [] = (p = [])"
| "has_infix p (c # cs) = (take (length p) (c # cs) = p \<or> has_infix p cs)"

fun statusLine :: "string \<Rightarrow> string" where
  "statusLine [] = []"
| "statusLine (c # cs) = (if take 2 (c # cs) = crlf then [] else c # statusLine cs)"

text \<open>The exit status and the network after the run. One \<^verbatim>\<open>recv\<close> of at most 255 bytes is made in any case.\<close>

definition ota_main :: "('n, 'a) client_net \<Rightarrow> ota_files \<Rightarrow> string list \<Rightarrow> 'n \<Rightarrow> nat \<times> 'n" where
  "ota_main net fs argv n = (case parseArguments argv of None \<Rightarrow> (64, n)
     | Some a \<Rightarrow> if ar_selfTest a then (if selfTest then 0 else 1, n)
       else case of_size fs of None \<Rightarrow> (65, n)
       | Some sz \<Rightarrow> if sz = 0 \<or> 3 * 1024 * 1024 < sz then (65, n)
         else case (readToken fs, hashFile fs) of
           (Some token, Some digest) \<Rightarrow>
             (case connectIpv4 net (ar_host a) (ar_port a) n of (fd, n1) \<Rightarrow>
                if fd < 0 then (67, n1)
                else let contentLength = length multipartStart + sz + length multipartEnd;
                         (ok1, n2) = send_blocks net fd [bytes_of (request_header (ar_host a) contentLength digest token),
                           bytes_of multipartStart] n1;
                         (ok2, n3) = (if ok1 then send_blocks net fd (read_blocks (of_sendContent fs)) n2 else (False, n2));
                         (ok3, n4) = (if ok2 then ota_sendAll net fd (bytes_of multipartEnd) n3 else (False, n3));
                         (received, n5) = run_state (os_recv net fd 255) n4;
                         n6 = snd (run_state (os_close net fd) n5);
                         response = (case received of Got bs \<Rightarrow> map (char_of \<circ> unat) bs | _ \<Rightarrow> [])
                     in (if \<not> ok3 \<or> response = [] \<or> \<not> has_infix '' 200 '' (statusLine response) then 68 else 0, n6))
         | _ \<Rightarrow> (66, n))"

section \<open>Files and hashes\<close>

lemma concat_read_blocks: "concat (read_blocks content) = content"
  by (induction content rule: read_blocks.induct) (subst read_blocks.simps, simp)

lemma hashFile_digest: "hashFile fs = Some d \<Longrightarrow> d = hexDigest (fips_sha256 (of_hashContent fs))"
  using sha_updates_holds [OF new_sha256_holds, of "read_blocks (of_hashContent fs)"] sha_finish_fips
  by (auto simp: hashFile_def concat_read_blocks split: if_splits)

lemma hashFile_total: "hashFile fs = None \<longleftrightarrow> \<not> of_hashOpen fs \<or> \<not> of_hashEof fs"
  using sha_updates_holds [OF new_sha256_holds, of "read_blocks (of_hashContent fs)"] by (auto simp: hashFile_def)

lemma readToken_owner_only:
  "readToken fs = Some token \<Longrightarrow> (\<exists>mode. of_tokenStat fs = Some mode \<and> mode mod 64 = 0) \<and> 32 \<le> length token \<and> length token \<le> 128"
  by (auto simp: readToken_def Let_def split: option.splits if_splits)

section \<open>What goes over the wire\<close>

text \<open>Any network, with a ghost log of the bytes its \<^verbatim>\<open>send\<close> accepted.\<close>

definition logged_call :: "('n, 'r) state \<Rightarrow> ('n \<times> u8 list, 'r) state" where
  "logged_call m = State (\<lambda>(n, l). case run_state m n of (r, n') \<Rightarrow> (r, (n', l)))"

definition logging_net :: "('n, 'a) client_net \<Rightarrow> ('n \<times> u8 list, 'a) client_net" where
  "logging_net net = \<lparr>os_recv = \<lambda>fd k. logged_call (os_recv net fd k),
     os_send = \<lambda>fd bs. State (\<lambda>(n, l). case run_state (os_send net fd bs) n of (r, n') \<Rightarrow>
       (r, (n', case r of Sent k \<Rightarrow> l @ take k bs | _ \<Rightarrow> l))),
     os_getaddrinfo = \<lambda>host port. logged_call (os_getaddrinfo net host port),
     os_socket = \<lambda>a. logged_call (os_socket net a),
     os_connect = \<lambda>fd a. logged_call (os_connect net fd a),
     os_close = \<lambda>fd. logged_call (os_close net fd)\<rparr>"

lemma logged_call_log [simp]: "snd (snd (run_state (logged_call m) w)) = snd w"
  by (simp add: logged_call_def split: prod.split)

lemma sendAll_log: "fst (ota_sendAll (logging_net net) fd data w) \<Longrightarrow> snd (snd (ota_sendAll (logging_net net) fd data w)) = snd w @ data"
proof (induction "length data" arbitrary: data w rule: less_induct)
  case less
  show ?case
  proof (cases "data = []")
    case True
    then show ?thesis by (subst ota_sendAll.simps) simp
  next
    case False
    obtain r w' where r: "run_state (os_send (logging_net net) fd data) w = (r, w')"
      by (cases "run_state (os_send (logging_net net) fd data) w") simp
    then obtain k where k: "r = Sent k" "k \<noteq> 0" using less.prems False by (subst (asm) ota_sendAll.simps) (auto split: send_result.splits if_splits)
    have l: "snd w' = snd w @ take k data" using r k(1) by (auto simp: logging_net_def split: prod.splits)
    have e: "ota_sendAll (logging_net net) fd data w = ota_sendAll (logging_net net) fd (drop k data) w'"
      using False r k by (subst ota_sendAll.simps) simp
    have "length (drop k data) < length data" using False k(2) by simp
    from less.hyps [OF this] less.prems e l show ?thesis by simp
  qed
qed

lemma send_blocks_log:
  "fst (send_blocks (logging_net net) fd bs w) \<Longrightarrow> snd (snd (send_blocks (logging_net net) fd bs w)) = snd w @ concat bs"
proof (induction bs arbitrary: w)
  case (Cons b bs)
  then show ?case using sendAll_log [of net fd b w] by (auto split: prod.splits if_splits)
qed simp

lemma candidates_log: "snd (snd (connect_candidates (logging_net net) cs w)) = snd w"
proof (induction cs arbitrary: w)
  case (Cons c cs)
  have "os_socket (logging_net net) a = logged_call (os_socket net a)" "os_connect (logging_net net) fd a = logged_call (os_connect net fd a)"
    "os_close (logging_net net) fd = logged_call (os_close net fd)" for a fd by (simp_all add: logging_net_def)
  then show ?case using Cons by (simp add: Let_def case_prod_beta)
qed simp

lemma connect_log: "snd (snd (connectIpv4 (logging_net net) host port w)) = snd w"
proof -
  have g: "os_getaddrinfo (logging_net net) host port = logged_call (os_getaddrinfo net host port)" by (simp add: logging_net_def)
  obtain r w' where r: "run_state (logged_call (os_getaddrinfo net host port)) w = (r, w')"
    by (cases "run_state (logged_call (os_getaddrinfo net host port)) w") simp
  have "snd w' = snd w" using logged_call_log [of "os_getaddrinfo net host port" w] by (simp add: r)
  then show ?thesis by (simp add: connectIpv4_def g r candidates_log split: option.split)
qed

lemma request_sent:
  assumes "fst (ota_main (logging_net net) fs argv (n, [])) = 0" "\<not> ar_selfTest (the (parseArguments argv))"
  shows "\<exists>a token sz mode. parseArguments argv = Some a \<and> readToken fs = Some token \<and> 32 \<le> length token \<and> length token \<le> 128 \<and>
    of_tokenStat fs = Some mode \<and> mode mod 64 = 0 \<and> of_size fs = Some sz \<and> 0 < sz \<and> sz \<le> 3 * 1024 * 1024 \<and>
    snd (snd (ota_main (logging_net net) fs argv (n, []))) =
      bytes_of (request_header (ar_host a) (length multipartStart + sz + length multipartEnd)
        (hexDigest (fips_sha256 (of_hashContent fs))) token) @
      bytes_of multipartStart @ of_sendContent fs @ bytes_of multipartEnd"
proof -
  define net' where "net' = logging_net net"
  obtain a where a: "parseArguments argv = Some a" "\<not> ar_selfTest a"
    using assms by (cases "parseArguments argv") (auto simp: ota_main_def)
  obtain sz where sz: "of_size fs = Some sz" "0 < sz" "sz \<le> 3 * 1024 * 1024"
    using assms(1) a by (auto simp: ota_main_def split: option.splits if_splits)
  obtain token digest where td: "readToken fs = Some token" "hashFile fs = Some digest"
    using assms(1) a sz by (auto simp: ota_main_def split: option.splits if_splits)
  define head where "head = bytes_of (request_header (ar_host a) (length multipartStart + sz + length multipartEnd) digest token)"
  define w1 where "w1 = connectIpv4 net' (ar_host a) (ar_port a) (n, [])"
  define w2 where "w2 = send_blocks net' (fst w1) [head, bytes_of multipartStart] (snd w1)"
  define w3 where "w3 = (if fst w2 then send_blocks net' (fst w1) (read_blocks (of_sendContent fs)) (snd w2) else (False, snd w2))"
  define w4 where "w4 = (if fst w3 then ota_sendAll net' (fst w1) (bytes_of multipartEnd) (snd w3) else (False, snd w3))"
  define w5 where "w5 = run_state (os_recv net' (fst w1) 255) (snd w4)"
  have run: "fst (ota_main net' fs argv (n, [])) = 0 \<Longrightarrow> fst w4 \<and>
      snd (ota_main net' fs argv (n, [])) = snd (run_state (os_close net' (fst w1)) (snd w5))"
    using sz(2,3) by (simp add: ota_main_def a sz(1) td head_def [symmetric] w1_def [symmetric] w2_def [symmetric] w3_def
        w4_def w5_def Let_def case_prod_beta del: send_blocks.simps split: if_splits)
  then have ok: "fst w4" "fst w3" "fst w2" and last: "snd (ota_main net' fs argv (n, [])) = snd (run_state (os_close net' (fst w1)) (snd w5))"
    using assms(1) by (auto simp: net'_def [symmetric] w4_def w3_def split: if_splits)
  have "snd (snd w1) = []" using connect_log [of net] by (simp add: w1_def net'_def)
  moreover have "snd (snd w2) = snd (snd w1) @ head @ bytes_of multipartStart"
    using ok(3) send_blocks_log [of net "fst w1" "[head, bytes_of multipartStart]" "snd w1"] by (simp add: w2_def net'_def)
  moreover have "snd (snd w3) = snd (snd w2) @ of_sendContent fs"
    using ok(2,3) send_blocks_log [of net "fst w1" "read_blocks (of_sendContent fs)" "snd w2"]
    by (simp add: w3_def net'_def concat_read_blocks)
  moreover have "snd (snd w4) = snd (snd w3) @ bytes_of multipartEnd"
    using ok(1,2) sendAll_log [of net "fst w1" "bytes_of multipartEnd" "snd w3"] by (simp add: w4_def net'_def)
  moreover have "snd (snd w5) = snd (snd w4)" by (simp add: w5_def net'_def logging_net_def)
  moreover have "snd (snd (run_state (os_close net' (fst w1)) (snd w5))) = snd (snd w5)" by (simp add: net'_def logging_net_def)
  ultimately have "snd (snd (ota_main net' fs argv (n, []))) = head @ bytes_of multipartStart @ of_sendContent fs @ bytes_of multipartEnd"
    using last by simp
  then show ?thesis
    using a(1) sz td readToken_owner_only [OF td(1)] hashFile_digest [OF td(2)] by (auto simp: head_def net'_def)
qed

section \<open>Properties\<close>


definition bench_files :: ota_files where
  "bench_files = \<lparr>of_size = Some 3, of_tokenStat = Some 0x180, of_tokenContent = replicate 40 (CHR ''k''), of_hashOpen = True,
     of_hashContent = [1, 2, 3], of_hashEof = True, of_sendContent = [1, 2, 3]\<rparr>"

text \<open>A peer that takes up to 100 bytes per call and answers with success.\<close>

definition bench_net :: "(unit, unit) client_net" where
  "bench_net = \<lparr>os_recv = \<lambda>fd k. State (\<lambda>n. (Got (bytes_of ''HTTP/1.1 200 OK''), n)),
     os_send = \<lambda>fd bs. State (\<lambda>n. (Sent (min 100 (length bs)), n)),
     os_getaddrinfo = \<lambda>host port. State (\<lambda>n. (Some [()], n)), os_socket = \<lambda>a. State (\<lambda>n. (3, n)),
     os_connect = \<lambda>fd a. State (\<lambda>n. (True, n)), os_close = \<lambda>fd. State (\<lambda>n. ((), n))\<rparr>"

definition bench_argv :: "string list" where
  "bench_argv = [''--host'', ''node-1'', ''--firmware'', ''fw.bin'', ''--token-file'', ''token'']"

lemma bench_send: "fst (ota_sendAll (logging_net bench_net) fd data w)"
proof (induction "length data" arbitrary: data w rule: less_induct)
  case less
  show ?case
  proof (cases "data = []")
    case True
    then show ?thesis by (subst ota_sendAll.simps) simp
  next
    case False
    obtain w' where r: "run_state (os_send (logging_net bench_net) fd data) w = (Sent (min 100 (length data)), w')"
      by (cases w) (simp add: logging_net_def bench_net_def)
    have "length (drop (min 100 (length data)) data) < length data" using False by simp
    from less.hyps [OF this] show ?thesis using False by (subst ota_sendAll.simps) (simp add: r)
  qed
qed

lemma bench_sends: "fst (send_blocks (logging_net bench_net) fd bs w)"
  by (induction bs arbitrary: w) (simp_all add: case_prod_beta bench_send)

definition bench_arguments :: arguments where
  "bench_arguments = \<lparr>ar_host = ''node-1'', ar_port = 8080, ar_firmware = ''fw.bin'', ar_tokenFile = ''token'', ar_selfTest = False\<rparr>"

lemma bench_parsed: "parseArguments bench_argv = Some bench_arguments"
  by (simp add: parseArguments_def bench_argv_def default_arguments_def bench_arguments_def)

lemma bench_token: "readToken bench_files = Some (replicate 40 (CHR ''k''))"
  by code_simp

lemma bench_success: "fst (ota_main (logging_net bench_net) bench_files bench_argv ((), [])) = 0"
proof -
  obtain d where d: "hashFile bench_files = Some d" using hashFile_total [of bench_files] by (auto simp: bench_files_def)
  have conn: "fst (connectIpv4 (logging_net bench_net) h q w) = 3" for h q w
    by (cases w) (simp add: connectIpv4_def logging_net_def logged_call_def bench_net_def)
  have recv: "fst (run_state (os_recv (logging_net bench_net) fd k) w) = Got (bytes_of ''HTTP/1.1 200 OK'')" for fd k w
    by (cases w) (simp add: logging_net_def logged_call_def bench_net_def)
  have resp: "map (char_of \<circ> unat) (bytes_of ''HTTP/1.1 200 OK'') = ''HTTP/1.1 200 OK''" by code_simp
  have has: "has_infix '' 200 '' (statusLine ''HTTP/1.1 200 OK'')" by code_simp
  have sz: "of_size bench_files = Some 3" by (simp add: bench_files_def)
  show ?thesis
    by (simp add: ota_main_def bench_parsed bench_token d sz conn Let_def case_prod_beta bench_sends bench_send recv resp has
        bench_arguments_def del: send_blocks.simps statusLine.simps has_infix.simps)
qed


end
