(* ===== verification/UpdatePath.thy ===== *)
theory UpdatePath
  imports OtaApply OtaService
begin

text \<open>
  The update path from the gateway to the node: the request the tool of theory \<^verbatim>\<open>OtaApply\<close> sends, read by
  the rules of HTTP/1.1 and \<^verbatim>\<open>multipart/form-data\<close>, is an upload request for the service of theory
  \<^verbatim>\<open>OtaService\<close>. The web server between them is a library of the node; the rules are a reference decoder
  here, and a server is assumed only to hand the decoded parts to the registered handlers.
\<close>

section \<open>The syntax of a request\<close>

fun split_line :: "string \<Rightarrow> (string \<times> string) option" where
  "split_line [] = None"
| "split_line (c # cs) = (if take 2 (c # cs) = crlf then Some ([], drop 1 cs) else map_option (map_prod (Cons c) id) (split_line cs))"

definition ows :: "char \<Rightarrow> bool" where
  "ows c \<longleftrightarrow> c = CHR '' '' \<or> c = CHR 0x09"

definition strip :: "string \<Rightarrow> string" where
  "strip v = rev (dropWhile ows (rev (dropWhile ows v)))"

definition field :: "string \<Rightarrow> (string \<times> string) option" where
  "field l = (let name = takeWhile (\<lambda>c. c \<noteq> CHR '':'') l
     in if name = l then None else Some (name, strip (drop (length name + 1) l)))"

lemma split_line_length: "split_line s = Some (l, rest) \<Longrightarrow> length rest < length s"
  by (induction s arbitrary: l) (auto split: if_splits)

function read_fields :: "string \<Rightarrow> ((string \<times> string) list \<times> string) option" where
  "read_fields s = (case split_line s of None \<Rightarrow> None
     | Some (l, rest) \<Rightarrow> if l = [] then Some ([], rest)
         else case field l of None \<Rightarrow> None | Some f \<Rightarrow> map_option (map_prod (Cons f) id) (read_fields rest))"
  by pat_completeness auto
termination
  by (relation "measure length") (auto dest: split_line_length)

declare read_fields.simps [simp del]

text \<open>The text before the first occurrence of a delimiter.\<close>

fun before :: "string \<Rightarrow> string \<Rightarrow> string option" where
  "before p [] = (if p = [] then Some [] else None)"
| "before p (c # cs) = (if take (length p) (c # cs) = p then Some [] else map_option (Cons c) (before p cs))"

definition multipart_file :: "string \<Rightarrow> string \<Rightarrow> string option" where
  "multipart_file b body = do {
     (l, r) \<leftarrow> split_line body;
     (_, content) \<leftarrow> (if l = ''--'' @ b then read_fields r else None);
     before (crlf @ ''--'' @ b) content }"

definition post_path :: "string \<Rightarrow> string option" where
  "post_path l = (let path = takeWhile (\<lambda>c. c \<noteq> CHR '' '') (drop 5 l)
     in if l = ''POST '' @ path @ '' HTTP/1.1'' then Some path else None)"

definition form_boundary :: "string \<Rightarrow> string option" where
  "form_boundary v = (let p = ''multipart/form-data; boundary='' in if take (length p) v = p then Some (drop (length p) v) else None)"

definition chars_of :: "u8 list \<Rightarrow> string" where
  "chars_of bs = map (char_of \<circ> unat) bs"

text \<open>The path, the header fields and the uploaded file of a POST request.\<close>

definition decode_request :: "u8 list \<Rightarrow> (string \<times> (string \<times> string) list \<times> u8 list) option" where
  "decode_request msg = do {
     (l, r) \<leftarrow> split_line (chars_of msg);
     path \<leftarrow> post_path l;
     (fs, body) \<leftarrow> read_fields r;
     n \<leftarrow> map_of fs ''Content-Length'';
     b \<leftarrow> Option.bind (map_of fs ''Content-Type'') form_boundary;
     content \<leftarrow> (if n = show_nat (length body) then multipart_file b body else None);
     Some (path, fs, bytes_of content) }"

section \<open>Reading what was printed\<close>

lemma split_line_crlf: "CHR 0x0A \<notin> set l \<Longrightarrow> split_line (l @ crlf @ rest) = Some (l, rest)"
proof (induction l)
  case (Cons c l)
  have "take 2 (c # l @ crlf @ rest) \<noteq> crlf" using Cons.prems by (cases l) (auto simp: crlf_def)
  then show ?case using Cons by simp
qed (simp add: crlf_def)

lemma strip_same: "v \<noteq> [] \<Longrightarrow> \<not> ows (hd v) \<Longrightarrow> \<not> ows (last v) \<Longrightarrow> strip v = v"
proof -
  assume v: "v \<noteq> []" "\<not> ows (hd v)" "\<not> ows (last v)"
  then have "dropWhile ows v = v" by (cases v) simp_all
  moreover have "dropWhile ows (rev v) = rev v" using v(1,3) by (cases v rule: rev_cases) simp_all
  ultimately show ?thesis by (simp add: strip_def)
qed

lemma field_line: "CHR '':'' \<notin> set name \<Longrightarrow> field (name @ '': '' @ v) = Some (name, strip v)"
proof -
  assume "CHR '':'' \<notin> set name"
  then have "takeWhile (\<lambda>c. c \<noteq> CHR '':'') (name @ '': '' @ v) = name" by (induction name) auto
  moreover have "strip (CHR '' '' # v) = strip v" by (simp add: strip_def ows_def)
  ultimately show ?thesis by (simp add: field_def Let_def)
qed

lemma read_field:
  assumes "CHR '':'' \<notin> set name" "CHR 0x0A \<notin> set (name @ v)" 
  shows "read_fields (name @ '': '' @ v @ crlf @ rest) = map_option (map_prod (Cons (name, strip v)) id) (read_fields rest)"
proof -
  have "split_line ((name @ '': '' @ v) @ crlf @ rest) = Some (name @ '': '' @ v, rest)"
    using assms(2) by (intro split_line_crlf) auto
  then show ?thesis using field_line [OF assms(1), of v] by (subst read_fields.simps) simp
qed

lemma read_fields_end: "read_fields (crlf @ rest) = Some ([], rest)"
  using split_line_crlf [of "[]" rest] by (subst read_fields.simps) simp

lemma before_delimiter:
  assumes "p \<noteq> []" "hd p \<notin> set (tl p)" "\<not> has_infix p x"
  shows "before p (x @ p @ y) = Some x"
  using assms(3)
proof (induction x)
  case Nil
  then show ?case using assms(1) by (cases p) simp_all
next
  case (Cons c x)
  have "take (length p) (c # x @ p @ y) \<noteq> p"
  proof
    assume e: "take (length p) (c # x @ p @ y) = p"
    show False
    proof (cases "length p \<le> length (c # x)")
      case True
      then have "take (length p) (c # x) = p" using e by (metis append_Cons take_append append_Nil2 diff_is_0_eq' take0)
      then show False using Cons.prems by simp
    next
      case False
      define j where "j = length (c # x)"
      have j: "0 < j" "j < length p" using False by (simp_all add: j_def)
      have "p ! j = (c # x @ p @ y) ! j" using e j(2) by (metis nth_take)
      also have "\<dots> = hd p" using assms(1) by (simp add: j_def nth_append hd_conv_nth)
      finally have "tl p ! (j - 1) = hd p" using j by (cases p) (simp_all add: nth_Cons')
      moreover have "j - 1 < length (tl p)" using j by simp
      ultimately show False using assms(2) nth_mem by metis
    qed
  qed
  then show ?case using Cons by simp
qed

lemma chars_of_bytes [simp]: "chars_of (bytes_of s) = s"
proof -
  have "unat (of_char c :: u8) = of_char c" for c
  proof -
    have "(of_char c :: nat) < 2 ^ 8" using nat_of_char_less_256 [of c] by simp
    then have "unat (of_nat (of_char c) :: u8) = of_char c" by (simp add: unsigned_of_nat take_bit_nat_eq_self)
    then show ?thesis by (simp add: of_nat_of_char)
  qed
  then show ?thesis by (simp add: chars_of_def bytes_of_def o_def)
qed

lemma bytes_of_chars [simp]: "bytes_of (chars_of bs) = bs"
proof -
  have "(of_char (char_of (unat b)) :: u8) = b" for b
  proof -
    have "unat b < 256" using unsigned_less [of b] by simp
    then have "(of_char (char_of (unat b)) :: nat) = unat b" by simp
    then have "of_nat (of_char (char_of (unat b)) :: nat) = (of_nat (unat b) :: u8)" by (simp only:)
    also have "\<dots> = b" by simp
    finally show ?thesis by (simp only: of_nat_of_char)
  qed
  then show ?thesis by (simp add: chars_of_def bytes_of_def o_def)
qed

lemma chars_of_append [simp]: "chars_of (a @ b) = chars_of a @ chars_of b"
  by (simp add: chars_of_def)

lemma length_chars_of [simp]: "length (chars_of bs) = length bs"
  by (simp add: chars_of_def)

section \<open>The request of the tool\<close>

definition request_fields :: "string \<Rightarrow> nat \<Rightarrow> string \<Rightarrow> string \<Rightarrow> (string \<times> string) list" where
  "request_fields host n digest token = [(''Host'', strip host), (''Content-Type'', ''multipart/form-data; boundary='' @ boundary),
     (''Content-Length'', show_nat n), (kShaHeader, digest), (kTokenHeader, token), (''Connection'', ''close'')]"

definition field_lines :: "string \<Rightarrow> nat \<Rightarrow> string \<Rightarrow> string \<Rightarrow> string \<Rightarrow> string" where
  "field_lines host n digest token body = ''Host'' @ '': '' @ host @ crlf @
     ''Content-Type'' @ '': '' @ (''multipart/form-data; boundary='' @ boundary) @ crlf @ ''Content-Length'' @ '': '' @ show_nat n @ crlf @
     kShaHeader @ '': '' @ digest @ crlf @ kTokenHeader @ '': '' @ token @ crlf @ ''Connection'' @ '': '' @ ''close'' @ crlf @ crlf @ body"

lemma header_split:
  "request_header host n digest token @ body = ''POST /gridex/ota HTTP/1.1'' @ crlf @ field_lines host n digest token body"
  by (simp add: request_header_def field_lines_def kShaHeader_def kTokenHeader_def)

text \<open>A value that a header field carries unchanged.\<close>

definition plain_value :: "string \<Rightarrow> bool" where
  "plain_value v \<longleftrightarrow> v \<noteq> [] \<and> CHR 0x0A \<notin> set v \<and> \<not> ows (hd v) \<and> \<not> ows (last v)"

lemma plain_strip: "plain_value v \<Longrightarrow> strip v = v"
  by (simp add: plain_value_def strip_same)

lemma digits_plain: "v \<noteq> [] \<Longrightarrow> list_all std_digit v \<Longrightarrow> plain_value v"
proof -
  have d: "std_digit c \<Longrightarrow> \<not> ows c \<and> c \<noteq> CHR 0x0A" for c by (auto simp: std_digit_def ows_def)
  assume "v \<noteq> []" "list_all std_digit v"
  then show ?thesis using d by (auto simp: plain_value_def list_all_iff hd_in_set last_in_set)
qed

lemma header_fields:
  assumes "CHR 0x0A \<notin> set host" "plain_value digest" "plain_value token"
  shows "read_fields (field_lines host n digest token body) = Some (request_fields host n digest token, body)"
proof -
  have n: "plain_value (show_nat n)" by (simp add: digits_plain show_nat_digits)
  have lf: "CHR 0x0A \<notin> set (''Host'' @ host)" "CHR 0x0A \<notin> set (''Content-Type'' @ ''multipart/form-data; boundary='' @ boundary)"
    "CHR 0x0A \<notin> set (''Content-Length'' @ show_nat n)" "CHR 0x0A \<notin> set (kShaHeader @ digest)"
    "CHR 0x0A \<notin> set (kTokenHeader @ token)" "CHR 0x0A \<notin> set (''Connection'' @ ''close'')"
    using assms n by (simp_all add: plain_value_def boundary_def kShaHeader_def kTokenHeader_def)
  have colon: "CHR '':'' \<notin> set ''Host''" "CHR '':'' \<notin> set ''Content-Type''" "CHR '':'' \<notin> set ''Content-Length''" "CHR '':'' \<notin> set kShaHeader"
    "CHR '':'' \<notin> set kTokenHeader" "CHR '':'' \<notin> set ''Connection''"
    by (simp_all add: kShaHeader_def kTokenHeader_def)
  have "strip (''multipart/form-data; boundary='' @ boundary) = ''multipart/form-data; boundary='' @ boundary" "strip ''close'' = ''close''"
    by (rule strip_same; simp add: boundary_def ows_def)+
  then show ?thesis
    unfolding field_lines_def read_field [OF colon(1) lf(1)] read_field [OF colon(2) lf(2)] read_field [OF colon(3) lf(3)] read_field [OF colon(4) lf(4)]
      read_field [OF colon(5) lf(5)] read_field [OF colon(6) lf(6)] read_fields_end
    by (simp only: plain_strip n assms request_fields_def option.map map_prod_simp id_apply)
qed

lemma body_decodes:
  assumes "\<not> has_infix (crlf @ ''--'' @ boundary) (chars_of img)"
  shows "multipart_file boundary (multipartStart @ chars_of img @ multipartEnd) = Some (chars_of img)"
proof -
  let ?cd = "''form-data; name='' @ quote @ ''firmware'' @ quote @ ''; filename='' @ quote @ ''firmware.bin'' @ quote"
  have s: "multipartStart @ chars_of img @ multipartEnd = (''--'' @ boundary) @ crlf @ ''Content-Disposition'' @ '': '' @ ?cd @ crlf @
      ''Content-Type'' @ '': '' @ ''application/octet-stream'' @ crlf @ crlf @ chars_of img @ (crlf @ ''--'' @ boundary) @ ''--'' @ crlf"
    by (simp add: multipartStart_def multipartEnd_def)
  have l: "CHR 0x0A \<notin> set (''--'' @ boundary)" by (simp add: boundary_def)
  have f: "CHR '':'' \<notin> set ''Content-Disposition''" "CHR 0x0A \<notin> set (''Content-Disposition'' @ ?cd)"
    "CHR '':'' \<notin> set ''Content-Type''" "CHR 0x0A \<notin> set (''Content-Type'' @ ''application/octet-stream'')"
    by (simp_all add: quote_def)
  have p: "crlf @ ''--'' @ boundary \<noteq> []" "hd (crlf @ ''--'' @ boundary) \<notin> set (tl (crlf @ ''--'' @ boundary))"
    by (simp_all add: crlf_def boundary_def)
  show ?thesis
    unfolding multipart_file_def s split_line_crlf [OF l]
    by (simp only: bind.bind_lunit prod.case if_True refl read_field [OF f(1,2)] read_field [OF f(3,4)] read_fields_end option.map map_prod_simp id_apply
        before_delimiter [OF p assms])
qed

lemma tool_request_decodes:
  assumes "CHR 0x0A \<notin> set host" "plain_value digest" "plain_value token" "\<not> has_infix (crlf @ ''--'' @ boundary) (chars_of img)"
    and "n = length multipartStart + length img + length multipartEnd"
  shows "decode_request (bytes_of (request_header host n digest token) @ bytes_of multipartStart @ img @ bytes_of multipartEnd) =
    Some (kPath, request_fields host n digest token, img)"
proof -
  define body where "body = multipartStart @ chars_of img @ multipartEnd"
  have l: "CHR 0x0A \<notin> set ''POST /gridex/ota HTTP/1.1''" by simp
  have path: "post_path ''POST /gridex/ota HTTP/1.1'' = Some kPath" by (simp add: post_path_def kPath_def Let_def)
  have b: "form_boundary (''multipart/form-data; boundary='' @ boundary) = Some boundary" by (simp add: form_boundary_def Let_def)
  have m: "map_of (request_fields host n digest token) ''Content-Length'' = Some (show_nat n)"
    "map_of (request_fields host n digest token) ''Content-Type'' = Some (''multipart/form-data; boundary='' @ boundary)"
    by (simp_all add: request_fields_def kShaHeader_def kTokenHeader_def)
  have len: "length body = n" by (simp add: body_def assms(5))
  have msg: "chars_of (bytes_of (request_header host n digest token) @ bytes_of multipartStart @ img @ bytes_of multipartEnd) =
      request_header host n digest token @ body"
    by (simp add: body_def)
  have "split_line (request_header host n digest token @ body) = Some (''POST /gridex/ota HTTP/1.1'', field_lines host n digest token body)"
    unfolding header_split by (rule split_line_crlf [OF l])
  then show ?thesis
    unfolding decode_request_def msg
    by (simp add: path header_fields [OF assms(1-3)] m b len body_decodes [OF assms(4), folded body_def] del: append.simps)
qed

lemma trim_ends: "trim v \<noteq> [] \<Longrightarrow> \<not> trim_char (hd (trim v)) \<and> \<not> trim_char (last (trim v))"
proof -
  define w where "w = dropWhile trim_char v"
  assume n: "trim v \<noteq> []"
  have t: "trim v = rev (dropWhile trim_char (rev w))" by (simp add: trim_def w_def)
  then have "last (trim v) = hd (dropWhile trim_char (rev w))" using n by (simp add: last_rev)
  moreover have "\<exists>ys. w = trim v @ ys" unfolding t by (metis rev_append rev_rev_ident takeWhile_dropWhile_id)
  then have "hd (trim v) = hd w" using n by auto
  moreover have "w \<noteq> []" using n t by auto
  ultimately show ?thesis using n t by (metis hd_dropWhile rev.simps(1) w_def)
qed

lemma set_trim: "set (trim v) \<subseteq> set v"
  unfolding trim_def using set_dropWhileD by (metis set_rev subsetI)

lemma token_plain: "readToken fs = Some token \<Longrightarrow> plain_value token"
proof -
  assume r: "readToken fs = Some token"
  then have t: "token = trim (getline (of_tokenContent fs))" "token \<noteq> []"
    by (auto simp: readToken_def Let_def split: option.splits if_splits)
  have "CHR 0x0A \<notin> set (getline (of_tokenContent fs))" by (auto simp: getline_def dest: set_takeWhileD)
  then have "CHR 0x0A \<notin> set token" using set_trim t(1) by blast
  moreover have "\<not> trim_char (hd token)" "\<not> trim_char (last token)" using trim_ends t by blast+
  ultimately show ?thesis using t(2) by (auto simp: plain_value_def ows_def trim_char_def)
qed

lemma digest_plain: "plain_value (hexDigest (fips_sha256 m))"
proof -
  have "list_all (\<lambda>c. \<not> ows c \<and> c \<noteq> CHR 0x0A) hex_digits" by (simp add: hex_digits_def ows_def)
  then have c: "\<not> ows c \<and> c \<noteq> CHR 0x0A" if "c \<in> set (hexDigest (fips_sha256 m))" for c
    using that hexDigest_chars [of "fips_sha256 m"] by (auto simp: list_all_iff)
  have "length (hexDigest (fips_sha256 m)) = 64" by simp
  then have "hexDigest (fips_sha256 m) \<noteq> []" by (metis list.size(3) zero_neq_numeral)
  then show ?thesis using c [of "CHR 0x0A"] c [OF hd_in_set] c [OF last_in_set] unfolding plain_value_def by blast
qed

section \<open>The web server\<close>

text \<open>What a server hands to the handlers for a request to a registered path: the peer, the collected
  header fields, and the file in non-empty pieces of bounded size.\<close>

definition collected :: "routes \<Rightarrow> (string \<times> string) list \<Rightarrow> string \<Rightarrow> string" where
  "collected rt fs name = (if name \<in> set (rt_headers rt) then (case map_of fs name of None \<Rightarrow> [] | Some v \<Rightarrow> v) else [])"

definition conforming_server :: "routes \<Rightarrow> (u32 \<Rightarrow> u8 list \<Rightarrow> u32 \<Rightarrow> server_call list) \<Rightarrow> bool" where
  "conforming_server rt http \<longleftrightarrow> (\<forall>remote msg now path fs content. decode_request msg = Some (path, fs, content) \<longrightarrow>
     path \<in> set (rt_post rt) \<longrightarrow> content \<noteq> [] \<longrightarrow>
     (\<exists>chunks. chunks \<noteq> [] \<and> concat chunks = content \<and> list_all (\<lambda>c. c \<noteq> [] \<and> length c < 65536) chunks \<and>
        http remote msg now = upload_request remote (collected rt fs kShaHeader) (collected rt fs kTokenHeader) chunks now))"

lemma server_calls:
  assumes "conforming_server rt http" "decode_request msg = Some (path, fs, content)" "path \<in> set (rt_post rt)" "content \<noteq> []"
  obtains chunks where "chunks \<noteq> []" "concat chunks = content" "list_all (\<lambda>c. c \<noteq> [] \<and> length c < 65536) chunks"
    "http remote msg now = upload_request remote (collected rt fs kShaHeader) (collected rt fs kTokenHeader) chunks now"
  using assms unfolding conforming_server_def by meson

text \<open>A server that reads by the decoder and passes the file on in blocks.\<close>

definition reference_server :: "routes \<Rightarrow> u32 \<Rightarrow> u8 list \<Rightarrow> u32 \<Rightarrow> server_call list" where
  "reference_server rt remote msg now = (case decode_request msg of None \<Rightarrow> [NotFoundCall]
     | Some (path, fs, content) \<Rightarrow> if path \<in> set (rt_post rt)
         then upload_request remote (collected rt fs kShaHeader) (collected rt fs kTokenHeader) (read_blocks content) now else [NotFoundCall])"

lemma blocks_bounded: "list_all (\<lambda>c. c \<noteq> [] \<and> length c < 65536) (read_blocks content)"
  by (induction content rule: read_blocks.induct) (subst read_blocks.simps, simp add: min_def)

lemma reference_server_conforms: "conforming_server rt (reference_server rt)"
proof -
  have "read_blocks content \<noteq> []" if "content \<noteq> []" for content using that by (subst read_blocks.simps) simp
  then show ?thesis
    unfolding conforming_server_def using blocks_bounded concat_read_blocks by (auto simp: reference_server_def)
qed

section \<open>Properties\<close>

text \<open>
  Property C30 (liveness). An update goes through from the gateway's tool to the node's flash: when the tool
  reports success for an image that did not change while it ran, on any network and with any web
  server on the node that hands on what the rules of HTTP say the bytes mean, a started service with
  the tool's peer as its Rock Pi and the hash of the same token stored ends with exactly the image
  bootable, a success reply and a restart pending in 250 ms, provided the flash and the hash engine
  work and the image does not contain the multipart delimiter.
\<close>

theorem update_reaches_boot:
  assumes "fst (ota_main (logging_net net) fs argv (n, [])) = 0" "parseArguments argv = Some a" "\<not> ar_selfTest a"
    and "of_hashContent fs = img" "of_sendContent fs = img" "of_size fs = Some (length img)"
    and "CHR 0x0A \<notin> set (ar_host a)" "\<not> has_infix (crlf @ ''--'' @ boundary) (chars_of img)"
    and "conforming_server configureRoutes http"
    and "hash_engine ops fips_sha256" "hash_ready ops" "flash_ready fl" "os_started sv"
    and "ota_sourceAllowed (os_config sv) remote" "sha256Hex ops (the (readToken fs)) = ota_tokenHash (os_config sv)"
    and "ota_loop ops (recording_flash fl) (http remote (snd (snd (ota_main (logging_net net) fs argv (n, [])))) done) now sv = ((replies, restart), sv')"
  shows "log_bootable (os_flash sv') = Some img \<and> replies = [(200, ''OTA accepted; restarting'')] \<and>
    os_restartPending sv' \<and> os_restartAtMs sv' = done + 250"
proof -
  let ?sha = "hexDigest (fips_sha256 img)"
  have "\<not> ar_selfTest (the (parseArguments argv))" using assms(2,3) by simp
  from request_sent [OF assms(1) this] obtain a' token sz where r: "parseArguments argv = Some a'" "readToken fs = Some token" "of_size fs = Some sz"
      "0 < sz" "sz \<le> 3 * 1024 * 1024" "snd (snd (ota_main (logging_net net) fs argv (n, []))) =
      bytes_of (request_header (ar_host a') (length multipartStart + sz + length multipartEnd) (hexDigest (fips_sha256 (of_hashContent fs))) token) @
      bytes_of multipartStart @ of_sendContent fs @ bytes_of multipartEnd" by blast
  have e: "a' = a" "sz = length img" using r(1,3) assms(2,6) by simp_all
  note t = r(2) r(4,5) [unfolded e] and sent = r(6) [unfolded e assms(4,5)]
  define fields where "fields = request_fields (ar_host a) (length multipartStart + length img + length multipartEnd) ?sha token"
  have d: "decode_request (snd (snd (ota_main (logging_net net) fs argv (n, [])))) = Some (kPath, fields, img)"
    unfolding sent fields_def by (rule tool_request_decodes [OF assms(7) digest_plain token_plain [OF t(1)] assms(8)]) simp
  have f: "collected configureRoutes fields kShaHeader = ?sha" "collected configureRoutes fields kTokenHeader = token"
    by (simp_all add: collected_def configureRoutes_def fields_def request_fields_def kShaHeader_def kTokenHeader_def)
  have p: "kPath \<in> set (rt_post configureRoutes)" "img \<noteq> []" using t(2) by (auto simp: configureRoutes_def)
  obtain chunks where c: "chunks \<noteq> []" "concat chunks = img" "list_all (\<lambda>c. c \<noteq> [] \<and> length c < 65536) chunks"
    "http remote (snd (snd (ota_main (logging_net net) fs argv (n, [])))) done = upload_request remote ?sha token chunks done"
    by (rule server_calls [OF assms(9) d p, of remote "done"]) (unfold f)
  have "sha256Hex ops token = ota_tokenHash (os_config sv)" using assms(15) unfolding t(1) option.sel .
  then have auth: "requestAuthorized ops (os_config sv) remote ?sha token"
    using assms(14) hexDigest_valid [OF length_fips, of img] unfolding requestAuthorized_def secureEquals_iff by blast
  have "?sha = hexDigest (fips_sha256 (concat chunks))" "length (concat chunks) \<le> 3 * 1024 * 1024" unfolding c(2) using t(3) by simp_all
  note u = update_completes [OF assms(10-13) auth this(1) c(1,3) this(2) assms(16) [unfolded c(4)], unfolded c(2)]
  show ?thesis using u(1-4) by blast
qed

text \<open>The bench of theory \<^verbatim>\<open>OtaApply\<close> against a node provisioned with the same token.\<close>

definition bench_service :: "(sha256, unit logged) ota" where
  "bench_service = ota_begin (new_ota \<lparr>ota_port = 8080, ota_rockPiAddress = 0xC0A83201,
     ota_tokenHash = sha256Hex sha256_engine (replicate 40 (CHR ''k''))\<rparr> ((), [], None))"

lemma bench_service_state:
  "os_started bench_service" "ota_sourceAllowed (os_config bench_service) 0xC0A83201"
  "sha256Hex sha256_engine (the (readToken bench_files)) = ota_tokenHash (os_config bench_service)"
proof -
  have "validSha256 (sha256Hex sha256_engine t)" for t by (simp add: sha256Hex_engine hexDigest_valid)
  then show "os_started bench_service" "ota_sourceAllowed (os_config bench_service) 0xC0A83201"
      "sha256Hex sha256_engine (the (readToken bench_files)) = ota_tokenHash (os_config bench_service)"
    unfolding bench_token option.sel by (simp_all add: bench_service_def ota_begin_def new_ota_def ota_sourceAllowed_def ota_enabled_def)
qed

lemma bench_image_plain: "\<not> has_infix (crlf @ ''--'' @ boundary) (chars_of [1, 2, 3])"
  by code_simp

theorem update_reaches_boot_witness:
  "log_bootable (os_flash (snd (ota_loop sha256_engine (recording_flash null_flash) (reference_server configureRoutes 0xC0A83201
     (snd (snd (ota_main (logging_net bench_net) bench_files bench_argv ((), [])))) 100) 100 bench_service))) = Some [1, 2, 3]"
proof -
  define msg where "msg = snd (snd (ota_main (logging_net bench_net) bench_files bench_argv ((), [])))"
  obtain r x sv' where e: "ota_loop sha256_engine (recording_flash null_flash) (reference_server configureRoutes 0xC0A83201 msg 100) 100 bench_service =
    ((r, x), sv')" by (metis prod.collapse)
  have fs: "of_hashContent bench_files = [1, 2, 3]" "of_sendContent bench_files = [1, 2, 3]" "of_size bench_files = Some (length [1, 2, 3 :: u8])"
    by (simp_all add: bench_files_def)
  have a: "\<not> ar_selfTest bench_arguments" "CHR 0x0A \<notin> set (ar_host bench_arguments)" by (simp_all add: bench_arguments_def)
  show ?thesis
    using update_reaches_boot [OF bench_success bench_parsed a(1) fs a(2) bench_image_plain reference_server_conforms sha_engine.hash_engine_axioms
        sha256_engine_ready null_flash_ready bench_service_state e [unfolded msg_def]] e unfolding msg_def by simp
qed

end
