(* ===== verification/NodePolling.thy ===== *)
theory NodePolling
  imports PosixClient EthernetServer
begin

text \<open>
  The polling of the node fleet (\<^verbatim>\<open>base-rockpie/src/NodeTcpPollingService.cpp\<close>): one Modbus TCP client and
  one telemetry sample per configured endpoint, the poll of one node, the polling cycle of the worker
  thread and the command path to a node. The worker's clock readings are arguments, as is the value
  the stop flag has at each check. A poll and a pass are given as a whole here; theory \<^verbatim>\<open>PollingWorker\<close> has
  them as the steps between which other threads run.

  The lemmas follow a register from the node to the sample and to the northbound register bank, and a
  command from the Rock Pi into the node's registers, over any segmentation of the connection.
\<close>

section \<open>The service\<close>

record node_endpoint =
  ne_host :: string
  ne_port :: u16
  ne_unitId :: u8

record polling_config =
  pg_endpoints :: "node_endpoint list"
  pg_interval :: int
  pg_timeout :: int

record polling =
  po_config :: polling_config
  po_clients :: "(endpoint \<times> posix_client) list"
  po_samples :: "node_telemetry list"
  po_running :: bool
  po_worker :: bool

definition kMagic :: u16 where [simp]: "kMagic = 0x4758"
definition kIdentityStart :: u16 where [simp]: "kIdentityStart = 0x0000"
definition kIdentityCount :: u16 where [simp]: "kIdentityCount = 13"
definition kCommandStart :: u16 where [simp]: "kCommandStart = 0x0014"
definition kTelemetryStart :: u16 where [simp]: "kTelemetryStart = 0x0040"
definition kTelemetryCount :: u16 where [simp]: "kTelemetryCount = 6"
definition kHealthStart :: u16 where [simp]: "kHealthStart = 0x0046"
definition kHealthCount :: u16 where [simp]: "kHealthCount = 9"

definition new_polling :: "polling_config \<Rightarrow> polling" where
  "new_polling config =
     (let config' = (if pg_interval config < 100 then config\<lparr>pg_interval := 100\<rparr> else config);
          eps = pg_endpoints config'
      in \<lparr>po_config = config',
          po_clients = map (\<lambda>e. (\<lparr>ep_host = ne_host e, ep_port = ne_port e, ep_unitId = ne_unitId e,
             ep_timeout = pg_timeout config'\<rparr>, new_client)) eps,
          po_samples = map (\<lambda>index. default_node_telemetry\<lparr>nt_address := of_nat (index + 1)\<rparr>) [0..<length eps],
          po_running = False, po_worker = False\<rparr>)"

definition polling_start :: "polling \<Rightarrow> polling" where
  "polling_start sv = (if po_running sv then sv else sv\<lparr>po_running := True, po_worker := True\<rparr>)"

fun disconnect_all :: "('n, 'a) client_net \<Rightarrow> (endpoint \<times> posix_client) list \<Rightarrow> 'n \<Rightarrow> (endpoint \<times> posix_client) list \<times> 'n" where
  "disconnect_all net [] n = ([], n)"
| "disconnect_all net ((ep, pc) # cs) n = (case disconnectLocked net (pc, n) of (pc', n1) \<Rightarrow>
     case disconnect_all net cs n1 of (cs', n2) \<Rightarrow> ((ep, pc') # cs', n2))"

section \<open>Polling a node\<close>

definition poll_failed :: "node_poll_status \<Rightarrow> node_telemetry \<Rightarrow> node_telemetry" where
  "poll_failed status sample = sample\<lparr>nt_online := False, nt_pollStatus := status,
     nt_consecutiveFailures := nt_consecutiveFailures sample + 1\<rparr>"

definition store_telemetry :: "u16 list \<Rightarrow> u16 list \<Rightarrow> node_telemetry \<Rightarrow> node_telemetry" where
  "store_telemetry identity telemetry sample = sample\<lparr>
     nt_nodeType := identity ! 2, nt_nodeState := identity ! 3, nt_driverId := identity ! 5,
     nt_quality := identity ! 6, nt_heartbeat := identity ! 12,
     nt_actualPowerKw := ddiv (Fin (of_int (sint (telemetry ! 0)))) (Fin 10),
     nt_energyWh := push_bit 16 (ucast (telemetry ! 1)) OR ucast (telemetry ! 2),
     nt_deviceState := telemetry ! 3, nt_alarmBits := telemetry ! 4, nt_cloudConnected := (telemetry ! 5 = 1)\<rparr>"

definition store_health :: "u16 list \<Rightarrow> node_telemetry \<Rightarrow> node_telemetry" where
  "store_health health sample = sample\<lparr>
     nt_ethernetStatus := health ! 0, nt_modbusTcpStatus := health ! 1, nt_driverReady := health ! 2,
     nt_deviceBusStatus := health ! 3, nt_watchdogStatus := health ! 4, nt_recoveryCount := health ! 5,
     nt_ethernetRecoveryCount := health ! 6, nt_busRecoveryCount := health ! 7, nt_lastError := health ! 8\<rparr>"

definition poll_client :: "('n, 'a) client_net \<Rightarrow> int \<Rightarrow> int \<Rightarrow> endpoint \<Rightarrow> node_telemetry \<Rightarrow> 'n posix_world \<Rightarrow>
    node_telemetry \<times> 'n posix_world" where
  "poll_client net steadyNow systemNow ep sample w =
     (case posix_readHoldingRange net ep kIdentityStart kIdentityCount w of
        (None, w1) \<Rightarrow> (poll_failed TransportFailure sample, w1)
      | (Some identity, w1) \<Rightarrow>
          if identity ! 0 \<noteq> kMagic then (poll_failed IdentityFailure sample, w1)
          else case posix_readHoldingRange net ep kTelemetryStart kTelemetryCount w1 of
            (None, w2) \<Rightarrow> (poll_failed TelemetryFailure sample, w2)
          | (Some telemetry, w2) \<Rightarrow>
              (case posix_readHoldingRange net ep kHealthStart kHealthCount w2 of (health, w3) \<Rightarrow>
                 let s1 = store_telemetry identity telemetry sample;
                     s2 = (case health of None \<Rightarrow> s1 | Some h \<Rightarrow> store_health h s1)
                 in (s2\<lparr>nt_online := True, nt_pollStatus := PollOnline, nt_consecutiveFailures := 0,
                        nt_lastSeen := steadyNow, nt_lastSuccessfulContact := systemNow\<rparr>, w3)))"

definition pollNode :: "('n, 'a) client_net \<Rightarrow> int \<Rightarrow> int \<Rightarrow> nat \<Rightarrow> polling \<times> 'n \<Rightarrow> polling \<times> 'n" where
  "pollNode net steadyNow systemNow index = (\<lambda>(sv, n). case po_clients sv ! index of (ep, pc) \<Rightarrow>
     case poll_client net steadyNow systemNow ep (po_samples sv ! index) (pc, n) of (sample, (pc', n')) \<Rightarrow>
       (sv\<lparr>po_clients := (po_clients sv)[index := (ep, pc')], po_samples := (po_samples sv)[index := sample]\<rparr>, n'))"

text \<open>One pass of the worker: nodes in order, until the stop flag is seen; \<open>steady\<close> and \<open>system\<close> are the
  clocks at each node, \<open>running\<close> the flag at each check.\<close>

function poll_from :: "('n, 'a) client_net \<Rightarrow> (nat \<Rightarrow> int) \<Rightarrow> (nat \<Rightarrow> int) \<Rightarrow> (nat \<Rightarrow> bool) \<Rightarrow> nat \<Rightarrow> polling \<times> 'n \<Rightarrow> polling \<times> 'n" where
  "poll_from net steady system running index w =
     (if index < length (po_clients (fst w)) \<and> running index
      then poll_from net steady system running (index + 1) (pollNode net (steady index) (system index) index w)
      else w)"
  by pat_completeness auto
termination
  by (relation "measure (\<lambda>(net, steady, system, running, index, w). length (po_clients (fst w)) - index)")
    (auto simp: pollNode_def split: prod.splits)

declare poll_from.simps [simp del]

section \<open>Commands to a node\<close>

text \<open>\<^verbatim>\<open>std::lround\<close> of a finite value far inside the range of \<^verbatim>\<open>long\<close>, and the narrowing cast.\<close>

definition command_raw :: "dbl \<Rightarrow> u16" where
  "command_raw requested = (case dmul requested (Fin 10) of Fin y \<Rightarrow> word_of_int (sround y) | _ \<Rightarrow> 0)"

definition command_valid :: "dbl \<Rightarrow> u16 \<Rightarrow> bool" where
  "command_valid requested ttlSeconds \<longleftrightarrow>
     \<not> (\<not> isfinite requested \<or> dlt requested (rnd (- 32768 / 10)) \<or> dlt (rnd (32767 / 10)) requested \<or>
        ttlSeconds < 1 \<or> 30 < ttlSeconds)"

definition applyPowerCommand :: "('n, 'a) client_net \<Rightarrow> nat \<Rightarrow> dbl \<Rightarrow> bool \<Rightarrow> u16 \<Rightarrow> u16 \<Rightarrow> polling \<times> 'n \<Rightarrow> bool \<times> polling \<times> 'n" where
  "applyPowerCommand net slot requested enabled sequence ttlSeconds = (\<lambda>(sv, n).
     if length (po_clients sv) \<le> slot \<or> \<not> command_valid requested ttlSeconds then (False, (sv, n))
     else case po_clients sv ! slot of (ep, pc) \<Rightarrow>
       case posix_writeHoldingRange net ep kCommandStart
           [sequence, command_raw requested, flag16 enabled, ttlSeconds] (pc, n) of (ok, (pc', n')) \<Rightarrow>
         (ok, (sv\<lparr>po_clients := (po_clients sv)[slot := (ep, pc')]\<rparr>, n')))"

section \<open>Shape\<close>

definition polling_ok :: "polling \<Rightarrow> bool" where
  "polling_ok sv \<longleftrightarrow> length (po_samples sv) = length (po_clients sv) \<and> 100 \<le> pg_interval (po_config sv) \<and>
     (po_running sv \<longrightarrow> po_worker sv) \<and> (\<forall>x \<in> set (po_samples sv). nt_online x \<longleftrightarrow> nt_pollStatus x = PollOnline)"

lemma readHoldingRange_length:
  "posix_readHoldingRange net ep a n w = (Some vs, w') \<Longrightarrow> length vs = unat n"
  by (auto simp: posix_readHoldingRange_def decode_range_def Let_def split: if_splits option.splits prod.splits)

lemma poll_client_status:
  "nt_online (fst (poll_client net t u ep sample w)) \<longleftrightarrow> nt_pollStatus (fst (poll_client net t u ep sample w)) = PollOnline"
  by (simp add: poll_client_def poll_failed_def Let_def split: prod.split option.split)

lemma poll_client_failures:
  "nt_consecutiveFailures (fst (poll_client net t u ep sample w)) =
     (if nt_online (fst (poll_client net t u ep sample w)) then 0 else nt_consecutiveFailures sample + 1)"
  by (simp add: poll_client_def poll_failed_def Let_def split: prod.split option.split)

text \<open>A poll that does not succeed only records its failure.\<close>

lemma poll_client_failed:
  "nt_online (fst (poll_client net t u ep sample w)) \<or> (\<exists>st. fst (poll_client net t u ep sample w) = poll_failed st sample)"
  by (auto simp: poll_client_def Let_def split: prod.split option.split)

lemma pollNode_ok: "polling_ok sv \<Longrightarrow> polling_ok (fst (pollNode net t u index (sv, n)))"
proof -
  assume ok: "polling_ok sv"
  obtain ep pc where c: "po_clients sv ! index = (ep, pc)" by fastforce
  define r where "r = poll_client net t u ep (po_samples sv ! index) (pc, n)"
  have "nt_online (fst r) \<longleftrightarrow> nt_pollStatus (fst r) = PollOnline" by (simp add: r_def poll_client_status)
  moreover have "fst (pollNode net t u index (sv, n)) =
      sv\<lparr>po_clients := (po_clients sv)[index := (ep, fst (snd r))], po_samples := (po_samples sv)[index := fst r]\<rparr>"
    by (simp add: pollNode_def c r_def split: prod.split)
  ultimately show ?thesis
    using ok set_update_subset_insert [of "po_samples sv" index "fst r"] by (auto simp: polling_ok_def)
qed

lemma poll_from_ok: "polling_ok (fst w) \<Longrightarrow> polling_ok (fst (poll_from net s u r i w))"
proof (induction net s u r i w rule: poll_from.induct)
  case (1 net s u r i w)
  then show ?case
    using pollNode_ok [of "fst w" net "s i" "u i" i "snd w"] by (subst poll_from.simps) simp
qed

section \<open>From the node's registers to the sample\<close>

text \<open>The node's server, as a register server for the client (theory \<^verbatim>\<open>PosixClient\<close>).\<close>

lemmas node_readRange = register_server.client_readRange(1) [OF control.register_server_axioms]
lemmas node_writeRange = register_server.client_writeHoldingRange [OF control.register_server_axioms]

lemma node_read_registers:
  assumes "0 \<le> pc_socket pc" "idle l" "ep_unitId ep = ec_unitId cfg" "node_ok (lp_server l)"
    and "0 < unat n" "unat n \<le> 64" "unat a + unat n \<le> 128"
  shows "\<exists>l'. posix_readHoldingRange (loop_net (eth_handle cfg)) ep a n (pc, l) =
      (Some (take (unat n) (drop (unat a) (nd_registers (lp_server l)))),
       (pc\<lparr>pc_transactionId := pc_transactionId pc + 1\<rparr>, l')) \<and> idle l' \<and> lp_server l' = lp_server l"
  using node_readRange [of pc l ep cfg n a] assms by (simp add: node_ok_def)

text \<open>What a poll of a node leaves in its sample.\<close>

definition sample_of_registers :: "u16 list \<Rightarrow> node_telemetry \<Rightarrow> node_telemetry" where
  "sample_of_registers regs sample = sample\<lparr>
     nt_nodeType := regs ! G_NodeType, nt_nodeState := regs ! G_NodeState, nt_driverId := regs ! G_DriverId,
     nt_quality := regs ! G_Quality, nt_heartbeat := regs ! G_Heartbeat,
     nt_actualPowerKw := decodeSigned (regs ! G_ActualPowerKwX10) (Fin 10),
     nt_energyWh := push_bit 16 (ucast (regs ! G_EnergyWhHigh)) OR ucast (regs ! G_EnergyWhLow),
     nt_deviceState := regs ! G_DeviceState, nt_alarmBits := regs ! G_AlarmBits,
     nt_cloudConnected := (regs ! G_CloudConnected = 1), nt_ethernetStatus := regs ! G_EthernetStatus,
     nt_modbusTcpStatus := regs ! G_ModbusTcpStatus, nt_driverReady := regs ! G_DriverReady,
     nt_deviceBusStatus := regs ! G_DeviceBusStatus, nt_watchdogStatus := regs ! G_WatchdogStatus,
     nt_recoveryCount := regs ! G_RecoveryCount, nt_ethernetRecoveryCount := regs ! G_EthernetRecoveryCount,
     nt_busRecoveryCount := regs ! G_BusRecoveryCount, nt_lastError := regs ! G_LastError\<rparr>"

lemma poll_client_node:
  assumes "0 \<le> pc_socket pc" "idle l" "ep_unitId ep = ec_unitId cfg" "node_ok (lp_server l)"
    and "nd_registers (lp_server l) ! G_Magic = G_MagicValue"
  shows "\<exists>pc' l'. poll_client (loop_net (eth_handle cfg)) t u ep sample (pc, l) =
    ((sample_of_registers (nd_registers (lp_server l)) sample)\<lparr>nt_online := True, nt_pollStatus := PollOnline,
       nt_consecutiveFailures := 0, nt_lastSeen := t, nt_lastSuccessfulContact := u\<rparr>, (pc', l')) \<and>
    0 \<le> pc_socket pc' \<and> idle l' \<and> lp_server l' = lp_server l"
proof -
  define regs where "regs = nd_registers (lp_server l)"
  have len: "length regs = 128" using assms(4) by (simp add: node_ok_def regs_def)
  define pc1 where "pc1 = pc\<lparr>pc_transactionId := pc_transactionId pc + 1\<rparr>"
  define pc2 where "pc2 = pc1\<lparr>pc_transactionId := pc_transactionId pc1 + 1\<rparr>"
  define pc3 where "pc3 = pc2\<lparr>pc_transactionId := pc_transactionId pc2 + 1\<rparr>"
  have s: "0 \<le> pc_socket pc1" "0 \<le> pc_socket pc2" "0 \<le> pc_socket pc3" using assms(1) by (simp_all add: pc1_def pc2_def pc3_def)
  obtain l1 where r1: "posix_readHoldingRange (loop_net (eth_handle cfg)) ep 0 13 (pc, l) = (Some (take 13 regs), (pc1, l1))"
      "idle l1" "lp_server l1 = lp_server l"
    using node_read_registers [OF assms(1-4), of 13 0] by (auto simp: regs_def pc1_def)
  obtain l2 where r2: "posix_readHoldingRange (loop_net (eth_handle cfg)) ep 64 6 (pc1, l1) = (Some (take 6 (drop 64 regs)), (pc2, l2))"
      "idle l2" "lp_server l2 = lp_server l"
    using node_read_registers [OF s(1) r1(2) assms(3), of 6 64] r1(3) assms(4) by (auto simp: regs_def pc2_def)
  obtain l3 where r3: "posix_readHoldingRange (loop_net (eth_handle cfg)) ep 70 9 (pc2, l2) = (Some (take 9 (drop 70 regs)), (pc3, l3))"
      "idle l3" "lp_server l3 = lp_server l"
    using node_read_registers [OF s(2) r2(2) assms(3), of 9 70] r2(3) assms(4) by (auto simp: regs_def pc3_def)
  have "store_health (take 9 (drop 70 regs)) (store_telemetry (take 13 regs) (take 6 (drop 64 regs)) sample) =
      sample_of_registers regs sample"
    using len by (simp add: store_health_def store_telemetry_def sample_of_registers_def decodeSigned_def)
  then show ?thesis
    using assms(5) r1(1) r2(1) r3 s(3) by (simp add: poll_client_def Let_def regs_def [symmetric])
qed

text \<open>The way on into the northbound bank: the power survives the decoding and encoding.\<close>

lemma sample_power_roundtrip:
  "encodeSignedX10 (nt_actualPowerKw (sample_of_registers regs x)) = Some (regs ! G_ActualPowerKwX10)"
  by (simp add: sample_of_registers_def encodeSignedX10_encodeSigned encode_decode)

lemma energy_split:
  "high_word (push_bit 16 (ucast (h :: u16)) OR ucast (l :: u16)) = h" "ucast (push_bit 16 (ucast h) OR ucast l :: u32) = l"
  by (rule bit_word_eqI; auto simp: high_word_def bit_simps dest: bit_imp_le_length)+

section \<open>The command register\<close>

lemma sround_error: "\<bar>of_int (sround y) - y\<bar> \<le> 1 / 2"
proof (cases "0 \<le> y")
  case True
  then show ?thesis unfolding sround_def abs_le_iff if_P [OF True] by linarith
next
  case False
  then show ?thesis unfolding sround_def abs_le_iff if_not_P [OF False] of_int_minus by linarith
qed

lemma command_limits:
  obtains a b where "rnd (- 32768 / 10) = Fin a" "rnd (32767 / 10) = Fin b"
    "\<bar>a - - 32768 / 10\<bar> \<le> 1 / 1000000" "\<bar>b - 32767 / 10\<bar> \<le> 1 / 1000000"
proof -
  obtain a where a: "rnd (- 32768 / 10) = Fin a" "\<bar>a - - 32768 / 10\<bar> \<le> \<bar>- 32768 / 10\<bar> / 2 ^ 53 + 1 / 2 ^ 100"
    by (rule rnd_error [of "- 32768 / 10"]) simp_all
  obtain b where b: "rnd (32767 / 10) = Fin b" "\<bar>b - 32767 / 10\<bar> \<le> \<bar>32767 / 10\<bar> / 2 ^ 53 + 1 / 2 ^ 100"
    by (rule rnd_error [of "32767 / 10"]) simp_all
  have "\<bar>- 32768 / 10\<bar> / 2 ^ 53 + 1 / 2 ^ 100 \<le> (1 / 1000000 :: rat)" "\<bar>32767 / 10\<bar> / 2 ^ 53 + 1 / 2 ^ 100 \<le> (1 / 1000000 :: rat)"
    by simp_all
  with a(2) b(2) have "\<bar>a - - 32768 / 10\<bar> \<le> 1 / 1000000" "\<bar>b - 32767 / 10\<bar> \<le> 1 / 1000000" by linarith+
  with a(1) b(1) show thesis by (rule that)
qed

lemma command_valid_inside: "\<bar>x\<bar> \<le> 3276 \<Longrightarrow> 1 \<le> ttl \<Longrightarrow> ttl \<le> 30 \<Longrightarrow> command_valid (Fin x) ttl"
proof -
  assume *: "\<bar>x\<bar> \<le> 3276" "1 \<le> ttl" "ttl \<le> 30"
  obtain a b where near: "rnd (- 32768 / 10) = Fin a" "rnd (32767 / 10) = Fin b"
      "\<bar>a - - 32768 / 10\<bar> \<le> 1 / 1000000" "\<bar>b - 32767 / 10\<bar> \<le> 1 / 1000000" by (rule command_limits)
  have "a \<le> x" "x \<le> b" using near(3,4) *(1) unfolding abs_le_iff by linarith+
  then show ?thesis unfolding command_valid_def near using *(2,3) by (auto simp: not_less)
qed

lemma command_raw_exact:
  assumes "command_valid p ttl"
  shows "\<exists>x. p = Fin x \<and> \<bar>of_int (sint (command_raw p)) - x * 10\<bar> \<le> 1 / 2 + 1 / 1000"
proof -
  from assms obtain x where x: "p = Fin x" by (auto simp: command_valid_def isfinite_iff)
  obtain a b where near: "rnd (- 32768 / 10) = Fin a" "rnd (32767 / 10) = Fin b"
      "\<bar>a - - 32768 / 10\<bar> \<le> 1 / 1000000" "\<bar>b - 32767 / 10\<bar> \<le> 1 / 1000000" by (rule command_limits)
  have ab: "a \<le> x" "x \<le> b" using assms near(1,2) by (simp_all add: command_valid_def x not_less)
  have lo: "- 32768 - 1 / 100000 \<le> x * 10" using ab(1) near(3) unfolding abs_le_iff by linarith
  have hi: "x * 10 \<le> 32767 + 1 / 100000" using ab(2) near(4) unfolding abs_le_iff by linarith
  obtain y where y: "rnd (x * 10) = Fin y" "\<bar>y - x * 10\<bar> \<le> \<bar>x * 10\<bar> / 2 ^ 53 + 1 / 2 ^ 100"
    proof (rule rnd_error [of "x * 10"])
    show "\<bar>x * 10\<bar> \<le> 2 ^ 100" using lo hi unfolding abs_le_iff by simp
  qed
  have "sround y \<le> 32767" using rnd_le_int [of "x * 10" 32767] hi y(1) by simp
  moreover have "- 32768 \<le> sround y" using rnd_ge_int [of 32768 "x * 10"] lo y(1) by simp
  ultimately have "sint (command_raw p) = sround y" by (simp add: command_raw_def x y(1) sint_of_int16)
  moreover have "\<bar>y - x * 10\<bar> \<le> 1 / 1000"
  proof -
    have "\<bar>x * 10\<bar> \<le> 40000" using lo hi unfolding abs_le_iff by linarith
    then have "\<bar>x * 10\<bar> / 2 ^ 53 \<le> 40000 / 2 ^ 53" by (simp add: divide_right_mono)
    moreover have "40000 / 2 ^ 53 + 1 / 2 ^ 100 \<le> (1 / 1000 :: rat)" by simp
    ultimately show ?thesis using y(2) by linarith
  qed
  ultimately show ?thesis using x sround_error [of y] unfolding abs_le_iff by auto
qed

section \<open>Properties\<close>

text \<open>
  Property C20 (refinement). A node's registers arrive unchanged in the northbound bank: when the worker
  polls a connected node, over any segmentation of the connection, and the sample is published, the
  slot of that node holds the node's type, state, driver, quality, heartbeat, power, energy, device
  state, alarms and cloud flag as they stand in the node, marked online with age zero; the node itself
  is not changed by being read.
\<close>

theorem node_poll_to_bank:
  assumes "polling_ok sv" "index < length (po_clients sv)" "index < NodeSlotCount" "po_clients sv ! index = (ep, pc)"
    and "0 \<le> pc_socket pc" "idle l" "ep_unitId ep = ec_unitId cfg" "node_ok (lp_server l)"
    and "nd_registers (lp_server l) ! G_Magic = G_MagicValue" "bank_ok b"
  shows "let (sv', l') = pollNode (loop_net (eth_handle cfg)) t u index (sv, l); regs = nd_registers (lp_server l) in
    lp_server l' = lp_server l \<and> polling_ok sv' \<and> nt_consecutiveFailures (po_samples sv' ! index) = 0 \<and>
    (\<exists>b'. publishNode b index (po_samples sv' ! index) t = Some b' \<and>
       map (\<lambda>k. bk_input b' ! (NodeSlotBase + index * NodeSlotStride + k))
         [N_Online, N_NodeType, N_NodeState, N_DriverId, N_Quality, N_Heartbeat, N_ActualPowerKwX10,
          N_EnergyWhHigh, N_EnergyWhLow, N_DeviceState, N_AlarmBits, N_AgeSeconds, N_CloudConnected] =
         [1, regs ! G_NodeType, regs ! G_NodeState, regs ! G_DriverId, regs ! G_Quality, regs ! G_Heartbeat,
          regs ! G_ActualPowerKwX10, regs ! G_EnergyWhHigh, regs ! G_EnergyWhLow, regs ! G_DeviceState,
          regs ! G_AlarmBits, 0, flag16 (regs ! G_CloudConnected = 1)])"
proof -
  define regs where "regs = nd_registers (lp_server l)"
  define x where "x = (sample_of_registers regs (po_samples sv ! index))\<lparr>nt_online := True, nt_pollStatus := PollOnline,
       nt_consecutiveFailures := 0, nt_lastSeen := t, nt_lastSuccessfulContact := u\<rparr>"
  obtain pc' l' where p: "poll_client (loop_net (eth_handle cfg)) t u ep (po_samples sv ! index) (pc, l) = (x, (pc', l'))"
      "lp_server l' = lp_server l"
    using poll_client_node [OF assms(5-9), of t u "po_samples sv ! index"] by (auto simp: x_def regs_def)
  obtain sv' where q: "pollNode (loop_net (eth_handle cfg)) t u index (sv, l) = (sv', l')"
      "po_samples sv' = (po_samples sv)[index := x]"
    using p(1) assms(4) by (simp add: pollNode_def)
  have ok: "polling_ok sv'" using pollNode_ok [OF assms(1), of "loop_net (eth_handle cfg)" t u index l] q(1) by simp
  have idx: "po_samples sv' ! index = x" using q(2) assms(1,2) by (simp add: polling_ok_def)
  have pw: "encodeSignedX10 (nt_actualPowerKw x) = Some (regs ! G_ActualPowerKwX10)"
    using sample_power_roundtrip [of regs] by (simp add: x_def)
  then have "nt_actualPowerKw x \<noteq> NaN" by (auto simp: encodeSignedX10_def)
  from publishNode_slot [OF assms(10) this, of index t] assms(3) obtain b' where
    b': "publishNode b index x t = Some b'"
      "\<forall>(k, v) \<in> set (node_values x t). Some (bk_input b' ! (NodeSlotBase + index * NodeSlotStride + k)) = v"
    by auto
  have age: "age_seconds x t = 0" by (simp add: age_seconds_def x_def whole_seconds_def)
  have "map (\<lambda>k. bk_input b' ! (NodeSlotBase + index * NodeSlotStride + k))
         [N_Online, N_NodeType, N_NodeState, N_DriverId, N_Quality, N_Heartbeat, N_ActualPowerKwX10,
          N_EnergyWhHigh, N_EnergyWhLow, N_DeviceState, N_AlarmBits, N_AgeSeconds, N_CloudConnected] =
         [1, regs ! G_NodeType, regs ! G_NodeState, regs ! G_DriverId, regs ! G_Quality, regs ! G_Heartbeat,
          regs ! G_ActualPowerKwX10, regs ! G_EnergyWhHigh, regs ! G_EnergyWhLow, regs ! G_DeviceState,
          regs ! G_AlarmBits, 0, flag16 (regs ! G_CloudConnected = 1)]"
    using b'(2) pw age unfolding node_values_def
    by (simp add: x_def sample_of_registers_def energy_split flag16_def)
  then show ?thesis using p(2) q(1) ok b'(1) by (auto simp: idx Let_def regs_def x_def)
qed

definition bench_polling :: polling where
  "bench_polling = (new_polling \<lparr>pg_endpoints = [\<lparr>ne_host = ''node-1'', ne_port = 1502, ne_unitId = 1\<rparr>],
     pg_interval = 500, pg_timeout = 400\<rparr>)\<lparr>po_clients := [(\<lparr>ep_host = ''node-1'', ep_port = 1502, ep_unitId = 1, ep_timeout = 400\<rparr>,
       \<lparr>pc_socket = 3, pc_transactionId = 0xFFFF\<rparr>)]\<rparr>"

definition node_loop :: "mbus_node loop" where
  "node_loop = \<lparr>lp_server = example_node, lp_request = [], lp_reply = [], lp_chunks = [0, 3, 1]\<rparr>"

lemma bench_polling_ok:
  "polling_ok bench_polling" "length (po_clients bench_polling) = 1"
  "po_clients bench_polling ! 0 = (\<lparr>ep_host = ''node-1'', ep_port = 1502, ep_unitId = 1, ep_timeout = 400\<rparr>,
     \<lparr>pc_socket = 3, pc_transactionId = 0xFFFF\<rparr>)"
  by (simp_all add: bench_polling_def new_polling_def polling_ok_def default_node_telemetry_def)

lemma node_loop_ok: "idle node_loop" "node_ok (lp_server node_loop)" "nd_registers (lp_server node_loop) ! G_Magic = G_MagicValue"
  using example_node_ok
  by (simp_all add: idle_def node_loop_def example_node_def new_node_def initializeIdentity_def Let_def)

theorem node_poll_to_bank_witness:
  "lp_server (snd (pollNode (loop_net (eth_handle \<lparr>ec_port = 1502, ec_unitId = 1, ec_rockPiAddress = 0\<rparr>)) 5 6 0 (bench_polling, node_loop))) =
     example_node"
  using node_poll_to_bank [OF bench_polling_ok(1) _ _ bench_polling_ok(3) _ node_loop_ok(1) _ node_loop_ok(2,3) new_bank_ok,
      where cfg = "\<lparr>ec_port = 1502, ec_unitId = 1, ec_rockPiAddress = 0\<rparr>" and t = 5 and u = 6]
  by (auto simp: bench_polling_ok node_loop_def Let_def split: prod.splits)

text \<open>
  The power that reaches the command register is the requested one: whenever the
  service accepts a command, the request is finite, the conversion to a signed 16-bit register does
  not wrap, and the register differs from ten times the request by at most one half (up to the
  rounding of one double multiplication).
\<close>

theorem node_command_exact:
  assumes "fst (applyPowerCommand net slot p enabled sequence ttl (sv, n))"
  shows "slot < length (po_clients sv) \<and> 1 \<le> ttl \<and> ttl \<le> 30 \<and>
    (\<exists>x. p = Fin x \<and> \<bar>of_int (sint (command_raw p)) - x * 10\<bar> \<le> 1 / 2 + 1 / 1000)"
proof -
  have v: "slot < length (po_clients sv)" "command_valid p ttl"
    using assms by (auto simp: applyPowerCommand_def not_le split: if_splits)
  then have "1 \<le> ttl \<and> ttl \<le> 30" by (simp add: command_valid_def not_less one_le_word)
  with v(1) command_raw_exact [OF v(2)] show ?thesis by simp
qed

lemma apply_over_node:
  assumes "slot < length (po_clients sv)" "po_clients sv ! slot = (ep, pc)" "command_valid p ttl"
    and "0 \<le> pc_socket pc" "idle l" "ep_unitId ep = ec_unitId cfg" "node_ok (lp_server l)"
  shows "\<exists>sv' l'. applyPowerCommand (loop_net (eth_handle cfg)) slot p enabled sequence ttl (sv, l) = (True, (sv', l')) \<and>
    node_ok (lp_server l') \<and> idle l' \<and>
    nd_registers (lp_server l') = overwrite (nd_registers (lp_server l)) G_CommandSequence
      [sequence, command_raw p, flag16 enabled, ttl]"
proof -
  obtain l' where "posix_writeHoldingRange (loop_net (eth_handle cfg)) ep kCommandStart [sequence, command_raw p, flag16 enabled, ttl] (pc, l) =
      (True, (pc\<lparr>pc_transactionId := pc_transactionId pc + 1\<rparr>, l'))" "idle l'" "node_ok (lp_server l')"
      "nd_registers (lp_server l') = overwrite (nd_registers (lp_server l)) G_CommandSequence [sequence, command_raw p, flag16 enabled, ttl]"
    using node_writeRange [OF assms(4-7), of "[sequence, command_raw p, flag16 enabled, ttl]" kCommandStart] by auto
  then show ?thesis using assms(1-3) by (simp add: applyPowerCommand_def)
qed

text \<open>
  The service keeps one sample per client and reports a node online exactly
  when its last poll went through, from construction, through start and every polling pass on
  any network; a failed poll counts one more failure and keeps the last measurements.
\<close>

theorem polling_invariant:
  "polling_ok (new_polling config) \<and>
   (polling_ok sv \<longrightarrow> polling_ok (polling_start sv) \<and>
      polling_ok (fst (poll_from net steady system running index (sv, n))) \<and>
      polling_ok (fst (snd (applyPowerCommand net slot p enabled sequence ttl (sv, n))))) \<and>
   (let x = fst (poll_client net t u ep sample w) in
      nt_consecutiveFailures x = (if nt_online x then 0 else nt_consecutiveFailures sample + 1) \<and>
      (nt_online x \<or> (\<exists>st. x = poll_failed st sample)))"
proof -
  have "polling_ok sv \<Longrightarrow> polling_ok (fst (snd (applyPowerCommand net slot p enabled sequence ttl (sv, n))))"
    by (simp add: applyPowerCommand_def polling_ok_def split: prod.split)
  moreover have "polling_ok (new_polling config)"
    by (auto simp: new_polling_def polling_ok_def Let_def default_node_telemetry_def)
  moreover have "polling_ok sv \<Longrightarrow> polling_ok (polling_start sv)"
    by (simp add: polling_start_def polling_ok_def)
  ultimately show ?thesis
    using poll_from_ok [of "(sv, n)" net steady system running index] poll_client_failures [of net t u ep sample w]
      poll_client_failed [of net t u ep sample w] by (simp add: Let_def)
qed

theorem polling_invariant_witness:
  "polling_ok (polling_start bench_polling)"
  by (rule polling_invariant [where net = "loop_net (eth_handle \<lparr>ec_port = 1502, ec_unitId = 1, ec_rockPiAddress = 0\<rparr>)",
        THEN conjunct2, THEN conjunct1, THEN mp, THEN conjunct1, OF bench_polling_ok(1)])

end
