(* ===== verification/Journal.thy ===== *)
theory Journal
  imports RegisterBank Texts
begin

text \<open>
  The local telemetry journal (\<^verbatim>\<open>base-rockpie/src/TelemetryJournal.cpp\<close>): the text of a record, rotation at a
  size limit and the appending write. The file system is the contents of the journal and of its
  rotated predecessor; the results of the system calls of one append are an argument, with the
  documented meaning of \<^verbatim>\<open>write\<close>: a positive result is the number of bytes that reached the file.
\<close>

section \<open>Records\<close>

fun pollStatusName :: "node_poll_status \<Rightarrow> string" where
  "pollStatusName PollUnknown = ''unknown''"
| "pollStatusName PollOnline = ''online''"
| "pollStatusName TransportFailure = ''transport_failure''"
| "pollStatusName IdentityFailure = ''identity_failure''"
| "pollStatusName TelemetryFailure = ''telemetry_failure''"

definition jsonBool :: "bool \<Rightarrow> string" where
  "jsonBool v = (if v then ''true'' else ''false'')"

text \<open>A member name in quotes, with its colon and the comma before it.\<close>

definition dquote :: char where "dquote = CHR 0x22"

definition member :: "string \<Rightarrow> string" where
  "member name = '','' @ [dquote] @ name @ [dquote] @ '':''"

definition quoted :: "string \<Rightarrow> string" where
  "quoted s = [dquote] @ s @ [dquote]"

record journal_config =
  jc_path :: string
  jc_maxBytes :: nat
  jc_enabled :: bool

record journal =
  jn_config :: journal_config
  jn_sequence :: u64

definition new_journal :: "journal_config \<Rightarrow> journal" where
  "new_journal config = \<lparr>jn_config = (if jc_path config = [] \<or> jc_maxBytes config < 64 * 1024
     then config\<lparr>jc_enabled := False\<rparr> else config), jn_sequence = 0\<rparr>"

definition nextSequence :: "journal \<Rightarrow> u64" where
  "nextSequence j = jn_sequence j + 1"

definition journal_record :: "journal \<Rightarrow> int \<Rightarrow> string \<Rightarrow> nat \<Rightarrow> node_telemetry \<Rightarrow> node_poll_status \<Rightarrow> string" where
  "journal_record j now kind slot sample previousStatus =
     ''{'' @ quoted ''schemaVersion'' @ '':1'' @ member ''sequence'' @ show_nat (unat (nextSequence j)) @
     member ''observedAt'' @ quoted (utc_text now) @ member ''kind'' @ quoted kind @
     member ''slot'' @ show_nat slot @ member ''online'' @ jsonBool (nt_online sample) @
     member ''pollStatus'' @ quoted (pollStatusName (nt_pollStatus sample)) @
     member ''previousPollStatus'' @ quoted (pollStatusName previousStatus) @
     member ''consecutiveFailures'' @ show_nat (unat (nt_consecutiveFailures sample)) @
     member ''heartbeat'' @ show_nat (unat (nt_heartbeat sample)) @
     member ''actualPowerKw'' @ fmt_double (nt_actualPowerKw sample) @
     member ''energyWh'' @ show_nat (unat (nt_energyWh sample)) @
     member ''quality'' @ show_nat (unat (nt_quality sample)) @
     member ''alarmBits'' @ show_nat (unat (nt_alarmBits sample)) @
     member ''lastError'' @ show_nat (unat (nt_lastError sample)) @ ''}''"

section \<open>Files\<close>

record journal_files =
  jf_current :: "string option"
  jf_prior :: "string option"

record journal_env =
  je_mkdirOk :: bool
  je_statError :: bool
  je_removeOk :: bool
  je_renameOk :: bool
  je_openOk :: bool
  je_written :: int
  je_fsyncOk :: bool

text \<open>\<^verbatim>\<open>rotateIfNeeded\<close>: \<open>je_statError\<close> is an error of \<^verbatim>\<open>file_size\<close> other than a missing file.\<close>

definition rotateIfNeeded :: "nat \<Rightarrow> nat \<Rightarrow> journal_env \<Rightarrow> journal_files \<Rightarrow> bool \<times> journal_files" where
  "rotateIfNeeded maxBytes incomingBytes env fs =
     (if \<not> je_mkdirOk env then (False, fs)
      else if je_statError env then (False, fs)
      else case jf_current fs of None \<Rightarrow> (True, fs)
        | Some current \<Rightarrow>
            if length current + incomingBytes \<le> maxBytes then (True, fs)
            else let fs1 = (if je_removeOk env then fs\<lparr>jf_prior := None\<rparr> else fs)
                 in if je_renameOk env then (True, fs1\<lparr>jf_current := None, jf_prior := Some current\<rparr>) else (False, fs1))"

definition journal_append :: "string \<Rightarrow> journal_env \<Rightarrow> journal \<times> journal_files \<Rightarrow> bool \<times> journal \<times> journal_files" where
  "journal_append text env = (\<lambda>(j, fs).
     if \<not> jc_enabled (jn_config j) then (True, (j, fs))
     else let line = text @ [CHR 0x0A];
              (rotated, fs1) = rotateIfNeeded (jc_maxBytes (jn_config j)) (length line) env fs
          in if \<not> rotated then (False, (j, fs1))
             else if \<not> je_openOk env then (False, (j, fs1))
             else let before = (case jf_current fs1 of None \<Rightarrow> [] | Some c \<Rightarrow> c);
                      fs2 = fs1\<lparr>jf_current := Some (before @ take (nat (je_written env)) line)\<rparr>;
                      synced = (je_written env = int (length line) \<and> je_fsyncOk env)
                  in if \<not> synced then (False, (j, fs2))
                     else (True, (j\<lparr>jn_sequence := jn_sequence j + 1\<rparr>, fs2)))"

definition appendSnapshot :: "int \<Rightarrow> nat \<Rightarrow> node_telemetry \<Rightarrow> journal_env \<Rightarrow> journal \<times> journal_files \<Rightarrow> bool \<times> journal \<times> journal_files" where
  "appendSnapshot now slot sample env w = journal_append (journal_record (fst w) now ''snapshot'' slot sample PollUnknown) env w"

definition appendTransition :: "int \<Rightarrow> nat \<Rightarrow> node_telemetry \<Rightarrow> node_poll_status \<Rightarrow> journal_env \<Rightarrow> journal \<times> journal_files \<Rightarrow>
    bool \<times> journal \<times> journal_files" where
  "appendTransition now slot sample previousStatus env w =
     journal_append (journal_record (fst w) now ''transition'' slot sample previousStatus) env w"

section \<open>Sizes\<close>

definition file_length :: "string option \<Rightarrow> nat" where
  "file_length f = (case f of None \<Rightarrow> 0 | Some c \<Rightarrow> length c)"

definition kept :: "journal_files \<Rightarrow> string" where
  "kept fs = (case jf_prior fs of None \<Rightarrow> [] | Some c \<Rightarrow> c) @ (case jf_current fs of None \<Rightarrow> [] | Some c \<Rightarrow> c)"

lemma rotate_sizes:
  assumes "rotateIfNeeded limit n env fs = (ok, fs')"
  shows "file_length (jf_prior fs') \<le> max (file_length (jf_prior fs)) (file_length (jf_current fs)) \<and>
    file_length (jf_current fs') \<le> file_length (jf_current fs) \<and>
    (ok \<longrightarrow> jf_current fs' = None \<or> file_length (jf_current fs') + n \<le> limit)"
  using assms
  by (auto simp: rotateIfNeeded_def file_length_def Let_def split: if_splits option.splits)

text \<open>What an append does to the files: nothing, a rotation, or a rotation and a write of part of the line.\<close>

lemma append_cases:
  assumes "journal_append text env (j, fs) = (ok, (j', fs'))"
  obtains (untouched) "fs' = fs" "ok \<longleftrightarrow> \<not> jc_enabled (jn_config j)" "j' = j"
  | (rotated) r where "rotateIfNeeded (jc_maxBytes (jn_config j)) (length text + 1) env fs = (r, fs')" "\<not> ok" "j' = j"
  | (written) fs1 where "rotateIfNeeded (jc_maxBytes (jn_config j)) (length text + 1) env fs = (True, fs1)"
      "fs' = fs1\<lparr>jf_current := Some ((case jf_current fs1 of None \<Rightarrow> [] | Some c \<Rightarrow> c) @ take (nat (je_written env)) (text @ [CHR 0x0A]))\<rparr>"
      "ok \<longleftrightarrow> je_written env = int (length text + 1) \<and> je_fsyncOk env"
      "j' = (if ok then j\<lparr>jn_sequence := jn_sequence j + 1\<rparr> else j)"
proof -
  obtain r fs1 where r: "rotateIfNeeded (jc_maxBytes (jn_config j)) (length text + 1) env fs = (r, fs1)" by fastforce
  show thesis
  proof (cases "jc_enabled (jn_config j)")
    case False
    with assms show thesis by (intro untouched) (auto simp: journal_append_def)
  next
    case True
    show thesis
    proof (cases "r \<and> je_openOk env")
      case False
      with assms r True show thesis by (intro rotated [of r]) (auto simp: journal_append_def Let_def split: if_splits)
    next
      case opened: True
      with assms r True show thesis
        by (intro written [of fs1]) (simp_all add: journal_append_def Let_def add.commute split: if_splits)
    qed
  qed
qed

lemma append_sizes:
  assumes "journal_append text env (j, fs) = (ok, (j', fs'))" "length text + 1 \<le> jc_maxBytes (jn_config j)"
    and "file_length (jf_current fs) \<le> jc_maxBytes (jn_config j)" "file_length (jf_prior fs) \<le> jc_maxBytes (jn_config j)"
  shows "file_length (jf_current fs') \<le> jc_maxBytes (jn_config j) \<and> file_length (jf_prior fs') \<le> jc_maxBytes (jn_config j) \<and>
    jn_config j' = jn_config j"
  using assms(1)
proof (cases rule: append_cases)
  case untouched
  then show ?thesis using assms by simp
next
  case (rotated r)
  then show ?thesis using rotate_sizes [OF rotated(1)] assms by auto
next
  case (written fs1)
  define x where "x = take (nat (je_written env)) (text @ [CHR 0x0A])"
  have "length x \<le> length text + 1" unfolding x_def length_take by simp
  then have "file_length (jf_current fs') \<le> file_length (jf_current fs1) + (length text + 1)"
    unfolding written(2) file_length_def x_def [symmetric] by (simp split: option.split)
  moreover have "file_length (jf_current fs1) = 0 \<or> file_length (jf_current fs1) + (length text + 1) \<le> jc_maxBytes (jn_config j)"
    using rotate_sizes [OF written(1)] by (auto simp: file_length_def)
  ultimately show ?thesis using rotate_sizes [OF written(1)] assms written(2,4) by auto
qed

section \<open>Contents\<close>

lemma rotate_kept:
  "rotateIfNeeded limit n env fs = (ok, fs') \<Longrightarrow> \<exists>pre. pre @ kept fs' = kept fs"
  by (auto simp: rotateIfNeeded_def kept_def Let_def split: if_splits option.splits)

lemma rotate_missing:
  "rotateIfNeeded limit n env fs = (ok, fs') \<Longrightarrow> jf_current fs' = None \<or> jf_current fs' = jf_current fs"
  by (auto simp: rotateIfNeeded_def Let_def split: if_splits option.splits)

lemma kept_write: "kept (fs\<lparr>jf_current := Some ((case jf_current fs of None \<Rightarrow> [] | Some c \<Rightarrow> c) @ x)\<rparr>) = kept fs @ x"
  by (simp add: kept_def)

text \<open>What reaches the file.\<close>

definition on_disk :: "journal_env \<Rightarrow> string \<Rightarrow> bool \<Rightarrow> string" where
  "on_disk env text reached = (if reached then take (nat (je_written env)) (text @ [CHR 0x0A]) else [])"

lemma append_kept:
  assumes "journal_append text env (j, fs) = (ok, (j', fs'))"
  shows "\<exists>pre reached. pre @ kept fs' = kept fs @ on_disk env text reached \<and>
    (ok \<and> jc_enabled (jn_config j) \<longrightarrow> reached \<and> on_disk env text reached = text @ [CHR 0x0A])"
  using assms
proof (cases rule: append_cases)
  case untouched
  then show ?thesis by (intro exI [of _ "[]"] exI [of _ False]) (simp add: on_disk_def)
next
  case (rotated r)
  then show ?thesis using rotate_kept [OF rotated(1)] by (metis append_Nil2 on_disk_def)
next
  case (written fs1)
  obtain pre where "pre @ kept fs1 = kept fs" using rotate_kept [OF written(1)] by blast
  then have "pre @ kept fs' = kept fs @ on_disk env text True"
    unfolding written(2) kept_write on_disk_def by simp
  moreover have "ok \<Longrightarrow> on_disk env text True = text @ [CHR 0x0A]" using written(3) by (simp add: on_disk_def)
  ultimately show ?thesis by blast
qed

text \<open>A sequence of appends: each line with the results of its system calls.\<close>

fun journal_run :: "(string \<times> journal_env) list \<Rightarrow> journal \<times> journal_files \<Rightarrow> bool list \<times> journal \<times> journal_files" where
  "journal_run [] w = ([], w)"
| "journal_run ((text, env) # rest) w = (case journal_append text env w of (ok, w') \<Rightarrow>
     case journal_run rest w' of (oks, w'') \<Rightarrow> (ok # oks, w''))"

text \<open>Either the whole line is written or nothing.\<close>

definition whole_write :: "string \<times> journal_env \<Rightarrow> bool" where
  "whole_write = (\<lambda>(text, env). je_written env \<le> 0 \<or> je_written env = int (length text + 1))"

section \<open>Properties\<close>

text \<open>
  Property C32 (bounds). The journal is bounded: through any sequence of appends with any failures of
  the file system, neither the journal file nor its rotated predecessor grows past the configured
  limit, as long as a single line fits.
\<close>

theorem journal_bounded:
  assumes "journal_run attempts (j, fs) = (oks, (j', fs'))" "list_all (\<lambda>(text, env). length text + 1 \<le> jc_maxBytes (jn_config j)) attempts"
    and "file_length (jf_current fs) \<le> jc_maxBytes (jn_config j)" "file_length (jf_prior fs) \<le> jc_maxBytes (jn_config j)"
  shows "file_length (jf_current fs') \<le> jc_maxBytes (jn_config j) \<and> file_length (jf_prior fs') \<le> jc_maxBytes (jn_config j)"
  using assms
proof (induction attempts arbitrary: j fs oks)
  case (Cons a rest)
  obtain t env where a: "a = (t, env)" by fastforce
  obtain ok j1 fs1 where s: "journal_append t env (j, fs) = (ok, (j1, fs1))" by (metis prod_cases3)
  obtain oks' where r: "journal_run rest (j1, fs1) = (oks', (j', fs'))"
    using Cons.prems(1) by (auto simp: a s split: prod.splits)
  have b: "length t + 1 \<le> jc_maxBytes (jn_config j)" using Cons.prems(2) by (simp add: a)
  note z = append_sizes [OF s b Cons.prems(3,4)]
  show ?case using Cons.IH [OF r] Cons.prems(2) z by simp
qed simp

theorem journal_bounded_witness:
  "\<exists>oks w. journal_run [(''x'', \<lparr>je_mkdirOk = True, je_statError = False, je_removeOk = True, je_renameOk = True, je_openOk = True,
      je_written = 2, je_fsyncOk = True\<rparr>)] (new_journal \<lparr>jc_path = ''j'', jc_maxBytes = 65536, jc_enabled = True\<rparr>,
      \<lparr>jf_current = None, jf_prior = None\<rparr>) = (oks, w) \<and> file_length (jf_current (snd w)) \<le> 65536"
proof -
  define att where "att = [(''x'', \<lparr>je_mkdirOk = True, je_statError = False, je_removeOk = True, je_renameOk = True, je_openOk = True,
      je_written = 2, je_fsyncOk = True\<rparr>)]"
  define j where "j = new_journal \<lparr>jc_path = ''j'', jc_maxBytes = 65536, jc_enabled = True\<rparr>"
  obtain oks j' fs' where r: "journal_run att (j, \<lparr>jf_current = None, jf_prior = None\<rparr>) = (oks, (j', fs'))" by (metis prod_cases3)
  have "jc_maxBytes (jn_config j) = 65536" by (simp add: j_def new_journal_def)
  then have "file_length (jf_current fs') \<le> 65536"
    using journal_bounded [OF r] by (simp add: att_def file_length_def)
  then show ?thesis using r unfolding att_def j_def by auto
qed

text \<open>
  The journal keeps a suffix of its history: when each write is whole or does
  not happen, the rotated file followed by the journal is the tail of everything written so far, so
  no line is altered, reordered or lost except from the old end; the sequence number counts the
  appends that reported success.
\<close>

theorem journal_keeps_history:
  assumes "journal_run attempts (j, fs) = (oks, (j', fs'))" "list_all whole_write attempts" "jc_enabled (jn_config j)"
  shows "\<exists>pre lines. pre @ kept fs' = kept fs @ concat lines \<and> set lines \<subseteq> {t @ [CHR 0x0A] | t env. (t, env) \<in> set attempts} \<and>
    jn_sequence j' = jn_sequence j + of_nat (length (filter id oks)) \<and> length (filter id oks) \<le> length lines"
  using assms
proof (induction attempts arbitrary: j fs oks)
  case Nil
  then show ?case by (intro exI [of _ "[]"]) auto
next
  case (Cons a rest)
  obtain t env where a: "a = (t, env)" by fastforce
  obtain ok j1 fs1 where s: "journal_append t env (j, fs) = (ok, (j1, fs1))" by (metis prod_cases3)
  obtain oks' where r: "journal_run rest (j1, fs1) = (oks', (j', fs'))" "oks = ok # oks'"
    using Cons.prems(1) by (auto simp: a s split: prod.splits)
  obtain p reached where p: "p @ kept fs1 = kept fs @ on_disk env t reached" "ok \<longrightarrow> reached \<and> on_disk env t reached = t @ [CHR 0x0A]"
    using append_kept [OF s] Cons.prems(3) by blast
  have j1: "jn_config j1 = jn_config j" "jn_sequence j1 = jn_sequence j + (if ok then 1 else 0)"
    using s Cons.prems(3) by (auto simp: journal_append_def Let_def split: if_splits prod.splits)
  define ls where "ls = (if on_disk env t reached = [] then [] else [t @ [CHR 0x0A]])"
  have ls: "on_disk env t reached = concat ls" "ok \<Longrightarrow> length ls = 1"
    using Cons.prems(2) p(2) by (auto simp: ls_def a whole_write_def on_disk_def)
  obtain q lines where q: "q @ kept fs' = kept fs1 @ concat lines" "set lines \<subseteq> {t @ [CHR 0x0A] | t env. (t, env) \<in> set rest}"
      "jn_sequence j' = jn_sequence j1 + of_nat (length (filter id oks'))" "length (filter id oks') \<le> length lines"
    using Cons.IH [OF r(1)] Cons.prems(2,3) j1(1) by (auto simp: id_def)
  have "(p @ q) @ kept fs' = kept fs @ concat (ls @ lines)" using p(1) q(1) ls(1) by (metis append.assoc concat_append)
  moreover have "set (ls @ lines) \<subseteq> {t @ [CHR 0x0A] | t env. (t, env) \<in> set (a # rest)}"
    using q(2) by (auto simp: ls_def a)
  moreover have "jn_sequence j' = jn_sequence j + of_nat (length (filter id oks))" using q(3) j1(2) r(2) by simp
  moreover have "length (filter id oks) \<le> length (ls @ lines)" using q(4) ls(2) r(2) by auto
  ultimately show ?case by blast
qed

theorem journal_keeps_history_witness:
  "\<exists>pre lines oks j' fs'. journal_run [(''x'', \<lparr>je_mkdirOk = True, je_statError = False, je_removeOk = True, je_renameOk = True,
      je_openOk = True, je_written = 2, je_fsyncOk = True\<rparr>)] (new_journal \<lparr>jc_path = ''j'', jc_maxBytes = 65536, jc_enabled = True\<rparr>,
      \<lparr>jf_current = Some ''old'', jf_prior = None\<rparr>) = (oks, (j', fs')) \<and> pre @ kept fs' = ''old'' @ concat lines"
proof -
  define att where "att = [(''x'', \<lparr>je_mkdirOk = True, je_statError = False, je_removeOk = True, je_renameOk = True, je_openOk = True,
      je_written = 2, je_fsyncOk = True\<rparr>)]"
  define j where "j = new_journal \<lparr>jc_path = ''j'', jc_maxBytes = 65536, jc_enabled = True\<rparr>"
  obtain oks j' fs' where r: "journal_run att (j, \<lparr>jf_current = Some ''old'', jf_prior = None\<rparr>) = (oks, (j', fs'))" by (metis prod_cases3)
  have "list_all whole_write att" "jc_enabled (jn_config j)" by (simp_all add: att_def whole_write_def j_def new_journal_def)
  from journal_keeps_history [OF r this] r show ?thesis unfolding att_def j_def by (auto simp: kept_def)
qed

text \<open>
  A short write glues two records: when \<^verbatim>\<open>write\<close> stores only part of a line, the append fails without
  removing the fragment, and the next successful append continues on the same line of the file.
\<close>

theorem short_write_glues:
  assumes "jc_enabled (jn_config j)" "jf_current fs = None" "jf_prior fs = None"
    "je_mkdirOk env" "\<not> je_statError env" "je_openOk env" "je_fsyncOk env"
    "0 < k" "k \<le> length t1" "k + length t2 + 1 \<le> jc_maxBytes (jn_config j)"
  shows "\<exists>w. journal_append t1 (env\<lparr>je_written := int k\<rparr>) (j, fs) = (False, w) \<and>
    kept (snd (snd (journal_append t2 (env\<lparr>je_written := int (length t2 + 1)\<rparr>) w))) = take k t1 @ t2 @ [CHR 0x0A]"
  using assms by (simp add: journal_append_def rotateIfNeeded_def kept_def Let_def)

end
