(* ===== verification/MqttHealth.thy ===== *)
theory MqttHealth
  imports Journal
begin

text \<open>
  The outbound MQTT publisher (\<^verbatim>\<open>base-rockpie/src/MqttHealthPublisher.cpp\<close>, built with \<^verbatim>\<open>GRIDEX_WITH_MOSQUITTO\<close>),
  the system telemetry (\<^verbatim>\<open>SystemTelemetry.cpp\<close>) and the CPU temperature reader (\<^verbatim>\<open>CpuTemperature.hpp\<close>). The
  library \<^verbatim>\<open>libmosquitto\<close> is not part of the repository: the results of its calls are arguments, and a
  publication is the message handed to it. Files are their contents.
\<close>

section \<open>JSON strings\<close>

definition hex_digit :: "nat \<Rightarrow> char" where
  "hex_digit n = ''0123456789abcdef'' ! n"

definition json_char :: "char \<Rightarrow> string" where
  "json_char c =
     (if c = CHR 0x22 then [CHR 0x5C, CHR 0x22]
      else if c = CHR 0x5C then [CHR 0x5C, CHR 0x5C]
      else if c = CHR 0x0A then [CHR 0x5C, CHR ''n'']
      else if c = CHR 0x0D then [CHR 0x5C, CHR ''r'']
      else if c = CHR 0x09 then [CHR 0x5C, CHR ''t'']
      else if of_char c < (0x20 :: nat) then [CHR 0x5C, CHR ''u'', CHR ''0'', CHR ''0'', hex_digit (of_char c div 16), hex_digit (of_char c mod 16)]
      else [c])"

definition jsonString :: "string \<Rightarrow> string" where
  "jsonString v = [CHR 0x22] @ concat (map json_char v) @ [CHR 0x22]"

text \<open>A reader of JSON strings (RFC 8259), with the escapes for single bytes.\<close>

definition hex_value :: "char \<Rightarrow> nat option" where
  "hex_value c = (let n = of_char c in
     if 48 \<le> n \<and> n \<le> 57 then Some (n - 48) else if 97 \<le> n \<and> n \<le> 102 then Some (n - 87)
     else if 65 \<le> n \<and> n \<le> 70 then Some (n - 55) else None)"

definition simple_escape :: "char \<Rightarrow> char option" where
  "simple_escape c = (if c = CHR 0x22 \<or> c = CHR 0x5C \<or> c = CHR ''/'' then Some c
     else if c = CHR ''b'' then Some (CHR 0x08) else if c = CHR ''f'' then Some (CHR 0x0C)
     else if c = CHR ''n'' then Some (CHR 0x0A) else if c = CHR ''r'' then Some (CHR 0x0D)
     else if c = CHR ''t'' then Some (CHR 0x09) else None)"

fun json_body :: "nat \<Rightarrow> string \<Rightarrow> (string \<times> string) option" where
  "json_body 0 s = None"
| "json_body (Suc fuel) s = (case s of [] \<Rightarrow> None
     | c # cs \<Rightarrow>
         if c = CHR 0x22 then Some ([], cs)
         else if c = CHR 0x5C then (case cs of [] \<Rightarrow> None
           | e # es \<Rightarrow>
               if e = CHR ''u'' then (case es of h1 # h2 # h3 # h4 # rest \<Rightarrow>
                   (case (hex_value h1, hex_value h2, hex_value h3, hex_value h4) of
                      (Some a, Some b, Some x, Some y) \<Rightarrow>
                        let n = ((a * 16 + b) * 16 + x) * 16 + y
                        in if n < 128 then map_option (map_prod ((#) (char_of n)) id) (json_body fuel rest) else None
                    | _ \<Rightarrow> None)
                 | _ \<Rightarrow> None)
               else (case simple_escape e of None \<Rightarrow> None
                 | Some x \<Rightarrow> map_option (map_prod ((#) x) id) (json_body fuel es)))
         else if of_char c < (0x20 :: nat) then None
         else map_option (map_prod ((#) c) id) (json_body fuel cs))"

definition json_read :: "string \<Rightarrow> (string \<times> string) option" where
  "json_read s = (case s of [] \<Rightarrow> None | c # cs \<Rightarrow> if c = CHR 0x22 then json_body (length cs) cs else None)"

section \<open>The publisher\<close>

record broker_endpoint =
  be_host :: string
  be_port :: int

definition topicPart :: "string \<Rightarrow> string" where
  "topicPart v = (if v = [] \<or> (\<exists>c \<in> set v. c \<in> set ''/+#'') then [] else v)"

text \<open>\<^verbatim>\<open>rfind(':')\<close>: the parts before and behind the last colon.\<close>

definition split_last_colon :: "string \<Rightarrow> (string \<times> string) option" where
  "split_last_colon s = (if CHR '':'' \<notin> set s then None
     else let r = rev s; behind = takeWhile (\<lambda>c. c \<noteq> CHR '':'') r
          in Some (rev (drop (length behind + 1) r), rev behind))"

definition parseBrokerUrl :: "string \<Rightarrow> broker_endpoint option" where
  "parseBrokerUrl url =
     (let prefix = ''mqtts://'' in
      if take (length prefix) url \<noteq> prefix then None
      else case split_last_colon (drop (length prefix) url) of None \<Rightarrow> None
        | Some (host, portText) \<Rightarrow>
            if host = [] \<or> portText = [] then None
            else case stoi portText of None \<Rightarrow> None
              | Some port \<Rightarrow> if port < 1 \<or> 65535 < port then None else Some \<lparr>be_host = host, be_port = port\<rparr>)"

definition readSecretFile :: "(string \<Rightarrow> string option) \<Rightarrow> string \<Rightarrow> string" where
  "readSecretFile files path = (if path = [] then []
     else case files path of None \<Rightarrow> [] | Some content \<Rightarrow> takeWhile (\<lambda>c. c \<noteq> CHR 0x0A) content)"

record mqtt_config =
  mq_brokerUrl :: string
  mq_topicPrefix :: string
  mq_clientId :: string
  mq_username :: string
  mq_passwordFile :: string
  mq_caFile :: string
  mq_clientCertificateFile :: string
  mq_clientKeyFile :: string

record mosquitto_results =
  mr_libInit :: bool
  mr_new :: bool
  mr_tlsSet :: bool
  mr_usernameSet :: bool
  mr_insecureOff :: bool
  mr_connectAsync :: bool
  mr_loopStart :: bool

record publisher =
  pb_config :: mqtt_config
  pb_client :: "broker_endpoint option"
  pb_connected :: bool
  pb_libraryInitialized :: bool
  pb_loopStarted :: bool

definition mqtt_configured :: "mqtt_config \<Rightarrow> bool" where
  "mqtt_configured c \<longleftrightarrow> mq_brokerUrl c \<noteq> [] \<and> mq_topicPrefix c \<noteq> [] \<and> mq_clientId c \<noteq> []"

text \<open>The calls made to the library, in their order and with their success; what a call is told is its
  argument, \<open>None\<close> where the code passes a null pointer.\<close>

definition text_or_null :: "string \<Rightarrow> string option" where
  "text_or_null s = (if s = [] then None else Some s)"

datatype mosquitto_call =
    LibInit
  | New string
  | TlsSet string "(string \<times> string) option"
  | UsernamePwSet "string option" "string option"
  | TlsInsecureSet bool
  | ConnectCallbackSet
  | DisconnectCallbackSet
  | ConnectAsync string int
  | LoopStart
  | Disconnect
  | LoopStop
  | Destroy
  | LibCleanup

definition construct_publisher :: "(string \<Rightarrow> string option) \<Rightarrow> mosquitto_results \<Rightarrow> mqtt_config \<Rightarrow> (mosquitto_call \<times> bool) list \<times> publisher" where
  "construct_publisher files mr c =
     (let p0 = \<lparr>pb_config = c, pb_client = None, pb_connected = False, pb_libraryInitialized = False, pb_loopStarted = False\<rparr>
      in case parseBrokerUrl (mq_brokerUrl c) of None \<Rightarrow> ([], p0)
      | Some endpoint \<Rightarrow>
          if \<not> mqtt_configured c \<or> mq_caFile c = [] then ([], p0)
          else if (mq_clientCertificateFile c = []) \<noteq> (mq_clientKeyFile c = []) then ([], p0)
          else if \<not> mr_libInit mr then ([(LibInit, False)], p0)
          else let p1 = p0\<lparr>pb_libraryInitialized := True\<rparr>; opened = [(LibInit, True), (New (mq_clientId c), mr_new mr)]
               in if \<not> mr_new mr then (opened, p1)
                  else let password = readSecretFile files (mq_passwordFile c);
                           anonymous = (mq_username c = [] \<and> password = []);
                           pair = (if mq_clientCertificateFile c \<noteq> [] \<or> mq_clientKeyFile c \<noteq> []
                             then Some (mq_clientCertificateFile c, mq_clientKeyFile c) else None);
                           calls = opened @ [(TlsSet (mq_caFile c) pair, mr_tlsSet mr)] @
                             (if anonymous then [] else [(UsernamePwSet (text_or_null (mq_username c)) (text_or_null password), mr_usernameSet mr)]) @
                             [(TlsInsecureSet False, mr_insecureOff mr), (ConnectCallbackSet, True), (DisconnectCallbackSet, True)];
                           connecting = calls @ [(ConnectAsync (be_host endpoint) (be_port endpoint), mr_connectAsync mr)]
                       in if \<not> mr_tlsSet mr \<or> \<not> (anonymous \<or> mr_usernameSet mr) \<or> \<not> mr_insecureOff mr then (calls @ [(Destroy, True)], p1)
                          else if \<not> mr_connectAsync mr then (connecting @ [(Destroy, True)], p1)
                          else if \<not> mr_loopStart mr then (connecting @ [(LoopStart, False), (Destroy, True)], p1)
                          else (connecting @ [(LoopStart, True)], p1\<lparr>pb_client := Some endpoint, pb_loopStarted := True\<rparr>))"

definition new_publisher :: "(string \<Rightarrow> string option) \<Rightarrow> mosquitto_results \<Rightarrow> mqtt_config \<Rightarrow> publisher" where
  "new_publisher files mr c = snd (construct_publisher files mr c)"

definition destroy_publisher :: "publisher \<Rightarrow> (mosquitto_call \<times> bool) list" where
  "destroy_publisher p =
     (if pb_client p \<noteq> None then (if pb_loopStarted p then [(Disconnect, True), (LoopStop, True)] else []) @ [(Destroy, True)] else []) @
     (if pb_libraryInitialized p then [(LibCleanup, True)] else [])"

definition mqtt_connected :: "publisher \<Rightarrow> bool" where
  "mqtt_connected p \<longleftrightarrow> pb_client p \<noteq> None \<and> pb_connected p"

definition onConnect :: "int \<Rightarrow> publisher \<Rightarrow> publisher" where
  "onConnect result p = p\<lparr>pb_connected := (result = 0)\<rparr>"

definition onDisconnect :: "int \<Rightarrow> publisher \<Rightarrow> publisher" where
  "onDisconnect result p = p\<lparr>pb_connected := False\<rparr>"

section \<open>Payloads\<close>

record health_message =
  hm_siteId :: string
  hm_gatewayId :: string
  hm_state :: string
  hm_pcsHeartbeatOk :: bool
  hm_controlReady :: bool
  hm_safeMode :: bool
  hm_northboundReady :: bool
  hm_nodeOnlineCount :: nat
  hm_nodeTotal :: nat
  hm_cpuTemperatureC :: "dbl option"

record telemetry_sample =
  ts_sensorId :: string
  ts_unit :: string
  ts_value :: dbl

definition cpu_text :: "dbl option \<Rightarrow> string" where
  "cpu_text t = (case t of None \<Rightarrow> ''null''
     | Some v \<Rightarrow> if isfinite v \<and> dle (Fin (- 40)) v \<and> dle v (Fin 150) then fmt_double v else ''null'')"

definition healthPayload :: "int \<Rightarrow> health_message \<Rightarrow> string" where
  "healthPayload now h =
     ''{'' @ quoted ''schemaVersion'' @ '':1'' @ member ''observedAt'' @ jsonString (utc_text now) @
     member ''gatewayId'' @ jsonString (hm_gatewayId h) @ member ''state'' @ jsonString (hm_state h) @
     member ''pcsHeartbeatOk'' @ jsonBool (hm_pcsHeartbeatOk h) @ member ''controlReady'' @ jsonBool (hm_controlReady h) @
     member ''safeMode'' @ jsonBool (hm_safeMode h) @ member ''northboundReady'' @ jsonBool (hm_northboundReady h) @
     member ''nodeOnlineCount'' @ show_nat (hm_nodeOnlineCount h) @ member ''nodeTotal'' @ show_nat (hm_nodeTotal h) @
     member ''cpuTemperatureC'' @ cpu_text (hm_cpuTemperatureC h) @ ''}''"

fun pollStatusCode :: "node_poll_status \<Rightarrow> nat" where
  "pollStatusCode PollUnknown = 0"
| "pollStatusCode PollOnline = 1"
| "pollStatusCode TransportFailure = 2"
| "pollStatusCode IdentityFailure = 3"
| "pollStatusCode TelemetryFailure = 4"

definition nodeTelemetryPayload :: "int \<Rightarrow> nat \<Rightarrow> node_telemetry \<Rightarrow> string" where
  "nodeTelemetryPayload now slot s =
     ''{'' @ quoted ''schemaVersion'' @ '':1'' @ member ''observedAt'' @ jsonString (utc_text now) @
     member ''slot'' @ show_nat slot @ member ''nodeAddress'' @ show_nat (unat (nt_address s)) @
     member ''nodeType'' @ show_nat (unat (nt_nodeType s)) @ member ''nodeState'' @ show_nat (unat (nt_nodeState s)) @
     member ''driverId'' @ show_nat (unat (nt_driverId s)) @ member ''online'' @ jsonBool (nt_online s) @
     member ''lastSuccessfulContactAt'' @
       (if nt_lastSuccessfulContact s = 0 then ''null'' else jsonString (utc_text (whole_seconds (nt_lastSuccessfulContact s)))) @
     member ''quality'' @ show_nat (unat (nt_quality s)) @ member ''actualPowerKw'' @ fmt_double (nt_actualPowerKw s) @
     member ''energyWh'' @ show_nat (unat (nt_energyWh s)) @ member ''deviceState'' @ show_nat (unat (nt_deviceState s)) @
     member ''alarmBits'' @ show_nat (unat (nt_alarmBits s)) @ member ''heartbeat'' @ show_nat (unat (nt_heartbeat s)) @
     member ''pollStatus'' @ show_nat (pollStatusCode (nt_pollStatus s)) @
     member ''consecutiveFailures'' @ show_nat (unat (nt_consecutiveFailures s)) @
     member ''ethernetStatus'' @ show_nat (unat (nt_ethernetStatus s)) @
     member ''modbusTcpStatus'' @ show_nat (unat (nt_modbusTcpStatus s)) @ member ''driverReady'' @ show_nat (unat (nt_driverReady s)) @
     member ''deviceBusStatus'' @ show_nat (unat (nt_deviceBusStatus s)) @
     member ''watchdogStatus'' @ show_nat (unat (nt_watchdogStatus s)) @ member ''recoveryCount'' @ show_nat (unat (nt_recoveryCount s)) @
     member ''lastError'' @ show_nat (unat (nt_lastError s)) @ ''}''"

definition sample_json :: "telemetry_sample \<Rightarrow> string" where
  "sample_json s = ''{'' @ quoted ''sensorId'' @ '':'' @ jsonString (ts_sensorId s) @ member ''value'' @ fmt_double (ts_value s) @
     member ''unit'' @ jsonString (ts_unit s) @ ''}''"

fun samples_json :: "telemetry_sample list \<Rightarrow> string" where
  "samples_json [] = []"
| "samples_json [s] = sample_json s"
| "samples_json (s # ss) = sample_json s @ '','' @ samples_json ss"

definition systemTelemetryPayload :: "int \<Rightarrow> string \<Rightarrow> string \<Rightarrow> u64 \<Rightarrow> telemetry_sample list \<Rightarrow> string" where
  "systemTelemetryPayload now gatewayId bootId sequence samples =
     ''{'' @ quoted ''schemaVersion'' @ '':1'' @ member ''observedAt'' @ jsonString (utc_text now) @
     member ''gatewayId'' @ jsonString gatewayId @ member ''bootId'' @ jsonString bootId @
     member ''sequence'' @ show_nat (unat sequence) @ member ''samples'' @ ''['' @ samples_json samples @ '']}''"

section \<open>Publications\<close>

record mqtt_message =
  mm_topic :: string
  mm_payload :: string
  mm_qos :: nat
  mm_retain :: bool

text \<open>The message handed to the library, if any; the result is then the library's.\<close>

definition publishHealth :: "int \<Rightarrow> health_message \<Rightarrow> publisher \<Rightarrow> mqtt_message option" where
  "publishHealth now h p =
     (let siteId = topicPart (hm_siteId h); gatewayId = topicPart (hm_gatewayId h)
      in if \<not> mqtt_connected p \<or> siteId = [] \<or> gatewayId = [] then None
         else Some \<lparr>mm_topic = mq_topicPrefix (pb_config p) @ ''/sites/'' @ siteId @ ''/edge/'' @ gatewayId @ ''/health'',
           mm_payload = healthPayload now h, mm_qos = 1, mm_retain = True\<rparr>)"

definition publishNodeTelemetry :: "int \<Rightarrow> string \<Rightarrow> string \<Rightarrow> nat \<Rightarrow> node_telemetry \<Rightarrow> publisher \<Rightarrow> mqtt_message option" where
  "publishNodeTelemetry now siteId gatewayId slot sample p =
     (let site = topicPart siteId; gateway = topicPart gatewayId
      in if \<not> mqtt_connected p \<or> site = [] \<or> gateway = [] \<or> slot = 0 then None
         else Some \<lparr>mm_topic = mq_topicPrefix (pb_config p) @ ''/sites/'' @ site @ ''/edge/'' @ gateway @ ''/nodes/'' @ show_nat slot @ ''/telemetry'',
           mm_payload = nodeTelemetryPayload now slot sample, mm_qos = 1, mm_retain = False\<rparr>)"

definition publishSystemTelemetry :: "int \<Rightarrow> string \<Rightarrow> string \<Rightarrow> string \<Rightarrow> u64 \<Rightarrow> telemetry_sample list \<Rightarrow> publisher \<Rightarrow> mqtt_message option" where
  "publishSystemTelemetry now siteId gatewayId bootId sequence samples p =
     (let site = topicPart siteId; gateway = topicPart gatewayId
      in if \<not> mqtt_connected p \<or> site = [] \<or> gateway = [] \<or> samples = [] then None
         else Some \<lparr>mm_topic = mq_topicPrefix (pb_config p) @ ''/sites/'' @ site @ ''/edge/'' @ gateway @ ''/system/telemetry'',
           mm_payload = systemTelemetryPayload now gatewayId bootId sequence samples, mm_qos = 1, mm_retain = False\<rparr>)"

section \<open>System telemetry\<close>

text \<open>\<^verbatim>\<open>input >> milli\<close> reads the longest number; a value outside \<^verbatim>\<open>long\<close> fails. Nothing but white space may follow.\<close>

definition parseCpuTemperature :: "string \<Rightarrow> dbl option" where
  "parseCpuTemperature input =
     (let s0 = dropWhile std_space input; signed = (s0 \<noteq> [] \<and> (hd s0 = CHR ''-'' \<or> hd s0 = CHR ''+''));
          s1 = (if signed then tl s0 else s0); ds = takeWhile std_digit s1;
          milli = (if signed \<and> hd s0 = CHR ''-'' then - int (digits_value ds) else int (digits_value ds));
          extra = dropWhile std_space (dropWhile std_digit s1)
      in if ds = [] \<or> milli < - 40000 \<or> 150000 < milli then None
         else if extra \<noteq> [] then None
         else Some (ddiv (Fin (of_int milli)) (Fin 1000)))"

text \<open>\<^verbatim>\<open>readCpuTemperature\<close>: a file that cannot be opened gives no number.\<close>

definition readCpuTemperature :: "string option \<Rightarrow> dbl option" where
  "readCpuTemperature file = (case file of None \<Rightarrow> None | Some content \<Rightarrow> parseCpuTemperature content)"

definition add_sample :: "telemetry_sample list \<Rightarrow> string \<Rightarrow> string \<Rightarrow> dbl \<Rightarrow> telemetry_sample list" where
  "add_sample out sid unit v = (if isfinite v \<and> dle (Fin 0) v then out @ [\<lparr>ts_sensorId = sid, ts_unit = unit, ts_value = v\<rparr>] else out)"

text \<open>What the kernel's files and the file system report: the two leading numbers of \<^verbatim>\<open>/proc/uptime\<close> and
  \<^verbatim>\<open>/proc/loadavg\<close>, the entries of \<^verbatim>\<open>/proc/meminfo\<close>, free space and journal size.\<close>

record system_files =
  sf_cpuTemperature :: "string option"
  sf_uptime :: "dbl option"
  sf_load1 :: "dbl option"
  sf_meminfo :: "(string \<times> u64 \<times> string) list"
  sf_spaceAvailable :: "nat option"
  sf_journalSize :: "nat option"

fun memAvailable :: "(string \<times> u64 \<times> string) list \<Rightarrow> u64 option" where
  "memAvailable [] = None"
| "memAvailable ((key, v, unit) # rest) = (if key = ''MemAvailable:'' then Some v else memAvailable rest)"

definition add_optional :: "string \<Rightarrow> string \<Rightarrow> dbl option \<Rightarrow> telemetry_sample list \<Rightarrow> telemetry_sample list" where
  "add_optional sid unit v out = (case v of None \<Rightarrow> out | Some x \<Rightarrow> add_sample out sid unit x)"

definition readSystemTelemetry :: "system_files \<Rightarrow> bool \<Rightarrow> telemetry_sample list" where
  "readSystemTelemetry fs includeCpuTemperature =
     (let out0 = (if includeCpuTemperature then (case readCpuTemperature (sf_cpuTemperature fs) of None \<Rightarrow> []
            | Some t \<Rightarrow> [\<lparr>ts_sensorId = ''cpuTemperatureC'', ts_unit = ''Cel'', ts_value = t\<rparr>]) else [])
      in (add_optional ''journalSizeBytes'' ''bytes'' (map_option (\<lambda>n. rnd (of_nat n)) (sf_journalSize fs)) \<circ>
          add_optional ''storageDataFreeBytes'' ''bytes'' (map_option (\<lambda>n. rnd (of_nat n)) (sf_spaceAvailable fs)) \<circ>
          add_optional ''memoryAvailableBytes'' ''bytes'' (map_option (\<lambda>v. dmul (rnd (of_nat (unat v))) (Fin 1024)) (memAvailable (sf_meminfo fs))) \<circ>
          add_optional ''load1'' ''load'' (sf_load1 fs) \<circ> add_optional ''uptimeSeconds'' ''s'' (sf_uptime fs)) out0)"

section \<open>Reading what was written\<close>

lemma hex_value_digit: "n < 16 \<Longrightarrow> hex_value (hex_digit n) = Some n"
proof -
  assume "n < 16"
  then have "n \<in> set [0..<16]" by simp
  moreover have "list_all (\<lambda>n. hex_value (hex_digit n) = Some n) [0..<16]" by code_simp
  ultimately show ?thesis by (simp add: list_all_iff)
qed

lemma json_body_plain:
  "c \<noteq> CHR 0x22 \<Longrightarrow> c \<noteq> CHR 0x5C \<Longrightarrow> \<not> of_char c < (0x20 :: nat) \<Longrightarrow>
     json_body (Suc n) (c # cs) = map_option (map_prod ((#) c) id) (json_body n cs)"
  by simp

lemma json_body_escape:
  "e \<noteq> CHR ''u'' \<Longrightarrow> simple_escape e = Some x \<Longrightarrow>
     json_body (Suc n) (CHR 0x5C # e # cs) = map_option (map_prod ((#) x) id) (json_body n cs)"
  by simp

lemma json_body_control:
  assumes "of_char c < (0x20 :: nat)"
  shows "json_body (Suc n) (CHR 0x5C # CHR ''u'' # CHR ''0'' # CHR ''0'' # hex_digit (of_char c div 16) # hex_digit (of_char c mod 16) # cs) =
    map_option (map_prod ((#) c) id) (json_body n cs)"
proof -
  have h: "hex_value (CHR ''0'') = Some 0" by code_simp
  have d: "hex_value (hex_digit (of_char c div 16)) = Some (of_char c div 16)" "hex_value (hex_digit (of_char c mod 16)) = Some (of_char c mod 16)"
    using assms by (simp_all add: hex_value_digit)
  have e: "of_char c div 16 * 16 + of_char c mod 16 = (of_char c :: nat)" by simp
  show ?thesis using assms by (simp add: h d e Let_def)
qed

lemma json_body_char:
  "json_body (Suc n) (json_char c @ cs) = map_option (map_prod ((#) c) id) (json_body n cs)"
proof -
  have esc: "simple_escape (CHR 0x22) = Some (CHR 0x22)" "simple_escape (CHR 0x5C) = Some (CHR 0x5C)"
    "simple_escape (CHR ''n'') = Some (CHR 0x0A)" "simple_escape (CHR ''r'') = Some (CHR 0x0D)" "simple_escape (CHR ''t'') = Some (CHR 0x09)"
    by (simp_all add: simple_escape_def)
  show ?thesis
    using json_body_plain [of c n cs] json_body_control [of c n cs]
      json_body_escape [OF _ esc(1), of n cs] json_body_escape [OF _ esc(2), of n cs] json_body_escape [OF _ esc(3), of n cs]
      json_body_escape [OF _ esc(4), of n cs] json_body_escape [OF _ esc(5), of n cs]
    unfolding json_char_def by (simp del: json_body.simps)
qed

lemma json_body_string:
  "length v < n \<Longrightarrow> json_body n (concat (map json_char v) @ CHR 0x22 # rest) = Some (v, rest)"
proof (induction v arbitrary: n)
  case Nil
  then obtain m where "n = Suc m" by (cases n) auto
  then show ?case by simp
next
  case (Cons c v)
  then obtain m where m: "n = Suc m" "length v < m" by (cases n) auto
  have "json_body n (json_char c @ (concat (map json_char v) @ CHR 0x22 # rest)) =
      map_option (map_prod ((#) c) id) (json_body m (concat (map json_char v) @ CHR 0x22 # rest))"
    unfolding m(1) by (rule json_body_char)
  then show ?case using Cons.IH [OF m(2)] by (simp del: json_body.simps)
qed

lemma json_char_length: "length v \<le> length (concat (map json_char v))"
proof (induction v)
  case (Cons c v)
  have "1 \<le> length (json_char c)" by (simp add: json_char_def)
  with Cons show ?case by simp
qed simp

section \<open>Properties\<close>

text \<open>
  Property C34 (roundtrip). Every string survives the JSON encoding: a JSON reader that starts at the
  encoded string reads back exactly the original, byte by byte, and stops exactly behind it, so no
  identifier, however chosen, can break out of its field.
\<close>

theorem json_string_roundtrip:
  "json_read (jsonString v @ rest) = Some (v, rest)"
proof -
  have "length v < length (concat (map json_char v) @ CHR 0x22 # rest)" using json_char_length [of v] by simp
  from json_body_string [OF this, of rest] show ?thesis by (simp add: json_read_def jsonString_def del: json_body.simps)
qed

text \<open>
  A publication goes only to the topics of one gateway, and only while connected:
  whatever the identifiers are, the site and the gateway each fill exactly one level of the topic,
  without wildcards, and nothing is published for identifiers that could not.
\<close>

definition topic_level :: "string \<Rightarrow> bool" where
  "topic_level v \<longleftrightarrow> v \<noteq> [] \<and> list_all (\<lambda>c. c \<notin> set ''/+#'') v"

lemma topicPart_level: "topicPart v = (if topic_level v then v else [])"
  by (auto simp: topicPart_def topic_level_def list_all_iff)

theorem publish_topics:
  "publishHealth now h p = Some m \<or> publishNodeTelemetry now (hm_siteId h) (hm_gatewayId h) slot sample p = Some m \<or>
     publishSystemTelemetry now (hm_siteId h) (hm_gatewayId h) bootId sequence samples p = Some m \<Longrightarrow>
   mqtt_connected p \<and> topic_level (hm_siteId h) \<and> topic_level (hm_gatewayId h) \<and> mm_qos m = 1 \<and>
   (\<exists>suffix \<in> {''/health'', ''/nodes/'' @ show_nat slot @ ''/telemetry'', ''/system/telemetry''}.
      mm_topic m = mq_topicPrefix (pb_config p) @ ''/sites/'' @ hm_siteId h @ ''/edge/'' @ hm_gatewayId h @ suffix)"
  by (auto simp: publishHealth_def publishNodeTelemetry_def publishSystemTelemetry_def topicPart_level Let_def topic_level_def
      split: if_splits)

definition bench_publisher :: publisher where
  "bench_publisher = \<lparr>pb_config = \<lparr>mq_brokerUrl = ''mqtts://broker:8883'', mq_topicPrefix = ''gridex/v1'', mq_clientId = ''edge'',
     mq_username = [], mq_passwordFile = [], mq_caFile = ''ca.pem'', mq_clientCertificateFile = [], mq_clientKeyFile = []\<rparr>,
     pb_client = Some \<lparr>be_host = ''broker'', be_port = 8883\<rparr>, pb_connected = True, pb_libraryInitialized = True, pb_loopStarted = True\<rparr>"

definition bench_results :: mosquitto_results where
  "bench_results = \<lparr>mr_libInit = True, mr_new = True, mr_tlsSet = True, mr_usernameSet = True, mr_insecureOff = True,
    mr_connectAsync = True, mr_loopStart = True\<rparr>"

definition bench_health :: health_message where
  "bench_health = \<lparr>hm_siteId = ''site'', hm_gatewayId = ''gw'', hm_state = ''ready'', hm_pcsHeartbeatOk = True, hm_controlReady = True,
     hm_safeMode = False, hm_northboundReady = True, hm_nodeOnlineCount = 1, hm_nodeTotal = 2, hm_cpuTemperatureC = None\<rparr>"

theorem publish_topics_witness:
  "\<exists>m. publishHealth 0 bench_health bench_publisher = Some m \<and> mm_qos m = 1 \<and> topic_level (hm_siteId bench_health)"
proof -
  obtain m where m: "publishHealth 0 bench_health bench_publisher = Some m"
    by (simp add: publishHealth_def bench_health_def bench_publisher_def topicPart_def mqtt_connected_def Let_def)
  from publish_topics [OF disjI1 [OF m]] m show ?thesis by blast
qed

text \<open>
  What the library allows: initialise before use, set up a client before connecting it, run its thread
  only once connecting, destroy it only when the thread has ended, clean up last. Connecting also needs
  the security the gateway asks for: TLS and the verification of the broker. \<open>None\<close> is a violation.
\<close>

record mqtt_library =
  li_init :: bool
  li_client :: bool
  li_tls :: bool
  li_verified :: bool
  li_connecting :: bool
  li_loop :: bool

definition no_library :: mqtt_library where
  "no_library = \<lparr>li_init = False, li_client = False, li_tls = False, li_verified = False, li_connecting = False, li_loop = False\<rparr>"

fun library_step :: "mosquitto_call \<Rightarrow> bool \<Rightarrow> mqtt_library \<Rightarrow> mqtt_library option" where
  "library_step LibInit ok l = (if li_init l then None else Some (l\<lparr>li_init := ok\<rparr>))"
| "library_step (New client_id) ok l = (if li_init l \<and> \<not> li_client l then Some (l\<lparr>li_client := ok\<rparr>) else None)"
| "library_step (TlsSet ca pair) ok l = (if li_client l \<and> \<not> li_connecting l then Some (l\<lparr>li_tls := ok \<and> ca \<noteq> []\<rparr>) else None)"
| "library_step (UsernamePwSet user password) ok l = (if li_client l \<and> \<not> li_connecting l then Some l else None)"
| "library_step (TlsInsecureSet insecure) ok l = (if li_client l \<and> \<not> li_connecting l then Some (l\<lparr>li_verified := ok \<and> \<not> insecure\<rparr>) else None)"
| "library_step ConnectCallbackSet ok l = (if li_client l then Some l else None)"
| "library_step DisconnectCallbackSet ok l = (if li_client l then Some l else None)"
| "library_step (ConnectAsync host port) ok l =
     (if li_client l \<and> li_tls l \<and> li_verified l \<and> \<not> li_connecting l then Some (l\<lparr>li_connecting := ok\<rparr>) else None)"
| "library_step LoopStart ok l = (if li_connecting l \<and> \<not> li_loop l then Some (l\<lparr>li_loop := ok\<rparr>) else None)"
| "library_step Disconnect ok l = (if li_connecting l then Some (l\<lparr>li_connecting := False\<rparr>) else None)"
| "library_step LoopStop ok l = (if li_loop l \<and> \<not> li_connecting l then Some (l\<lparr>li_loop := False\<rparr>) else None)"
| "library_step Destroy ok l = (if li_client l \<and> \<not> li_loop l
     then Some (l\<lparr>li_client := False, li_tls := False, li_verified := False, li_connecting := False\<rparr>) else None)"
| "library_step LibCleanup ok l = (if li_init l \<and> \<not> li_client l then Some (l\<lparr>li_init := False\<rparr>) else None)"

fun library_run :: "(mosquitto_call \<times> bool) list \<Rightarrow> mqtt_library \<Rightarrow> mqtt_library option" where
  "library_run [] l = Some l"
| "library_run ((call, ok) # calls) l = Option.bind (library_step call ok l) (library_run calls)"

lemma parseBrokerUrl_bounds:
  "parseBrokerUrl url = Some ep \<Longrightarrow> take 8 url = ''mqtts://'' \<and> 1 \<le> be_port ep \<and> be_port ep \<le> 65535 \<and> be_host ep \<noteq> []"
  by (auto simp: parseBrokerUrl_def Let_def not_less eval_nat_numeral split: if_splits option.splits)

text \<open>
  Property C33 (safety). The publisher uses its library properly, whatever its calls return: construction
  and destruction never violate the protocol above, in particular no connection is started before TLS is
  set up with a CA file and the verification of the broker cannot be off, and they leave nothing behind.
  A connection is only kept for an \<^verbatim>\<open>mqtts\<close> URL with a port between 1 and 65535 and both or neither of
  client certificate and key.
\<close>

theorem mqtt_only_tls:
  shows "\<exists>l. library_run (fst (construct_publisher files mr c)) no_library = Some l \<and>
    library_run (destroy_publisher ((new_publisher files mr c)\<lparr>pb_connected := b\<rparr>)) l = Some no_library \<and>
    (li_connecting l \<longrightarrow> take 8 (mq_brokerUrl c) = ''mqtts://'' \<and> mq_caFile c \<noteq> [] \<and> mq_clientId c \<noteq> [] \<and>
      (mq_clientCertificateFile c = [] \<longleftrightarrow> mq_clientKeyFile c = []) \<and>
      (\<exists>ep. pb_client (new_publisher files mr c) = Some ep \<and> 1 \<le> be_port ep \<and> be_port ep \<le> 65535 \<and> be_host ep \<noteq> []))"
proof (cases "parseBrokerUrl (mq_brokerUrl c)")
  case None
  then show ?thesis by (simp add: construct_publisher_def new_publisher_def destroy_publisher_def no_library_def)
next
  case (Some ep)
  note bounds = parseBrokerUrl_bounds [OF Some]
  show ?thesis
    using bounds by (simp add: Some construct_publisher_def new_publisher_def destroy_publisher_def no_library_def mqtt_configured_def Let_def) blast
qed

theorem mqtt_only_tls_witness:
  "\<exists>l. library_run (fst (construct_publisher (\<lambda>p. None) bench_results (pb_config bench_publisher))) no_library = Some l \<and>
    li_connecting l \<and> mq_caFile (pb_config bench_publisher) \<noteq> []"
proof -
  have "parseBrokerUrl ''mqtts://broker:8883'' = Some \<lparr>be_host = ''broker'', be_port = 8883\<rparr>" by code_simp
  then have "library_run (fst (construct_publisher (\<lambda>p. None) bench_results (pb_config bench_publisher))) no_library =
      Some \<lparr>li_init = True, li_client = True, li_tls = True, li_verified = True, li_connecting = True, li_loop = True\<rparr>"
    by (simp add: construct_publisher_def bench_publisher_def bench_results_def mqtt_configured_def readSecretFile_def no_library_def Let_def)
  then show ?thesis using mqtt_only_tls [of "\<lambda>p. None" bench_results "pb_config bench_publisher" True] by auto
qed

text \<open>
  The CPU temperature is read strictly: a value is reported only for a text that is
  one number of milli-degrees between -40000 and 150000 and nothing else, and then it is that number
  divided by 1000; the health message carries a value only within -40 to 150 degrees.
\<close>

theorem cpu_temperature_strict:
  assumes "parseCpuTemperature input = Some t"
  shows "\<exists>n v. t = rnd (of_int n / 1000) \<and> t = Fin v \<and> - 40000 \<le> n \<and> n \<le> 150000 \<and> \<bar>v - of_int n / 1000\<bar> \<le> 1 / 1000000 \<and>
    list_all (\<lambda>c. std_space c \<or> std_digit c \<or> c = CHR ''-'' \<or> c = CHR ''+'') input"
proof -
  define P where "P c \<longleftrightarrow> std_space c \<or> std_digit c \<or> c = CHR ''-'' \<or> c = CHR ''+''" for c
  define s0 where "s0 = dropWhile std_space input"
  define signed where "signed \<longleftrightarrow> s0 \<noteq> [] \<and> (hd s0 = CHR ''-'' \<or> hd s0 = CHR ''+'')"
  define s1 where "s1 = (if signed then tl s0 else s0)"
  define n where "n = (if signed \<and> hd s0 = CHR ''-'' then - int (digits_value (takeWhile std_digit s1)) else int (digits_value (takeWhile std_digit s1)))"
  have "parseCpuTemperature input = (if takeWhile std_digit s1 = [] \<or> n < - 40000 \<or> 150000 < n then None
      else if dropWhile std_space (dropWhile std_digit s1) \<noteq> [] then None else Some (ddiv (Fin (of_int n)) (Fin 1000)))"
    unfolding parseCpuTemperature_def Let_def n_def s1_def signed_def s0_def by (rule refl)
  note u = this [unfolded assms]
  have ok: "- 40000 \<le> n" "n \<le> 150000" "dropWhile std_space (dropWhile std_digit s1) = []" "t = ddiv (Fin (of_int n)) (Fin 1000)"
    by (rule ccontr, use u in \<open>simp del: ddiv.simps dropWhile_eq_Nil_conv split: if_splits\<close>)+
  have dw: "list_all P (dropWhile Q xs) \<Longrightarrow> (\<And>c. Q c \<Longrightarrow> P c) \<Longrightarrow> list_all P xs" for Q and xs :: string
    by (induction xs) (auto split: if_splits)
  have "list_all P (dropWhile std_space (dropWhile std_digit s1))" unfolding ok(3) by simp
  then have "list_all P (dropWhile std_digit s1)" by (rule dw) (simp add: P_def)
  then have "list_all P s1" by (rule dw) (simp add: P_def)
  then have "list_all P s0" by (cases s0) (auto simp: s1_def signed_def P_def split: if_splits)
  then have "list_all P input" unfolding s0_def by (rule dw) (simp add: P_def)
  moreover obtain v where v: "rnd (of_int n / 1000) = Fin v" "\<bar>v - of_int n / 1000\<bar> \<le> \<bar>of_int n / 1000\<bar> / 2 ^ 53 + 1 / 2 ^ 100"
  proof (rule rnd_error [of "of_int n / 1000"])
    show "\<bar>of_int n / 1000 :: rat\<bar> \<le> 2 ^ 100" using ok(1,2) by (simp add: abs_le_iff)
  qed
  moreover have "\<bar>of_int n / 1000 :: rat\<bar> / 2 ^ 53 + 1 / 2 ^ 100 \<le> 1 / 1000000"
  proof -
    have "\<bar>of_int n / 1000 :: rat\<bar> \<le> 150" using ok(1,2) by (simp add: abs_le_iff)
    then have "\<bar>of_int n / 1000 :: rat\<bar> / 2 ^ 53 \<le> 150 / 2 ^ 53" by (simp add: divide_right_mono)
    moreover have "150 / 2 ^ 53 + 1 / 2 ^ 100 \<le> (1 / 1000000 :: rat)" by simp
    ultimately show ?thesis by linarith
  qed
  moreover have "t = rnd (of_int n / 1000)" using ok(4) by simp
  ultimately show ?thesis using ok(1,2) unfolding P_def by (intro exI [of _ n] exI [of _ v]) auto
qed

theorem cpu_temperature_strict_witness:
  "\<exists>t v. parseCpuTemperature (''46500'' @ [CHR 0x0A]) = Some t \<and> t = Fin v"
proof -
  have "parseCpuTemperature (''46500'' @ [CHR 0x0A]) \<noteq> None"
    by (simp add: parseCpuTemperature_def std_space_def std_digit_def digits_value_def Let_def)
  then obtain t where t: "parseCpuTemperature (''46500'' @ [CHR 0x0A]) = Some t" by blast
  from cpu_temperature_strict [OF t] t show ?thesis by blast
qed

end
