(* ===== verification/Environment.thy ===== *)
theory Environment
  imports NodePolling MqttHealth
begin

text \<open>
  The configuration of the gateway service: the environment readers at the top of
  \<^verbatim>\<open>base-rockpie/src/main.cpp\<close> (\<^verbatim>\<open>envString\<close> to \<^verbatim>\<open>envNodeEndpoints\<close>) and what \<^verbatim>\<open>main\<close>
  builds from them. The process environment is a function from names to values. \<open>strtod\<close> is the
  number reader behind \<^verbatim>\<open>std::stod\<close> in the C locale: the exact value of the text, correctly
  rounded, \<open>None\<close> where the library throws.
\<close>

section \<open>Doubles from text\<close>

definition lower :: "char \<Rightarrow> char" where
  "lower c = (if (of_char c :: nat) \<in> {65..90} then char_of ((of_char c :: nat) + 32) else c)"

definition hex_digit_value :: "char \<Rightarrow> nat option" where
  "hex_digit_value c = (let n = (of_char (lower c) :: nat) in
     if n \<in> {48..57} then Some (n - 48) else if n \<in> {97..102} then Some (n - 87) else None)"

definition hex_value_of :: "string \<Rightarrow> nat" where
  "hex_value_of ds = foldl (\<lambda>a c. 16 * a + the (hex_digit_value c)) 0 ds"

text \<open>Digits before and behind an optional point, and the rest of the text.\<close>

definition scan_mantissa :: "(char \<Rightarrow> bool) \<Rightarrow> string \<Rightarrow> (string \<times> string \<times> string) option" where
  "scan_mantissa digit s =
     (let whole = takeWhile digit s; rest = dropWhile digit s;
          pointed = (rest \<noteq> [] \<and> hd rest = CHR ''.'');
          fraction = (if pointed then takeWhile digit (tl rest) else []);
          behind = (if pointed then dropWhile digit (tl rest) else rest)
      in if whole = [] \<and> fraction = [] then None else Some (whole, fraction, behind))"

text \<open>An exponent counts only when digits follow its letter and sign.\<close>

definition scan_exponent :: "char \<Rightarrow> string \<Rightarrow> int" where
  "scan_exponent letter s =
     (if s = [] \<or> lower (hd s) \<noteq> letter then 0
      else let t = tl s; signed = (t \<noteq> [] \<and> (hd t = CHR ''-'' \<or> hd t = CHR ''+''));
               ds = takeWhile std_digit (if signed then tl t else t)
           in if signed \<and> hd t = CHR ''-'' then - int (digits_value ds) else int (digits_value ds))"

text \<open>Overflow and inexact underflow set \<^verbatim>\<open>ERANGE\<close>, which \<^verbatim>\<open>std::stod\<close> turns into an exception.\<close>

definition stod_result :: "rat \<Rightarrow> dbl option" where
  "stod_result x = (if \<not> isfinite (rnd x) \<or> (x \<noteq> 0 \<and> \<bar>x\<bar> < 2 powi (- 1022) \<and> rnd x \<noteq> Fin x) then None else Some (rnd x))"

definition stod :: "string \<Rightarrow> dbl option" where
  "stod v =
     (let s0 = dropWhile std_space v;
          signed = (s0 \<noteq> [] \<and> (hd s0 = CHR ''-'' \<or> hd s0 = CHR ''+''));
          s1 = (if signed then tl s0 else s0); neg = (signed \<and> hd s0 = CHR ''-'');
          sgn = (\<lambda>x. if neg then - x else x); text = map lower s1;
          hex = (if take 2 text = ''0x'' then scan_mantissa (\<lambda>c. hex_digit_value c \<noteq> None) (drop 2 s1) else None)
      in if take 3 text = ''inf'' then Some (if neg then NInf else PInf)
         else if take 3 text = ''nan'' then Some NaN
         else case hex of
           Some (whole, fraction, behind) \<Rightarrow>
             stod_result (sgn (of_nat (hex_value_of (whole @ fraction)) * 2 powi (scan_exponent CHR ''p'' behind - 4 * int (length fraction))))
         | None \<Rightarrow> (case scan_mantissa std_digit s1 of None \<Rightarrow> None
             | Some (whole, fraction, behind) \<Rightarrow>
                 stod_result (sgn (of_nat (digits_value (whole @ fraction)) * 10 powi (scan_exponent CHR ''e'' behind - int (length fraction))))))"

section \<open>Environment readers\<close>

type_synonym environ = "string \<Rightarrow> string option"

definition envString :: "environ \<Rightarrow> string \<Rightarrow> string \<Rightarrow> string" where
  "envString getenv name fallback = (case getenv name of None \<Rightarrow> fallback
     | Some v \<Rightarrow> if v \<noteq> [] then v else fallback)"

definition envInt :: "environ \<Rightarrow> string \<Rightarrow> int \<Rightarrow> int" where
  "envInt getenv name fallback = (case stoi (envString getenv name (show_int fallback)) of
     None \<Rightarrow> fallback | Some i \<Rightarrow> i)"

definition clamp :: "'a :: linorder \<Rightarrow> 'a \<Rightarrow> 'a \<Rightarrow> 'a" where
  "clamp v lo hi = (if v < lo then lo else if hi < v then hi else v)"

definition envSize :: "environ \<Rightarrow> string \<Rightarrow> u64 \<Rightarrow> u64 \<Rightarrow> u64 \<Rightarrow> u64" where
  "envSize getenv name fallback minimum maximum =
     (case stoul (envString getenv name (show_nat (unat fallback))) of
        None \<Rightarrow> fallback | Some v \<Rightarrow> clamp v minimum maximum)"

definition envBool :: "environ \<Rightarrow> string \<Rightarrow> bool \<Rightarrow> bool" where
  "envBool getenv name fallback \<longleftrightarrow>
     envString getenv name (if fallback then ''1'' else ''0'') \<in> {''1'', ''true'', ''yes''}"

definition envOptionalDouble :: "environ \<Rightarrow> string \<Rightarrow> dbl option" where
  "envOptionalDouble getenv name = (let v = envString getenv name [] in if v = [] then None else stod v)"

text \<open>The items \<^verbatim>\<open>std::getline(input, item, ',')\<close> yields: an empty one behind the last comma is not.\<close>

function comma_items :: "string \<Rightarrow> string list" where
  "comma_items s = (if s = [] then [] else takeWhile (\<lambda>c. c \<noteq> CHR '','') s # comma_items (tl (dropWhile (\<lambda>c. c \<noteq> CHR '','') s)))"
  by pat_completeness auto
termination
  by (relation "measure length") (auto simp: less_Suc_eq_le le_diff_conv dropWhile_eq_drop)

declare comma_items.simps [simp del]

definition item_endpoint :: "string \<Rightarrow> node_endpoint option" where
  "item_endpoint item =
     (let host = (case split_last_colon item of None \<Rightarrow> item | Some (h, p) \<Rightarrow> h)
      in if host = [] then None
         else case (case split_last_colon item of None \<Rightarrow> Some 1502 | Some (h, p) \<Rightarrow> stoi p) of None \<Rightarrow> None
           | Some port \<Rightarrow> if port < 1 \<or> 65535 < port then None
               else Some \<lparr>ne_host = host, ne_port = of_int port, ne_unitId = 1\<rparr>)"

definition envNodeEndpoints :: "environ \<Rightarrow> string \<Rightarrow> node_endpoint list" where
  "envNodeEndpoints getenv name = List.map_filter item_endpoint (comma_items (envString getenv name []))"

section \<open>What the program configures\<close>

definition pcs_endpoint :: "environ \<Rightarrow> endpoint" where
  "pcs_endpoint getenv = \<lparr>ep_host = envString getenv ''GRIDEX_PCS_HOST'' ''192.168.50.10'',
     ep_port = of_int (envInt getenv ''GRIDEX_PCS_PORT'' 3200), ep_unitId = of_int (envInt getenv ''GRIDEX_PCS_UNIT_ID'' 1),
     ep_timeout = envInt getenv ''GRIDEX_PCS_TIMEOUT_MS'' 800\<rparr>"

definition commissioning :: "environ \<Rightarrow> commissioning_approval" where
  "commissioning getenv = \<lparr>addressingConfirmed = envBool getenv ''GRIDEX_APPROVE_ADDRESSING'' False,
     signConfirmed = envBool getenv ''GRIDEX_APPROVE_POWER_SIGN'' False,
     scalingConfirmed = envBool getenv ''GRIDEX_APPROVE_SCALING'' False,
     int32WordOrderConfirmed = envBool getenv ''GRIDEX_APPROVE_INT32_WORD_ORDER'' False,
     int32HighWordFirst = envBool getenv ''GRIDEX_INT32_HIGH_WORD_FIRST'' True\<rparr>"

definition controllerConfig :: "environ \<Rightarrow> controller_config" where
  "controllerConfig getenv = default_config\<lparr>configuredLimit :=
     \<lparr>cfgMaxChargeKw = envOptionalDouble getenv ''GRIDEX_MAX_CHARGE_KW'',
      cfgMaxDischargeKw = envOptionalDouble getenv ''GRIDEX_MAX_DISCHARGE_KW''\<rparr>\<rparr>"

definition mqtt_environment :: "environ \<Rightarrow> mqtt_config" where
  "mqtt_environment getenv = \<lparr>mq_brokerUrl = envString getenv ''GRIDEX_MQTT_BROKER_URL'' [],
     mq_topicPrefix = envString getenv ''GRIDEX_MQTT_TOPIC_PREFIX'' ''gridex/v1'',
     mq_clientId = envString getenv ''GRIDEX_MQTT_CLIENT_ID'' [],
     mq_username = envString getenv ''GRIDEX_MQTT_USERNAME'' [],
     mq_passwordFile = envString getenv ''GRIDEX_MQTT_PASSWORD_FILE'' [],
     mq_caFile = envString getenv ''GRIDEX_MQTT_CA_FILE'' [],
     mq_clientCertificateFile = envString getenv ''GRIDEX_MQTT_CLIENT_CERT_FILE'' [],
     mq_clientKeyFile = envString getenv ''GRIDEX_MQTT_CLIENT_KEY_FILE'' []\<rparr>"

definition polling_environment :: "environ \<Rightarrow> polling_config" where
  "polling_environment getenv = \<lparr>pg_endpoints = envNodeEndpoints getenv ''GRIDEX_NODE_ENDPOINTS'',
     pg_interval = envInt getenv ''GRIDEX_NODE_POLL_MS'' 500, pg_timeout = envInt getenv ''GRIDEX_NODE_TIMEOUT_MS'' 400\<rparr>"

definition journal_environment :: "environ \<Rightarrow> journal_config" where
  "journal_environment getenv = \<lparr>jc_path = envString getenv ''GRIDEX_TELEMETRY_JOURNAL_PATH'' ''/var/lib/gridex/telemetry-journal.ndjson'',
     jc_maxBytes = unat (envSize getenv ''GRIDEX_TELEMETRY_JOURNAL_MAX_BYTES'' (4 * 1024 * 1024) (64 * 1024) (64 * 1024 * 1024)),
     jc_enabled = envBool getenv ''GRIDEX_TELEMETRY_JOURNAL_ENABLED'' True\<rparr>"

text \<open>The locals of \<^verbatim>\<open>main\<close> that the loop reads; intervals in seconds.\<close>

record service_config =
  sc_configuredLimit :: configured_power_limit
  sc_healthInterval :: int
  sc_cpuTemperatureEnabled :: bool
  sc_telemetryInterval :: int
  sc_systemTelemetryEnabled :: bool
  sc_systemTelemetryInterval :: int
  sc_bootId :: string
  sc_journalInterval :: int
  sc_siteId :: string
  sc_gatewayId :: string

definition service_environment :: "environ \<Rightarrow> service_config" where
  "service_environment getenv = \<lparr>sc_configuredLimit = configuredLimit (controllerConfig getenv),
     sc_healthInterval = clamp (envInt getenv ''GRIDEX_HEALTH_PUBLISH_SECONDS'' 10) 2 300,
     sc_cpuTemperatureEnabled = envBool getenv ''GRIDEX_CPU_TEMPERATURE_ENABLED'' False,
     sc_telemetryInterval = clamp (envInt getenv ''GRIDEX_NODE_TELEMETRY_PUBLISH_SECONDS'' 2) 1 300,
     sc_systemTelemetryEnabled = envBool getenv ''GRIDEX_SYSTEM_TELEMETRY_ENABLED'' False,
     sc_systemTelemetryInterval = clamp (envInt getenv ''GRIDEX_SYSTEM_TELEMETRY_PUBLISH_SECONDS'' 30) 5 3600,
     sc_bootId = envString getenv ''GRIDEX_BOOT_ID'' ''unknown'',
     sc_journalInterval = clamp (envInt getenv ''GRIDEX_TELEMETRY_JOURNAL_SECONDS'' 5) 1 300,
     sc_siteId = envString getenv ''GRIDEX_SITE_ID'' [], sc_gatewayId = envString getenv ''GRIDEX_GATEWAY_ID'' []\<rparr>"

section \<open>Facts\<close>

lemma clamp_bounds: "lo \<le> hi \<Longrightarrow> lo \<le> clamp v lo hi \<and> clamp v lo hi \<le> hi"
  by (auto simp: clamp_def)

lemma envSize_bounds:
  assumes "minimum \<le> fallback" "fallback \<le> maximum"
  shows "minimum \<le> envSize getenv name fallback minimum maximum \<and> envSize getenv name fallback minimum maximum \<le> maximum"
  using assms clamp_bounds [of minimum maximum] by (auto simp: envSize_def split: option.split)

lemma item_endpoint_valid:
  assumes "item_endpoint item = Some e" "CHR '','' \<notin> set item"
  shows "ne_host e \<noteq> [] \<and> CHR '','' \<notin> set (ne_host e) \<and> ne_port e \<noteq> 0 \<and> ne_unitId e = 1"
proof -
  have port: "(of_int port :: u16) \<noteq> 0" if "1 \<le> port" "port \<le> 65535" for port :: int
  proof -
    have "uint (of_int port :: u16) = port" using that by (simp add: uint_word_of_int_eq take_bit_int_eq_self_iff)
    with that show ?thesis by auto
  qed
  have "c \<in> set item" if "c \<in> set (drop n (rev item))" for n and c :: char
    using set_drop_subset [of n "rev item"] that by auto
  then show ?thesis
    using assms port by (auto simp: item_endpoint_def split_last_colon_def Let_def not_less split: option.splits if_splits)
qed

lemma comma_items_no_comma: "item \<in> set (comma_items s) \<Longrightarrow> CHR '','' \<notin> set item"
proof (induction s rule: comma_items.induct)
  case (1 s)
  then show ?case by (subst (asm) comma_items.simps) (auto split: if_splits dest: set_takeWhileD)
qed

lemma envNodeEndpoints_valid:
  "e \<in> set (envNodeEndpoints getenv name) \<Longrightarrow> ne_host e \<noteq> [] \<and> CHR '','' \<notin> set (ne_host e) \<and> ne_port e \<noteq> 0 \<and> ne_unitId e = 1"
  using item_endpoint_valid comma_items_no_comma
  by (fastforce simp: envNodeEndpoints_def List.map_filter_def)

lemma approval_environment:
  "approval_writesEnabled (commissioning getenv) \<longleftrightarrow>
     (\<forall>name \<in> {''GRIDEX_APPROVE_ADDRESSING'', ''GRIDEX_APPROVE_POWER_SIGN'', ''GRIDEX_APPROVE_SCALING''}.
        getenv name \<in> {Some ''1'', Some ''true'', Some ''yes''})"
  by (auto simp: approval_writesEnabled_def commissioning_def envBool_def envString_def split: option.splits if_splits)

lemma journal_environment_size:
  "64 * 1024 \<le> jc_maxBytes (journal_environment getenv) \<and> jc_maxBytes (journal_environment getenv) \<le> 64 * 1024 * 1024"
proof -
  define v where "v = envSize getenv ''GRIDEX_TELEMETRY_JOURNAL_MAX_BYTES'' (4 * 1024 * 1024) (64 * 1024) (64 * 1024 * 1024)"
  have "65536 \<le> v" "v \<le> 67108864" using envSize_bounds [of "64 * 1024" "4 * 1024 * 1024" "64 * 1024 * 1024"] by (simp_all add: v_def)
  then have "unat (65536 :: u64) \<le> unat v" "unat v \<le> unat (67108864 :: u64)" by (simp_all only: word_le_nat_alt)
  then show ?thesis unfolding journal_environment_def v_def [symmetric] by simp
qed

section \<open>Properties\<close>

text \<open>
  Property C37 (bounds). Whatever the environment holds, the service runs within its limits: every
  interval stays in its range, the journal is bounded between 64 KiB and 64 MiB and is never silently
  disabled, every node endpoint has a host, a port between 1 and 65535 and unit 1, and the PCS can be
  written exactly when the three approval variables are each set to an affirmative word.
\<close>

theorem configuration_bounded:
  "let cfg = service_environment getenv; j = journal_environment getenv in
     2 \<le> sc_healthInterval cfg \<and> sc_healthInterval cfg \<le> 300 \<and>
     1 \<le> sc_telemetryInterval cfg \<and> sc_telemetryInterval cfg \<le> 300 \<and>
     5 \<le> sc_systemTelemetryInterval cfg \<and> sc_systemTelemetryInterval cfg \<le> 3600 \<and>
     1 \<le> sc_journalInterval cfg \<and> sc_journalInterval cfg \<le> 300 \<and>
     64 * 1024 \<le> jc_maxBytes j \<and> jc_maxBytes j \<le> 64 * 1024 * 1024 \<and> jn_config (new_journal j) = j \<and>
     list_all (\<lambda>e. ne_host e \<noteq> [] \<and> ne_port e \<noteq> 0 \<and> ne_unitId e = 1) (pg_endpoints (polling_environment getenv)) \<and>
     (writesEnabled (new_driver (commissioning getenv)) \<longleftrightarrow>
        list_all (\<lambda>name. getenv name \<in> {Some ''1'', Some ''true'', Some ''yes''})
          [''GRIDEX_APPROVE_ADDRESSING'', ''GRIDEX_APPROVE_POWER_SIGN'', ''GRIDEX_APPROVE_SCALING''])"
proof -
  have size: "64 * 1024 \<le> jc_maxBytes (journal_environment getenv) \<and> jc_maxBytes (journal_environment getenv) \<le> 64 * 1024 * 1024"
    by (rule journal_environment_size)
  have path: "jc_path (journal_environment getenv) \<noteq> []"
    by (simp add: journal_environment_def envString_def split: option.split)
  have eps: "list_all (\<lambda>e. ne_host e \<noteq> [] \<and> ne_port e \<noteq> 0 \<and> ne_unitId e = 1) (pg_endpoints (polling_environment getenv))"
    using envNodeEndpoints_valid [of _ getenv] by (auto simp: list_all_iff polling_environment_def)
  have "writesEnabled (new_driver (commissioning getenv)) \<longleftrightarrow> approval_writesEnabled (commissioning getenv)"
    by (simp add: writesEnabled_def new_driver_def)
  with size path eps approval_environment [of getenv] show ?thesis
    by (simp add: Let_def service_environment_def clamp_bounds new_journal_def not_less)
qed

end
