(* ===== verification/PollingWorker.thy ===== *)
theory PollingWorker
  imports NodePolling
begin

text \<open>
  The worker thread of the node polling (\<^verbatim>\<open>NodeTcpPollingService::run\<close>) as a state machine whose step is one
  transaction with a node or one check of a loop condition: what the program guards with the mutex of
  a client. The samples are guarded by a second mutex, which the worker holds from behind the read of
  the identity to the end of a poll. Other threads may act between any two steps; without them the
  steps of a pass are the pass of theory \<^verbatim>\<open>NodePolling\<close>.
\<close>

section \<open>The machine\<close>

text \<open>At the outer loop, at the next node, behind the identity, behind the telemetry (with the samples
  locked), in the pause between passes, and at the end.\<close>

datatype worker =
    Checking
  | Next nat
  | HasIdentity nat "u16 list option"
  | HasTelemetry nat "u16 list" "u16 list"
  | Pausing
  | Exited

record worker_input =
  wi_steady :: int
  wi_system :: int
  wi_elapsed :: bool

definition client_read :: "('n, 'a) client_net \<Rightarrow> nat \<Rightarrow> u16 \<Rightarrow> u16 \<Rightarrow> polling \<times> 'n \<Rightarrow> u16 list option \<times> polling \<times> 'n" where
  "client_read net index start count = (\<lambda>(sv, n). case po_clients sv ! index of (ep, pc) \<Rightarrow>
     case posix_readHoldingRange net ep start count (pc, n) of (r, (pc', n')) \<Rightarrow>
       (r, (sv\<lparr>po_clients := (po_clients sv)[index := (ep, pc')]\<rparr>, n')))"

definition put_sample :: "nat \<Rightarrow> (node_telemetry \<Rightarrow> node_telemetry) \<Rightarrow> polling \<Rightarrow> polling" where
  "put_sample index f sv = sv\<lparr>po_samples := (po_samples sv)[index := f (po_samples sv ! index)]\<rparr>"

definition poll_succeeded :: "worker_input \<Rightarrow> u16 list \<Rightarrow> u16 list \<Rightarrow> u16 list option \<Rightarrow> node_telemetry \<Rightarrow> node_telemetry" where
  "poll_succeeded inp identity telemetry health sample =
     (let s1 = store_telemetry identity telemetry sample;
          s2 = (case health of None \<Rightarrow> s1 | Some h \<Rightarrow> store_health h s1)
      in s2\<lparr>nt_online := True, nt_pollStatus := PollOnline, nt_consecutiveFailures := 0,
           nt_lastSeen := wi_steady inp, nt_lastSuccessfulContact := wi_system inp\<rparr>)"

fun worker_step :: "('n, 'a) client_net \<Rightarrow> worker_input \<Rightarrow> worker \<times> polling \<times> 'n \<Rightarrow> worker \<times> polling \<times> 'n" where
  "worker_step net inp (Checking, sv, n) = (if po_running sv then (Next 0, sv, n) else (Exited, sv, n))"
| "worker_step net inp (Next index, sv, n) =
     (if index < length (po_clients sv) \<and> po_running sv
      then case client_read net index kIdentityStart kIdentityCount (sv, n) of (r, s) \<Rightarrow> (HasIdentity index r, s)
      else (Pausing, sv, n))"
| "worker_step net inp (HasIdentity index None, sv, n) = (Next (index + 1), put_sample index (poll_failed TransportFailure) sv, n)"
| "worker_step net inp (HasIdentity index (Some identity), sv, n) =
     (if identity ! 0 \<noteq> kMagic then (Next (index + 1), put_sample index (poll_failed IdentityFailure) sv, n)
      else case client_read net index kTelemetryStart kTelemetryCount (sv, n) of
          (None, (sv', n')) \<Rightarrow> (Next (index + 1), put_sample index (poll_failed TelemetryFailure) sv', n')
        | (Some telemetry, s) \<Rightarrow> (HasTelemetry index identity telemetry, s))"
| "worker_step net inp (HasTelemetry index identity telemetry, sv, n) =
     (case client_read net index kHealthStart kHealthCount (sv, n) of (health, (sv', n')) \<Rightarrow>
        (Next (index + 1), put_sample index (poll_succeeded inp identity telemetry health) sv', n'))"
| "worker_step net inp (Pausing, sv, n) = (if po_running sv \<and> \<not> wi_elapsed inp then (Pausing, sv, n) else (Checking, sv, n))"
| "worker_step net inp (Exited, sv, n) = (Exited, sv, n)"

fun worker_locked :: "worker \<Rightarrow> bool" where
  "worker_locked (HasTelemetry index identity telemetry) = True"
| "worker_locked w = False"

text \<open>\<^verbatim>\<open>join\<close> waits for the worker; \<open>None\<close> would be waiting for ever.\<close>

partial_function (option) worker_join :: "('n, 'a) client_net \<Rightarrow> (nat \<Rightarrow> worker_input) \<Rightarrow> nat \<Rightarrow> worker \<times> polling \<times> 'n \<Rightarrow> (polling \<times> 'n) option" where
  "worker_join net inps k s = (if fst s = Exited then Some (snd s) else worker_join net inps (k + 1) (worker_step net (inps k) s))"

definition worker_stop :: "('n, 'a) client_net \<Rightarrow> (nat \<Rightarrow> worker_input) \<Rightarrow> worker \<times> polling \<times> 'n \<Rightarrow> (worker \<times> polling \<times> 'n) option" where
  "worker_stop net inps = (\<lambda>(w, sv, n). if \<not> po_running sv then Some (w, sv, n)
     else map_option (\<lambda>(sv1, n1). case disconnect_all net (po_clients sv1) n1 of (cs, n2) \<Rightarrow>
         (Exited, sv1\<lparr>po_worker := False, po_clients := cs\<rparr>, n2))
       (worker_join net inps 0 (w, sv\<lparr>po_running := False\<rparr>, n)))"

section \<open>Indices stay in range\<close>

definition worker_ok :: "worker \<Rightarrow> polling \<Rightarrow> bool" where
  "worker_ok w sv = (case w of
     HasIdentity index identity \<Rightarrow> index < length (po_clients sv) \<and> (\<forall>xs. identity = Some xs \<longrightarrow> length xs = 13)
   | HasTelemetry index identity telemetry \<Rightarrow> index < length (po_clients sv) \<and> length identity = 13 \<and> length telemetry = 6
   | _ \<Rightarrow> True)"

text \<open>What every step keeps: the shape of the service and a property of all samples.\<close>

lemma client_read_keeps:
  assumes "client_read net index a count (sv, n) = (r, (sv', n'))"
  shows "po_samples sv' = po_samples sv" "length (po_clients sv') = length (po_clients sv)" "po_running sv' = po_running sv"
    "po_worker sv' = po_worker sv" "po_config sv' = po_config sv" "r = Some vs \<Longrightarrow> length vs = unat count"
  using assms by (auto simp: client_read_def dest: readHoldingRange_length split: prod.splits)

lemma put_sample_keeps [simp]:
  "po_clients (put_sample i f sv) = po_clients sv" "po_running (put_sample i f sv) = po_running sv"
  "length (po_samples (put_sample i f sv)) = length (po_samples sv)"
  by (simp_all add: put_sample_def)

lemma put_sample_ok:
  "polling_ok sv \<Longrightarrow> (\<And>x. nt_online (f x) \<longleftrightarrow> nt_pollStatus (f x) = PollOnline) \<Longrightarrow> polling_ok (put_sample i f sv)"
  using set_update_subset_insert [of "po_samples sv" i "f (po_samples sv ! i)"] by (auto simp: polling_ok_def put_sample_def)

lemma poll_outcome_status:
  "nt_online (poll_failed TransportFailure x) \<longleftrightarrow> nt_pollStatus (poll_failed TransportFailure x) = PollOnline"
  "nt_online (poll_failed IdentityFailure x) \<longleftrightarrow> nt_pollStatus (poll_failed IdentityFailure x) = PollOnline"
  "nt_online (poll_failed TelemetryFailure x) \<longleftrightarrow> nt_pollStatus (poll_failed TelemetryFailure x) = PollOnline"
  "nt_online (poll_succeeded inp i t h x) \<longleftrightarrow> nt_pollStatus (poll_succeeded inp i t h x) = PollOnline"
  by (simp_all add: poll_failed_def poll_succeeded_def Let_def)

lemma read_ok: "client_read net index a count (sv, n) = (r, (sv', n')) \<Longrightarrow> polling_ok sv \<Longrightarrow> polling_ok sv'"
  using client_read_keeps [of net index a count sv n r sv' n'] by (simp add: polling_ok_def)

lemma worker_step_ok:
  assumes "worker_step net inp (w, sv, n) = (w', sv', n')" "polling_ok sv" "worker_ok w sv"
  shows "polling_ok sv' \<and> worker_ok w' sv' \<and> po_running sv' = po_running sv \<and> length (po_clients sv') = length (po_clients sv)"
proof (cases w)
  case (Next index)
  then show ?thesis
    using assms by (auto simp: worker_ok_def read_ok client_read_keeps split: if_splits prod.splits)
next
  case (HasIdentity index identity)
  then show ?thesis
  proof (cases identity)
    case None
    then show ?thesis using assms HasIdentity by (auto simp: worker_ok_def put_sample_ok poll_outcome_status)
  next
    case (Some xs)
    obtain r sv1 n1 where r: "client_read net index kTelemetryStart kTelemetryCount (sv, n) = (r, (sv1, n1))" by (metis prod_cases3)
    then show ?thesis
      using assms HasIdentity Some read_ok [OF r] client_read_keeps [OF r]
      by (cases r) (auto simp: worker_ok_def put_sample_ok poll_outcome_status split: if_splits)
  qed
next
  case (HasTelemetry index identity telemetry)
  obtain r sv1 n1 where r: "client_read net index kHealthStart kHealthCount (sv, n) = (r, (sv1, n1))" by (metis prod_cases3)
  then show ?thesis
    using assms HasTelemetry read_ok [OF r] client_read_keeps [OF r] by (auto simp: worker_ok_def put_sample_ok poll_outcome_status)
qed (use assms in \<open>auto simp: worker_ok_def split: if_splits\<close>)

text \<open>A property of single samples that all outcomes of a poll keep.\<close>

lemma worker_step_samples:
  assumes "worker_step net inp (w, sv, n) = (w', sv', n')" "list_all P (po_samples sv)"
    and "\<And>status x. P x \<Longrightarrow> P (poll_failed status x)" "\<And>i t h x. P x \<Longrightarrow> P (poll_succeeded inp i t h x)"
  shows "list_all P (po_samples sv')"
proof -
  have put: "list_all P (po_samples (put_sample i f sv0))" if "list_all P (po_samples sv0)" "\<And>x. P x \<Longrightarrow> P (f x)" for i f sv0
    using that by (cases "i < length (po_samples sv0)") (auto simp: put_sample_def list_all_length nth_list_update)
  show ?thesis
  proof (cases w)
    case (Next index)
    then show ?thesis using assms by (auto simp: client_read_keeps split: if_splits prod.splits)
  next
    case (HasIdentity index identity)
    show ?thesis
    proof (cases identity)
      case (Some xs)
      obtain r sv1 n1 where r: "client_read net index kTelemetryStart kTelemetryCount (sv, n) = (r, (sv1, n1))" by (metis prod_cases3)
      then show ?thesis using assms(1) HasIdentity Some client_read_keeps [OF r] assms(2-) put
        by (cases r) (auto split: if_splits)
    qed (use assms HasIdentity put in auto)
  next
    case (HasTelemetry index identity telemetry)
    obtain r sv1 n1 where r: "client_read net index kHealthStart kHealthCount (sv, n) = (r, (sv1, n1))" by (metis prod_cases3)
    then show ?thesis using assms(1) HasTelemetry client_read_keeps [OF r] assms(2-) put by auto
  qed (use assms in \<open>auto split: if_splits\<close>)
qed

section \<open>Steps and passes\<close>

text \<open>Without interference the steps at one node are its poll.\<close>

lemma poll_steps:
  assumes "index < length (po_clients sv)" "po_running sv"
  shows "\<exists>k. k \<le> 3 \<and> (worker_step net inp ^^ k) (Next index, sv, n) =
    (Next (index + 1), pollNode net (wi_steady inp) (wi_system inp) index (sv, n))"
proof -
  obtain ep pc where c: "po_clients sv ! index = (ep, pc)" by fastforce
  obtain r1 pc1 n1 where r1: "posix_readHoldingRange net ep kIdentityStart kIdentityCount (pc, n) = (r1, (pc1, n1))" by (metis prod_cases3)
  obtain r2 pc2 n2 where r2: "posix_readHoldingRange net ep kTelemetryStart kTelemetryCount (pc1, n1) = (r2, (pc2, n2))" by (metis prod_cases3)
  obtain r3 pc3 n3 where r3: "posix_readHoldingRange net ep kHealthStart kHealthCount (pc2, n2) = (r3, (pc3, n3))" by (metis prod_cases3)
  note reads = client_read_def c r1 r2 r3 assms
  note poll = pollNode_def poll_client_def put_sample_def c r1 r2 r3
  show ?thesis
  proof (cases "r1 = None \<or> the r1 ! 0 \<noteq> kMagic \<or> r2 = None")
    case True
    then have "(worker_step net inp ^^ 2) (Next index, sv, n) = (Next (index + 1), pollNode net (wi_steady inp) (wi_system inp) index (sv, n))"
      by (cases r1; cases r2) (auto simp: numeral_2_eq_2 reads poll simp del: kIdentityStart_def kIdentityCount_def kTelemetryStart_def kTelemetryCount_def)
    then show ?thesis by (intro exI [of _ 2]) simp
  next
    case False
    then have "(worker_step net inp ^^ 3) (Next index, sv, n) = (Next (index + 1), pollNode net (wi_steady inp) (wi_system inp) index (sv, n))"
      by (cases r1; cases r2; cases r3) (auto simp: numeral_3_eq_3 reads poll poll_succeeded_def Let_def simp del: kIdentityStart_def kIdentityCount_def
          kTelemetryStart_def kTelemetryCount_def kHealthStart_def kHealthCount_def)
    then show ?thesis by (intro exI [of _ 3]) simp
  qed
qed

text \<open>A whole pass, with clocks and pause as the input of its steps says.\<close>

lemma pass_steps:
  assumes "po_running sv"
  shows "\<exists>k. k \<le> 3 * (length (po_clients sv) - index) \<and> (worker_step net inp ^^ k) (Next index, sv, n) =
    (Next (max index (length (po_clients sv))), poll_from net (\<lambda>_. wi_steady inp) (\<lambda>_. wi_system inp) (\<lambda>_. True) index (sv, n))"
  using assms
proof (induction "length (po_clients sv) - index" arbitrary: index sv n)
  case 0
  then show ?case by (intro exI [of _ 0]) (subst poll_from.simps, simp add: max_def)
next
  case (Suc m)
  then have i: "index < length (po_clients sv)" by simp
  obtain sv1 n1 where p: "pollNode net (wi_steady inp) (wi_system inp) index (sv, n) = (sv1, n1)" by fastforce
  then have l: "length (po_clients sv1) = length (po_clients sv)" "po_running sv1" using Suc.prems by (auto simp: pollNode_def split: prod.splits)
  from poll_steps [OF i Suc.prems, of net inp n] p obtain k1 where k1: "k1 \<le> 3" "(worker_step net inp ^^ k1) (Next index, sv, n) = (Next (index + 1), sv1, n1)" by auto
  have m: "m = length (po_clients sv1) - (index + 1)" using Suc.hyps(2) l(1) by simp
  from Suc.hyps(1) [OF m l(2), of n1] obtain k2 where k2: "k2 \<le> 3 * m" "(worker_step net inp ^^ k2) (Next (index + 1), sv1, n1) =
      (Next (length (po_clients sv)), poll_from net (\<lambda>_. wi_steady inp) (\<lambda>_. wi_system inp) (\<lambda>_. True) (index + 1) (sv1, n1))"
    using i l(1) m by (auto simp: max_def)
  have "(worker_step net inp ^^ (k2 + k1)) (Next index, sv, n) =
      (Next (length (po_clients sv)), poll_from net (\<lambda>_. wi_steady inp) (\<lambda>_. wi_system inp) (\<lambda>_. True) index (sv, n))"
    using k1(2) k2(2) i p by (subst poll_from.simps) (simp add: funpow_add)
  then show ?case using k1(1) k2(1) Suc.hyps(2) i by (intro exI [of _ "k2 + k1"]) (simp add: max_def)
qed

section \<open>Stopping\<close>

text \<open>How many steps a worker makes at most once the flag is cleared.\<close>

fun steps_left :: "worker \<Rightarrow> nat" where
  "steps_left Exited = 0"
| "steps_left Checking = 1"
| "steps_left Pausing = 2"
| "steps_left (Next index) = 3"
| "steps_left (HasTelemetry index identity telemetry) = 4"
| "steps_left (HasIdentity index identity) = 5"

lemma stopping_step:
  assumes "worker_step net inp (w, sv, n) = (w', sv', n')" "\<not> po_running sv" "w \<noteq> Exited"
  shows "steps_left w' < steps_left w \<and> \<not> po_running sv'"
proof (cases w)
  case (HasIdentity index identity)
  obtain r sv1 n1 where r: "client_read net index kTelemetryStart kTelemetryCount (sv, n) = (r, (sv1, n1))" by (metis prod_cases3)
  then show ?thesis using assms HasIdentity client_read_keeps(3) [OF r] by (cases identity; cases r) (auto split: if_splits)
next
  case (HasTelemetry index identity telemetry)
  obtain r sv1 n1 where r: "client_read net index kHealthStart kHealthCount (sv, n) = (r, (sv1, n1))" by (metis prod_cases3)
  then show ?thesis using assms HasTelemetry client_read_keeps(3) [OF r] by auto
qed (use assms in auto)

lemma join_returns:
  assumes "\<not> po_running sv" "polling_ok sv" "worker_ok w sv"
  shows "\<exists>sv' n'. worker_join net inps k (w, sv, n) = Some (sv', n') \<and> \<not> po_running sv' \<and> polling_ok sv'"
  using assms
proof (induction "steps_left w" arbitrary: w sv n k rule: less_induct)
  case less
  show ?case
  proof (cases "w = Exited")
    case True
    then show ?thesis using less.prems by (subst worker_join.simps) simp
  next
    case False
    obtain w1 sv1 n1 where s: "worker_step net (inps k) (w, sv, n) = (w1, sv1, n1)" by (metis prod_cases3)
    have "worker_join net inps k (w, sv, n) = worker_join net inps (k + 1) (w1, sv1, n1)"
      using False s by (subst worker_join.simps) simp
    moreover have "steps_left w1 < steps_left w" "\<not> po_running sv1" using stopping_step [OF s less.prems(1) False] by simp_all
    moreover have "polling_ok sv1" "worker_ok w1 sv1" using worker_step_ok [OF s less.prems(2,3)] by simp_all
    ultimately show ?thesis using less.hyps by simp
  qed
qed

lemma disconnect_all_closed:
  "disconnect_all net cs n = (cs', n') \<Longrightarrow> length cs' = length cs \<and> list_all (\<lambda>(ep, pc). pc_socket pc < 0) cs'"
  by (induction net cs n arbitrary: cs' n' rule: disconnect_all.induct) (auto simp: disconnectLocked_def split: prod.splits if_splits)

lemma stop_returns:
  assumes "polling_ok sv" "worker_ok w sv" "po_running sv"
  shows "\<exists>sv' n'. worker_stop net inps (w, sv, n) = Some (Exited, sv', n') \<and> \<not> po_running sv' \<and> \<not> po_worker sv' \<and> polling_ok sv' \<and>
    list_all (\<lambda>(ep, pc). pc_socket pc < 0) (po_clients sv')"
proof -
  have "polling_ok (sv\<lparr>po_running := False\<rparr>)" "worker_ok w (sv\<lparr>po_running := False\<rparr>)"
    using assms(1,2) by (auto simp: polling_ok_def worker_ok_def split: worker.splits)
  then obtain sv1 n1 where j: "worker_join net inps 0 (w, sv\<lparr>po_running := False\<rparr>, n) = Some (sv1, n1)" "\<not> po_running sv1" "polling_ok sv1"
    using join_returns [of "sv\<lparr>po_running := False\<rparr>" w net inps 0 n] by auto
  obtain cs n2 where d: "disconnect_all net (po_clients sv1) n1 = (cs, n2)" by fastforce
  show ?thesis
    using assms(3) j d disconnect_all_closed [OF d] by (simp add: worker_stop_def polling_ok_def)
qed

end
