(* ===== verification/ServiceLoop.thy ===== *)
theory ServiceLoop
  imports NorthboundServer Environment PollingWorker
begin

text \<open>
  The gateway service (\<^verbatim>\<open>base-rockpie/src/main.cpp\<close>): start-up, one turn of the main loop and
  shut-down. The loop shares the register bank with the northbound server threads, the samples with
  the polling worker and the connection flag with the MQTT library; all three are guarded, so between
  two phases of a turn any number of their operations may happen. A schedule \<open>sched k\<close> lists what
  happens before phase \<open>k\<close>: a request of the EMS, one step of the polling worker of theory \<^verbatim>\<open>PollingWorker\<close>,
  a callback of the broker. Where the loop copies the samples it waits for a worker that holds them. The PCS transport is a client
  \<open>c\<close> over a world \<open>'w\<close>, the nodes are reached through a network \<open>net\<close> over \<open>'n\<close>. A turn is
  \<open>None\<close> only if a conversion were undefined.
\<close>

section \<open>State\<close>

record ('w, 'n) service =
  sv_controller :: controller
  sv_driver :: sun_driver
  sv_pcs :: 'w
  sv_bank :: bank
  sv_server :: server
  sv_polling :: polling
  sv_worker :: worker
  sv_net :: 'n
  sv_publisher :: publisher
  sv_journal :: journal
  sv_files :: journal_files
  sv_journalStatuses :: "node_poll_status list"
  sv_nextHealthPublish :: int
  sv_nextTelemetryPublish :: int
  sv_nextJournalSnapshot :: int
  sv_nextSystemTelemetryPublish :: int
  sv_systemTelemetrySequence :: u64
  sv_messages :: "mqtt_message list"
  sv_output :: "string list"

text \<open>What the clocks and the file system answer during one turn, per node slot where a call is made per slot.\<close>

record turn_input =
  in_now :: int
  in_clock :: "nat \<Rightarrow> int"
  in_healthWall :: int
  in_telemetryWall :: "nat \<Rightarrow> int"
  in_systemWall :: int
  in_transitionWall :: "nat \<Rightarrow> int"
  in_snapshotWall :: "nat \<Rightarrow> int"
  in_transitionFiles :: "nat \<Rightarrow> journal_env"
  in_snapshotFiles :: "nat \<Rightarrow> journal_env"
  in_cpuTemperature :: "string option"
  in_system :: system_files
  in_systemPublished :: bool
  in_worker :: worker_input

definition stateName :: "edge_state \<Rightarrow> string" where
  "stateName s = (case s of Boot \<Rightarrow> ''boot'' | WaitingForComms \<Rightarrow> ''waiting_for_comms''
     | WaitingForBmsLimits \<Rightarrow> ''waiting_for_bms_limits'' | Ready \<Rightarrow> ''ready'' | SafeMode \<Rightarrow> ''safe_mode''
     | Fault \<Rightarrow> ''fault'' | CommissioningLocked \<Rightarrow> ''commissioning_locked''
     | WaitingForPcsReady \<Rightarrow> ''waiting_for_pcs_ready'')"

text \<open>Construction, in the order of the program; \<open>None\<close> is the exit when the server does not start.\<close>

definition service_start :: "environ \<Rightarrow> (string \<Rightarrow> string option) \<Rightarrow> mosquitto_results \<Rightarrow> listen_results \<Rightarrow>
    int \<times> int \<times> int \<times> int \<Rightarrow> 'w \<Rightarrow> 'n \<Rightarrow> journal_files \<Rightarrow> ('w, 'n) service option" where
  "service_start getenv files mr lr = (\<lambda>(t1, t2, t3, t4) w n fs.
     case server_start lr new_server of (started, fds, server) \<Rightarrow>
     if \<not> started then None
     else let driver = new_driver (commissioning getenv) in
       Some \<lparr>sv_controller = new_controller (controllerConfig getenv), sv_driver = driver, sv_pcs = w,
        sv_bank = new_bank, sv_server = server, sv_polling = polling_start (new_polling (polling_environment getenv)), sv_worker = Checking, sv_net = n,
        sv_publisher = new_publisher files mr (mqtt_environment getenv),
        sv_journal = new_journal (journal_environment getenv), sv_files = fs, sv_journalStatuses = [],
        sv_nextHealthPublish = t1, sv_nextTelemetryPublish = t2, sv_nextJournalSnapshot = t3,
        sv_nextSystemTelemetryPublish = t4, sv_systemTelemetrySequence = 0, sv_messages = [],
        sv_output = (''GrideX ROCK Pi E service started; writes_enabled='' @ jsonBool (writesEnabled driver)) #
          (if jc_enabled (jn_config (new_journal (journal_environment getenv)))
           then [''GrideX local telemetry journal enabled''] else [])\<rparr>)"

section \<open>Interference\<close>

datatype interference =
    EmsPdu "u8 list"
  | WorkerStep worker_input
  | BrokerConnect int
  | BrokerDisconnect int

fun interfere1 :: "('n, 'a) client_net \<Rightarrow> interference \<Rightarrow> ('w, 'n) service \<Rightarrow> ('w, 'n) service" where
  "interfere1 net (EmsPdu pdu) st = st\<lparr>sv_bank := snd (handlePdu (sv_bank st) pdu)\<rparr>"
| "interfere1 net (WorkerStep inp) st = (case worker_step net inp (sv_worker st, sv_polling st, sv_net st) of (w, po, n) \<Rightarrow>
     st\<lparr>sv_worker := w, sv_polling := po, sv_net := n\<rparr>)"
| "interfere1 net (BrokerConnect result) st = st\<lparr>sv_publisher := onConnect result (sv_publisher st)\<rparr>"
| "interfere1 net (BrokerDisconnect result) st = st\<lparr>sv_publisher := onDisconnect result (sv_publisher st)\<rparr>"

definition interfere :: "('n, 'a) client_net \<Rightarrow> interference list \<Rightarrow> ('w, 'n) service \<Rightarrow> ('w, 'n) service" where
  "interfere net = fold (interfere1 net)"

text \<open>The copy of the samples waits until the worker has released them.\<close>

definition await_samples :: "('n, 'a) client_net \<Rightarrow> worker_input \<Rightarrow> ('w, 'n) service \<Rightarrow> ('w, 'n) service" where
  "await_samples net inp st = (if worker_locked (sv_worker st) then interfere1 net (WorkerStep inp) st else st)"

section \<open>The phases of a turn\<close>

definition command_phase :: "int \<Rightarrow> ('w, 'n) service \<Rightarrow> ('w, 'n) service" where
  "command_phase now st = (case takeCommand (sv_bank st) of
     (None, b) \<Rightarrow> st\<lparr>sv_bank := b\<rparr>
   | (Some command, b) \<Rightarrow> st\<lparr>sv_bank := b, sv_controller :=
       receiveCommand (sv_controller st) (nc_requestedPowerKw command) \<lparr>siteLoadKw = None, contractLimitKw = None\<rparr> now\<rparr>)"

definition tick_phase :: "'w modbus_client \<Rightarrow> int \<Rightarrow> ('w, 'n) service \<Rightarrow> (controller_snapshot \<times> ('w, 'n) service) option" where
  "tick_phase c now st = (case run_state (tick c (sv_controller st) (sv_driver st) now) (sv_pcs st) of
     ((snapshot, ctl, d), w) \<Rightarrow>
       map_option (\<lambda>s. (s, st\<lparr>sv_controller := ctl, sv_driver := d, sv_pcs := w\<rparr>)) snapshot)"

definition has_action :: "operator_command \<Rightarrow> u16 \<Rightarrow> bool" where
  "has_action op action \<longleftrightarrow> oc_actionMask op AND action \<noteq> 0"

definition operator_valid :: "operator_command \<Rightarrow> bool" where
  "operator_valid op \<longleftrightarrow> oc_actionMask op \<noteq> 0 \<and> oc_actionMask op AND NOT A_All = 0 \<and>
     \<not> (has_action op A_RunState \<and> 1 < oc_requestedRunState op)"

text \<open>\<^verbatim>\<open>accepted = driver.write(..) && accepted\<close>: the write always happens.\<close>

definition both :: "bool option \<Rightarrow> bool option \<Rightarrow> bool option" where
  "both r accepted = Option.bind r (\<lambda>x. map_option ((\<and>) x) accepted)"

definition operator_actions :: "'w modbus_client \<Rightarrow> sun_driver \<Rightarrow> operator_command \<Rightarrow> ('w, bool option \<times> sun_driver) state" where
  "operator_actions c d op = do {
     (a1, d1) \<leftarrow> (if has_action op A_RunState then writePowerState c d (oc_requestedRunState op = 1)
                  else State_Monad.return (Some True, d));
     a2 \<leftarrow> (if has_action op A_SocLimits then do {
              r \<leftarrow> writeSocLimitsPct c d1 (oc_requestedSocLowerPct op) (oc_requestedSocUpperPct op);
              State_Monad.return (both r a1)
            } else State_Monad.return a1);
     a3 \<leftarrow> (if has_action op A_ReactivePower then do {
              r \<leftarrow> writeReactivePowerSetpointKvar c d1 (oc_requestedReactivePowerKvar op);
              State_Monad.return (both r a2)
            } else State_Monad.return a2);
     State_Monad.return (a3, d1)
   }"

definition operator_phase :: "'w modbus_client \<Rightarrow> ('w, 'n) service \<Rightarrow> ('w, 'n) service option" where
  "operator_phase c st = (case takeOperatorCommand (sv_bank st) of
     (None, b) \<Rightarrow> Some (st\<lparr>sv_bank := b\<rparr>)
   | (Some op, b) \<Rightarrow>
       if \<not> oc_authorized op then Some (st\<lparr>sv_bank := publishOperatorResult b (oc_sequence op) 2\<rparr>)
       else if \<not> operator_valid op then Some (st\<lparr>sv_bank := publishOperatorResult b (oc_sequence op) 3\<rparr>)
       else case run_state (operator_actions c (sv_driver st) op) (sv_pcs st) of ((accepted, d), w) \<Rightarrow>
         map_option (\<lambda>ok. st\<lparr>sv_driver := d, sv_pcs := w,
           sv_bank := publishOperatorResult b (oc_sequence op) (if ok then 1 else 4)\<rparr>) accepted)"

definition node_phase :: "('n, 'a) client_net \<Rightarrow> ('w, 'n) service \<Rightarrow> ('w, 'n) service" where
  "node_phase net st = (case takeNodeCommand (sv_bank st) of
     (None, b) \<Rightarrow> st\<lparr>sv_bank := b\<rparr>
   | (Some cmd, b) \<Rightarrow>
       (case (if cmd_authorized cmd then applyPowerCommand net (cmd_targetSlot cmd) (cmd_requestedPowerKw cmd)
                 (cmd_enabled cmd) (cmd_sequence cmd) (cmd_ttlSeconds cmd) (sv_polling st, sv_net st)
              else (False, (sv_polling st, sv_net st))) of (accepted, (po, n)) \<Rightarrow>
        st\<lparr>sv_bank := b, sv_polling := po, sv_net := n, sv_output := sv_output st @
          [''{'' @ quoted ''node_command_slot'' @ '':'' @ show_nat (cmd_targetSlot cmd) @ member ''accepted'' @ jsonBool accepted @ ''}'']\<rparr>))"

definition publish_phase :: "configured_power_limit \<Rightarrow> controller_snapshot \<Rightarrow> ('w, 'n) service \<Rightarrow> ('w, 'n) service option" where
  "publish_phase limit snapshot st = map_option (\<lambda>b. st\<lparr>sv_bank := b\<rparr>) (publish (sv_bank st) snapshot limit)"

definition resize_statuses :: "node_telemetry list \<Rightarrow> ('w, 'n) service \<Rightarrow> ('w, 'n) service" where
  "resize_statuses samples st = (if length (sv_journalStatuses st) \<noteq> length samples
     then st\<lparr>sv_journalStatuses := replicate (length samples) PollUnknown\<rparr> else st)"

definition slot_transition :: "turn_input \<Rightarrow> node_telemetry list \<Rightarrow> nat \<Rightarrow> ('w, 'n) service \<Rightarrow> ('w, 'n) service" where
  "slot_transition inp samples slot st =
     (let x = samples ! slot; previous = sv_journalStatuses st ! slot
      in if nt_pollStatus x = previous then st
         else case appendTransition (in_transitionWall inp slot) (slot + 1) x previous (in_transitionFiles inp slot)
                (sv_journal st, sv_files st) of (ok, (j, fs)) \<Rightarrow>
           st\<lparr>sv_journal := j, sv_files := fs, sv_journalStatuses := (sv_journalStatuses st)[slot := nt_pollStatus x],
             sv_output := sv_output st @ (if ok then [] else [''GrideX telemetry journal transition write failed''])\<rparr>)"

fun nodes_phase :: "turn_input \<Rightarrow> node_telemetry list \<Rightarrow> nat list \<Rightarrow> ('w, 'n) service \<Rightarrow> ('w, 'n) service option" where
  "nodes_phase inp samples [] st = Some st"
| "nodes_phase inp samples (slot # slots) st =
     (case publishNode (sv_bank st) slot (samples ! slot) (in_clock inp slot) of None \<Rightarrow> None
      | Some b \<Rightarrow> nodes_phase inp samples slots (slot_transition inp samples slot (st\<lparr>sv_bank := b\<rparr>)))"

definition status_line :: "controller_snapshot \<Rightarrow> string" where
  "status_line s = ''{'' @ quoted ''state'' @ '':'' @ quoted (stateName (sn_state s)) @
     member ''soc_pct'' @ fmt_double (socPct (sn_battery s)) @ member ''actual_kw'' @ fmt_double (actualPowerKw (sn_battery s)) @
     member ''applied_kw'' @ fmt_double (appliedPowerKw (sn_command s)) @ member ''heartbeat_ok'' @ jsonBool (sn_heartbeatOk s) @
     member ''reason'' @ quoted (reason (sn_command s)) @ ''}''"

definition print_phase :: "controller_snapshot \<Rightarrow> ('w, 'n) service \<Rightarrow> ('w, 'n) service" where
  "print_phase s st = st\<lparr>sv_output := sv_output st @ [status_line s]\<rparr>"

definition send_message :: "mqtt_message option \<Rightarrow> ('w, 'n) service \<Rightarrow> ('w, 'n) service" where
  "send_message m st = (case m of None \<Rightarrow> st | Some x \<Rightarrow> st\<lparr>sv_messages := sv_messages st @ [x]\<rparr>)"

definition turn_health :: "service_config \<Rightarrow> turn_input \<Rightarrow> controller_snapshot \<Rightarrow> node_telemetry list \<Rightarrow> health_message" where
  "turn_health cfg inp s samples =
     (let safeMode = (sn_state s = SafeMode); controlReady = (sn_state s = Ready)
      in \<lparr>hm_siteId = sc_siteId cfg, hm_gatewayId = sc_gatewayId cfg,
          hm_state = (if safeMode then ''safe_mode'' else if controlReady then ''ready'' else ''degraded''),
          hm_pcsHeartbeatOk = sn_heartbeatOk s, hm_controlReady = controlReady, hm_safeMode = safeMode,
          hm_northboundReady = True, hm_nodeOnlineCount = length (filter nt_online samples), hm_nodeTotal = length samples,
          hm_cpuTemperatureC = (if sc_cpuTemperatureEnabled cfg then readCpuTemperature (in_cpuTemperature inp) else None)\<rparr>)"

definition health_phase :: "service_config \<Rightarrow> turn_input \<Rightarrow> controller_snapshot \<Rightarrow> node_telemetry list \<Rightarrow> ('w, 'n) service \<Rightarrow> ('w, 'n) service" where
  "health_phase cfg inp s samples st = (if sv_nextHealthPublish st \<le> in_now inp
     then (send_message (publishHealth (in_healthWall inp) (turn_health cfg inp s samples) (sv_publisher st)) st)
            \<lparr>sv_nextHealthPublish := in_now inp + secs (sc_healthInterval cfg)\<rparr>
     else st)"

definition telemetry_phase :: "service_config \<Rightarrow> turn_input \<Rightarrow> node_telemetry list \<Rightarrow> ('w, 'n) service \<Rightarrow> ('w, 'n) service" where
  "telemetry_phase cfg inp samples st = (if sv_nextTelemetryPublish st \<le> in_now inp
     then (fold (\<lambda>slot st. send_message (publishNodeTelemetry (in_telemetryWall inp slot) (sc_siteId cfg) (sc_gatewayId cfg)
              (slot + 1) (samples ! slot) (sv_publisher st)) st) [0..<length samples] st)
            \<lparr>sv_nextTelemetryPublish := in_now inp + secs (sc_telemetryInterval cfg)\<rparr>
     else st)"

definition system_phase :: "service_config \<Rightarrow> turn_input \<Rightarrow> ('w, 'n) service \<Rightarrow> ('w, 'n) service" where
  "system_phase cfg inp st =
     (if sc_systemTelemetryEnabled cfg \<and> mqtt_connected (sv_publisher st) \<and> sv_nextSystemTelemetryPublish st \<le> in_now inp
      then let samples = readSystemTelemetry (in_system inp) (sc_cpuTemperatureEnabled cfg);
               sequence = sv_systemTelemetrySequence st + 1;
               m = publishSystemTelemetry (in_systemWall inp) (sc_siteId cfg) (sc_gatewayId cfg) (sc_bootId cfg) sequence samples (sv_publisher st);
               published = (m \<noteq> None \<and> in_systemPublished inp)
           in (send_message m st)\<lparr>sv_systemTelemetrySequence := sequence,
                sv_output := sv_output st @ [''{'' @ quoted ''system_telemetry_publish'' @ '':'' @ jsonBool published @
                  member ''sequence'' @ show_nat (unat sequence) @ member ''samples'' @ show_nat (length samples) @ ''}''],
                sv_nextSystemTelemetryPublish := in_now inp + secs (sc_systemTelemetryInterval cfg)\<rparr>
      else st)"

definition slot_snapshot :: "turn_input \<Rightarrow> node_telemetry list \<Rightarrow> nat \<Rightarrow> ('w, 'n) service \<Rightarrow> ('w, 'n) service" where
  "slot_snapshot inp samples slot st =
     (case appendSnapshot (in_snapshotWall inp slot) (slot + 1) (samples ! slot) (in_snapshotFiles inp slot) (sv_journal st, sv_files st)
      of (ok, (j, fs)) \<Rightarrow> st\<lparr>sv_journal := j, sv_files := fs,
        sv_output := sv_output st @ (if ok then [] else [''GrideX telemetry journal snapshot write failed''])\<rparr>)"

definition journal_phase :: "service_config \<Rightarrow> turn_input \<Rightarrow> node_telemetry list \<Rightarrow> ('w, 'n) service \<Rightarrow> ('w, 'n) service" where
  "journal_phase cfg inp samples st = (if sv_nextJournalSnapshot st \<le> in_now inp
     then (fold (slot_snapshot inp samples) [0..<length samples] st)\<lparr>sv_nextJournalSnapshot := in_now inp + secs (sc_journalInterval cfg)\<rparr>
     else st)"

definition report_phases :: "('n, 'a) client_net \<Rightarrow> service_config \<Rightarrow> turn_input \<Rightarrow> (nat \<Rightarrow> interference list) \<Rightarrow>
    controller_snapshot \<Rightarrow> node_telemetry list \<Rightarrow> ('w, 'n) service \<Rightarrow> ('w, 'n) service" where
  "report_phases net cfg inp sched s samples =
     interfere net (sched 9) \<circ> journal_phase cfg inp samples \<circ> interfere net (sched 8) \<circ> system_phase cfg inp \<circ>
     interfere net (sched 7) \<circ> telemetry_phase cfg inp samples \<circ> interfere net (sched 6) \<circ> health_phase cfg inp s samples \<circ>
     print_phase s"

definition service_turn :: "'w modbus_client \<Rightarrow> ('n, 'a) client_net \<Rightarrow> service_config \<Rightarrow> turn_input \<Rightarrow> (nat \<Rightarrow> interference list) \<Rightarrow>
    ('w, 'n) service \<Rightarrow> ('w, 'n) service option" where
  "service_turn c net cfg inp sched st0 =
     Option.bind (tick_phase c (in_now inp) (interfere net (sched 1) (command_phase (in_now inp) (interfere net (sched 0) st0)))) (\<lambda>(s, st1).
     Option.bind (operator_phase c (interfere net (sched 2) st1)) (\<lambda>st2.
     Option.bind (publish_phase (sc_configuredLimit cfg) s (interfere net (sched 4) (node_phase net (interfere net (sched 3) st2)))) (\<lambda>st3.
     let st4 = await_samples net (in_worker inp) (interfere net (sched 5) st3); samples = po_samples (sv_polling st4) in
     map_option (report_phases net cfg inp sched s samples)
       (nodes_phase inp samples [0..<length samples] (resize_statuses samples st4)))))"

fun service_run :: "'w modbus_client \<Rightarrow> ('n, 'a) client_net \<Rightarrow> service_config \<Rightarrow> (turn_input \<times> (nat \<Rightarrow> interference list)) list \<Rightarrow>
    ('w, 'n) service \<Rightarrow> ('w, 'n) service option" where
  "service_run c net cfg [] st = Some st"
| "service_run c net cfg ((inp, sched) # turns) st = Option.bind (service_turn c net cfg inp sched st) (service_run c net cfg turns)"

text \<open>\<open>None\<close> if the worker were never to end.\<close>

definition service_stop :: "('n, 'a) client_net \<Rightarrow> (nat \<Rightarrow> worker_input) \<Rightarrow> ('w \<Rightarrow> 'w) \<Rightarrow> ('w, 'n) service \<Rightarrow> ('w, 'n) service option" where
  "service_stop net inps disconnect st = map_option (\<lambda>(w, po, n).
     st\<lparr>sv_worker := w, sv_polling := po, sv_net := n, sv_server := snd (server_stop (sv_server st)), sv_pcs := disconnect (sv_pcs st),
       sv_output := sv_output st @ [''GrideX ROCK Pi E service stopped safely'']\<rparr>)
     (worker_stop net inps (sv_worker st, sv_polling st, sv_net st))"

section \<open>What the other threads and the reports leave alone\<close>

definition plant :: "('w, 'n) service \<Rightarrow> controller \<times> sun_driver \<times> 'w" where
  "plant st = (sv_controller st, sv_driver st, sv_pcs st)"

lemma plant_eq: "plant st' = plant st \<longleftrightarrow>
  sv_controller st' = sv_controller st \<and> sv_driver st' = sv_driver st \<and> sv_pcs st' = sv_pcs st"
  by (simp add: plant_def)

definition service_ok :: "('w, 'n) service \<Rightarrow> bool" where
  "service_ok st \<longleftrightarrow> bank_ok (sv_bank st) \<and> server_ok (sv_server st) \<and> polling_ok (sv_polling st) \<and> worker_ok (sv_worker st) (sv_polling st) \<and> po_running (sv_polling st) \<and>
     list_all (\<lambda>x. nt_actualPowerKw x \<noteq> NaN) (po_samples (sv_polling st)) \<and> ctl_requestedPowerKw (sv_controller st) \<noteq> NaN"

lemma tenth_not_NaN [simp]: "ddiv (Fin x) (Fin 10) \<noteq> NaN"
  by (simp add: rnd_def Let_def)

lemma poll_outcome_power:
  "nt_actualPowerKw x \<noteq> NaN \<Longrightarrow> nt_actualPowerKw (poll_failed status x) \<noteq> NaN" "nt_actualPowerKw (poll_succeeded inp i t h x) \<noteq> NaN"
  by (simp_all add: poll_failed_def poll_succeeded_def store_telemetry_def store_health_def rnd_def Let_def split: option.split)

lemma worker_ok_clients: "length (po_clients sv') = length (po_clients sv) \<Longrightarrow> worker_ok w sv' = worker_ok w sv"
  by (simp add: worker_ok_def split: worker.split)

lemma apply_samples:
  "po_samples (fst (snd (applyPowerCommand net slot p e q ttl (sv, n)))) = po_samples sv \<and>
   (polling_ok sv \<longrightarrow> polling_ok (fst (snd (applyPowerCommand net slot p e q ttl (sv, n))))) \<and>
   length (po_clients (fst (snd (applyPowerCommand net slot p e q ttl (sv, n))))) = length (po_clients sv) \<and>
   po_running (fst (snd (applyPowerCommand net slot p e q ttl (sv, n)))) = po_running sv"
  by (auto simp: applyPowerCommand_def polling_ok_def split: prod.split)

lemma interfere1_plant: "plant (interfere1 net e st) = plant st"
  by (cases e) (simp_all add: plant_def split: prod.split)

lemma interfere1_ok: "service_ok st \<Longrightarrow> service_ok (interfere1 net e st)"
proof (cases e)
  case (EmsPdu pdu)
  assume "service_ok st"
  with EmsPdu only_holding_ok [OF handlePdu_only_holding] show ?thesis by (simp add: service_ok_def)
next
  case (WorkerStep inp)
  assume ok: "service_ok st"
  obtain w po n where r: "worker_step net inp (sv_worker st, sv_polling st, sv_net st) = (w, po, n)" by (metis prod_cases3)
  have "list_all (\<lambda>x. nt_actualPowerKw x \<noteq> NaN) (po_samples po)"
    using ok by (intro worker_step_samples [OF r]) (simp_all add: service_ok_def poll_outcome_power)
  then show ?thesis using ok WorkerStep worker_step_ok [OF r] by (simp add: r service_ok_def)
qed (simp_all add: service_ok_def)

lemma interfere_plant [simp]: "plant (interfere net es st) = plant st"
  unfolding interfere_def by (induction es arbitrary: st) (simp_all add: interfere1_plant)

lemmas interfere_fields [simp] = interfere_plant [unfolded plant_eq, THEN conjunct1]
  interfere_plant [unfolded plant_eq, THEN conjunct2, THEN conjunct1]
  interfere_plant [unfolded plant_eq, THEN conjunct2, THEN conjunct2]

lemma interfere_ok: "service_ok st \<Longrightarrow> service_ok (interfere net es st)"
  unfolding interfere_def by (induction es arbitrary: st) (simp_all add: interfere1_ok)

lemma await_ok: "service_ok st \<Longrightarrow> service_ok (await_samples net inp st)"
  by (simp add: await_samples_def interfere1_ok del: interfere1.simps)

lemma await_plant [simp]: "plant (await_samples net inp st) = plant st"
  by (simp add: await_samples_def interfere1_plant del: interfere1.simps)

lemma node_phase_keeps: "plant (node_phase net st) = plant st \<and> (service_ok st \<longrightarrow> service_ok (node_phase net st))"
proof -
  obtain cmd b where t: "takeNodeCommand (sv_bank st) = (cmd, b)" by fastforce
  have b: "service_ok st \<longrightarrow> bank_ok b" using take_preserves(3) [of "sv_bank st"] t by (simp add: service_ok_def)
  show ?thesis
  proof (cases cmd)
    case None
    with t b show ?thesis by (auto simp: node_phase_def plant_def service_ok_def)
  next
    case (Some x)
    obtain ok po n where a: "(if cmd_authorized x then applyPowerCommand net (cmd_targetSlot x) (cmd_requestedPowerKw x)
        (cmd_enabled x) (cmd_sequence x) (cmd_ttlSeconds x) (sv_polling st, sv_net st)
      else (False, (sv_polling st, sv_net st))) = (ok, (po, n))" by (metis prod_cases3)
    then have "po_samples po = po_samples (sv_polling st) \<and> (polling_ok (sv_polling st) \<longrightarrow> polling_ok po) \<and>
        worker_ok (sv_worker st) po = worker_ok (sv_worker st) (sv_polling st) \<and> po_running po = po_running (sv_polling st)"
      using apply_samples [of net "cmd_targetSlot x" "cmd_requestedPowerKw x" "cmd_enabled x" "cmd_sequence x" "cmd_ttlSeconds x"
          "sv_polling st" "sv_net st"] worker_ok_clients [of po "sv_polling st"] by (auto split: if_splits)
    with b show ?thesis by (auto simp: node_phase_def t Some a plant_def service_ok_def)
  qed
qed

lemma send_message_keeps [simp]:
  "plant (send_message m st) = plant st" "service_ok (send_message m st) = service_ok st"
  by (simp_all add: send_message_def plant_def service_ok_def split: option.split)

lemma fold_keeps:
  assumes "\<And>k x. plant (f k x) = plant x \<and> service_ok (f k x) = service_ok x"
  shows "plant (fold f ks st) = plant st \<and> service_ok (fold f ks st) = service_ok st"
  by (induction ks arbitrary: st) (simp_all add: assms)

lemma slot_keeps:
  "plant (slot_snapshot inp samples slot st) = plant st \<and> service_ok (slot_snapshot inp samples slot st) = service_ok st"
  "plant (slot_transition inp samples slot st) = plant st \<and> service_ok (slot_transition inp samples slot st) = service_ok st"
  by (simp_all add: slot_snapshot_def slot_transition_def plant_def service_ok_def Let_def split: prod.split)

lemma update_keeps [simp]:
  "plant (st\<lparr>sv_nextHealthPublish := t\<rparr>) = plant st" "service_ok (st\<lparr>sv_nextHealthPublish := t\<rparr>) = service_ok st"
  "plant (st\<lparr>sv_nextTelemetryPublish := t\<rparr>) = plant st" "service_ok (st\<lparr>sv_nextTelemetryPublish := t\<rparr>) = service_ok st"
  "plant (st\<lparr>sv_nextJournalSnapshot := t\<rparr>) = plant st" "service_ok (st\<lparr>sv_nextJournalSnapshot := t\<rparr>) = service_ok st"
  "plant (st\<lparr>sv_nextSystemTelemetryPublish := t\<rparr>) = plant st" "service_ok (st\<lparr>sv_nextSystemTelemetryPublish := t\<rparr>) = service_ok st"
  "plant (st\<lparr>sv_systemTelemetrySequence := q\<rparr>) = plant st" "service_ok (st\<lparr>sv_systemTelemetrySequence := q\<rparr>) = service_ok st"
  "plant (st\<lparr>sv_output := out\<rparr>) = plant st" "service_ok (st\<lparr>sv_output := out\<rparr>) = service_ok st"
  "plant (st\<lparr>sv_journalStatuses := js\<rparr>) = plant st" "service_ok (st\<lparr>sv_journalStatuses := js\<rparr>) = service_ok st"
  by (simp_all add: plant_def service_ok_def)

lemma report_keeps:
  "plant (report_phases net cfg inp sched s samples st) = plant st \<and>
   (service_ok st \<longrightarrow> service_ok (report_phases net cfg inp sched s samples st))"
proof -
  have 1: "plant (health_phase cfg inp s samples st) = plant st \<and> service_ok (health_phase cfg inp s samples st) = service_ok st" for st :: "('a, 'b) service"
    by (simp add: health_phase_def)
  have 2: "plant (telemetry_phase cfg inp samples st) = plant st \<and> service_ok (telemetry_phase cfg inp samples st) = service_ok st" for st :: "('a, 'b) service"
    by (simp add: telemetry_phase_def fold_keeps)
  have 3: "plant (system_phase cfg inp st) = plant st \<and> service_ok (system_phase cfg inp st) = service_ok st" for st :: "('a, 'b) service"
    by (simp add: system_phase_def Let_def)
  have 4: "plant (journal_phase cfg inp samples st) = plant st \<and> service_ok (journal_phase cfg inp samples st) = service_ok st" for st :: "('a, 'b) service"
    by (simp add: journal_phase_def fold_keeps slot_keeps)
  have 5: "plant (print_phase s st) = plant st \<and> service_ok (print_phase s st) = service_ok st"
    by (simp add: print_phase_def)
  show ?thesis by (simp add: report_phases_def 1 2 3 4 5 interfere_ok)
qed

lemma nodes_phase_keeps:
  assumes "service_ok st" "list_all (\<lambda>x. nt_actualPowerKw x \<noteq> NaN) samples" "list_all (\<lambda>slot. slot < length samples) slots"
  shows "\<exists>st'. nodes_phase inp samples slots st = Some st' \<and> service_ok st'"
  using assms
proof (induction slots arbitrary: st)
  case (Cons slot slots)
  have "bank_ok (sv_bank st)" "nt_actualPowerKw (samples ! slot) \<noteq> NaN"
    using Cons.prems by (auto simp: service_ok_def list_all_iff)
  then obtain b where b: "publishNode (sv_bank st) slot (samples ! slot) (in_clock inp slot) = Some b" "bank_ok b"
    using publishNode_slot by blast
  then have "service_ok (slot_transition inp samples slot (st\<lparr>sv_bank := b\<rparr>))"
    using Cons.prems(1) by (simp add: slot_keeps) (simp add: service_ok_def)
  from Cons.IH [OF this Cons.prems(2)] Cons.prems(3) b show ?case by simp
qed simp

lemma nodes_phase_plant: "nodes_phase inp samples slots st = Some st' \<Longrightarrow> plant st' = plant st"
proof (induction slots arbitrary: st)
  case (Cons slot slots)
  obtain b where b: "nodes_phase inp samples slots (slot_transition inp samples slot (st\<lparr>sv_bank := b\<rparr>)) = Some st'"
    using Cons.prems by (auto split: option.splits)
  have "plant (st\<lparr>sv_bank := b\<rparr>) = plant st" by (simp add: plant_def)
  with Cons.IH [OF b] show ?case by (simp add: slot_keeps(2))
qed simp

lemma publish_phase_plant: "publish_phase limit s st = Some st' \<Longrightarrow> plant st' = plant st"
  by (auto simp: publish_phase_def plant_def)

section \<open>The phases that drive the PCS\<close>

lemma takeCommand_request: "takeCommand b = (Some y, b') \<Longrightarrow> nc_requestedPowerKw y \<noteq> NaN"
  by (auto simp: takeCommand_def Let_def simp del: ddiv.simps split: if_splits)

lemma command_phase_keeps:
  assumes "service_ok st"
  shows "service_ok (command_phase now st)" "sv_driver (command_phase now st) = sv_driver st"
    "sv_pcs (command_phase now st) = sv_pcs st" "ctl_config (sv_controller (command_phase now st)) = ctl_config (sv_controller st)"
proof -
  obtain x b where t: "takeCommand (sv_bank st) = (x, b)" by fastforce
  have "bank_ok b" using take_preserves(1) [of "sv_bank st"] assms t by (simp add: service_ok_def)
  moreover have "nc_requestedPowerKw y \<noteq> NaN" if "x = Some y" for y
    using takeCommand_request t that by blast
  ultimately have "service_ok (command_phase now st)"
    using assms t by (cases x) (simp_all add: command_phase_def service_ok_def receiveCommand_def)
  then show "service_ok (command_phase now st)" "sv_driver (command_phase now st) = sv_driver st"
    "sv_pcs (command_phase now st) = sv_pcs st" "ctl_config (sv_controller (command_phase now st)) = ctl_config (sv_controller st)"
    using t by (simp_all add: command_phase_def receiveCommand_def split: option.split)
qed

lemma tick_controller:
  "run_state (tick c ctl d now) w = ((s, ctl', d'), w') \<Longrightarrow>
     ctl_requestedPowerKw ctl' = ctl_requestedPowerKw ctl \<and> ctl_config ctl' = ctl_config ctl \<and>
     d' = driver_after_poll d (fst (run_state (poll_reads c) w))"
  by (auto simp: run_tick Let_def heartbeat_step_def split: if_splits)

lemma tick_phase_keeps:
  assumes "service_ok st"
  shows "\<exists>s st'. tick_phase c now st = Some (s, st') \<and> service_ok st' \<and> (\<forall>b l. \<exists>b'. publish b s l = Some b')"
proof -
  obtain x ctl d w where r: "run_state (tick c (sv_controller st) (sv_driver st) now) (sv_pcs st) = ((x, ctl, d), w)"
    by (metis prod_cases4 surj_pair)
  then obtain s where s: "x = Some s" using tick_defined [of c "sv_controller st" "sv_driver st" now "sv_pcs st"] by auto
  have "sn_battery s = poll_value (sv_driver st) (fst (run_state (poll_reads c) (sv_pcs st))) \<and> isfinite (appliedPowerKw (sn_command s))"
    by (rule tick_snapshot_finite [of c "sv_controller st" _ now]) (use r s assms in \<open>simp_all add: service_ok_def\<close>)
  then have "\<exists>b'. publish b s l = Some b'" for b l
    by (intro publish_defined) (simp_all add: isfinite_not_NaN poll_value_finite)
  with r s assms tick_controller [OF r] show ?thesis by (auto simp: tick_phase_def service_ok_def)
qed

lemma writePowerState_defined: "\<exists>ok d'. fst (run_state (writePowerState c d on) w) = (Some ok, d') \<and> d_approval d' = d_approval d"
  by (auto simp: writePowerState_def)

lemma write_defined: "\<exists>ok. fst (run_state (writeSocLimitsPct c d lo up) w) = Some ok"
  "\<exists>ok. fst (run_state (writeReactivePowerSetpointKvar c d q) w) = Some ok"
proof -
  have e: "isfinite v \<Longrightarrow> \<exists>r. encodeSigned v (Fin 1) = Some r" "isfinite v \<Longrightarrow> \<exists>r. encodeSigned v (Fin 10) = Some r" for v
    by (metis encodeSigned_defined isfinite_not_NaN zero_less_one) (metis encodeSigned_defined isfinite_not_NaN zero_less_numeral)
  show "\<exists>ok. fst (run_state (writeReactivePowerSetpointKvar c d q) w) = Some ok"
    using e(2) [of q] by (auto simp: writeReactivePowerSetpointKvar_def split: option.split)
  show "\<exists>ok. fst (run_state (writeSocLimitsPct c d lo up) w) = Some ok"
    using e(1) [of lo] e(1) [of up] by (auto simp: writeSocLimitsPct_def Let_def split: option.split)
qed

lemma optional_defined:
  assumes "\<exists>ok. fst (run_state m w) = Some ok"
  obtains a' w' where "run_state (if h then State_Monad.bind m (\<lambda>r. State_Monad.return (both r (Some a))) else State_Monad.return (Some a)) w = (Some a', w')"
  using assms by (cases h; cases "run_state m w") (auto simp: both_def)

lemma operator_actions_defined:
  "\<exists>ok d'. fst (run_state (operator_actions c d op) w) = (Some ok, d') \<and> d_approval d' = d_approval d"
proof -
  obtain a1 d1 w1 where 1: "run_state (if has_action op A_RunState then writePowerState c d (oc_requestedRunState op = 1)
      else State_Monad.return (Some True, d)) w = ((Some a1, d1), w1)" "d_approval d1 = d_approval d"
    using writePowerState_defined [of c d "oc_requestedRunState op = 1" w]
    by (cases "has_action op A_RunState"; cases "run_state (writePowerState c d (oc_requestedRunState op = 1)) w") auto
  obtain a2 w2 where 2: "run_state (if has_action op A_SocLimits then State_Monad.bind (writeSocLimitsPct c d1 (oc_requestedSocLowerPct op)
      (oc_requestedSocUpperPct op)) (\<lambda>r. State_Monad.return (both r (Some a1))) else State_Monad.return (Some a1)) w1 = (Some a2, w2)"
    by (rule optional_defined [OF write_defined(1)])
  obtain a3 w3 where 3: "run_state (if has_action op A_ReactivePower then State_Monad.bind (writeReactivePowerSetpointKvar c d1
      (oc_requestedReactivePowerKvar op)) (\<lambda>r. State_Monad.return (both r (Some a2))) else State_Monad.return (Some a2)) w2 = (Some a3, w3)"
    by (rule optional_defined [OF write_defined(2)])
  show ?thesis by (simp only: operator_actions_def run_state_bind 1 2 3 prod.case fst_conv snd_conv run_state_return) (simp add: 1(2))
qed

lemma operator_phase_keeps:
  assumes "service_ok st"
  shows "\<exists>st'. operator_phase c st = Some st' \<and> service_ok st' \<and> sv_controller st' = sv_controller st \<and>
    d_approval (sv_driver st') = d_approval (sv_driver st)"
proof -
  obtain x b where t: "takeOperatorCommand (sv_bank st) = (x, b)" by fastforce
  have b: "bank_ok b" using take_preserves(2) [of "sv_bank st"] assms t by (simp add: service_ok_def)
  show ?thesis
  proof (cases x)
    case None
    with t b assms show ?thesis by (simp add: operator_phase_def service_ok_def)
  next
    case (Some op)
    obtain ok d w where r: "run_state (operator_actions c (sv_driver st) op) (sv_pcs st) = ((Some ok, d), w)" "d_approval d = d_approval (sv_driver st)"
      using operator_actions_defined [of c "sv_driver st" op "sv_pcs st"]
      by (cases "run_state (operator_actions c (sv_driver st) op) (sv_pcs st)") auto
    with t b assms Some show ?thesis
      using publish_preserves(3) [OF b] by (simp add: operator_phase_def service_ok_def)
  qed
qed

section \<open>A turn\<close>

text \<open>The intermediate states of a turn.\<close>

lemma service_turn_phases:
  assumes "service_ok st"
  obtains s st1 st2 st4 where
    "tick_phase c (in_now inp) (interfere net (sched 1) (command_phase (in_now inp) (interfere net (sched 0) st))) = Some (s, st1)"
    "operator_phase c (interfere net (sched 2) st1) = Some st2"
    "service_turn c net cfg inp sched st = Some st4" "plant st4 = plant st2" "service_ok st4"
    "service_ok (interfere net (sched 2) st1)"
proof -
  define st0 where "st0 = interfere net (sched 1) (command_phase (in_now inp) (interfere net (sched 0) st))"
  have "service_ok st0" unfolding st0_def by (intro interfere_ok command_phase_keeps(1) assms)
  then obtain s st1 where 1: "tick_phase c (in_now inp) st0 = Some (s, st1)" "service_ok st1" "\<And>b l. \<exists>b'. publish b s l = Some b'"
    using tick_phase_keeps [of st0 c "in_now inp"] by blast
  have ok1: "service_ok (interfere net (sched 2) st1)" by (rule interfere_ok [OF 1(2)])
  then obtain st2 where 2: "operator_phase c (interfere net (sched 2) st1) = Some st2" "service_ok st2"
    using operator_phase_keeps by blast
  define st3 where "st3 = interfere net (sched 4) (node_phase net (interfere net (sched 3) st2))"
  have 3: "service_ok st3" "plant st3 = plant st2"
    unfolding st3_def using interfere_ok node_phase_keeps 2(2) by (blast, simp add: node_phase_keeps)
  obtain b where b: "publish (sv_bank st3) s (sc_configuredLimit cfg) = Some b" using 1(3) by blast
  define st5 where "st5 = await_samples net (in_worker inp) (interfere net (sched 5) (st3\<lparr>sv_bank := b\<rparr>))"
  have p: "plant (st3\<lparr>sv_bank := b\<rparr>) = plant st3" by (simp add: plant_def)
  have "bank_ok b" using publish_preserves(1) [OF _ b] 3(1) by (simp add: service_ok_def)
  then have "service_ok (st3\<lparr>sv_bank := b\<rparr>)" using 3(1) by (simp add: service_ok_def)
  then have 5: "service_ok st5" "plant st5 = plant st2" unfolding st5_def by (simp_all add: await_ok interfere_ok p 3)
  define samples where "samples = po_samples (sv_polling st5)"
  have r: "service_ok (resize_statuses samples st5)" "plant (resize_statuses samples st5) = plant st2"
    using 5 by (simp_all add: resize_statuses_def)
  obtain st6 where 6: "nodes_phase inp samples [0..<length samples] (resize_statuses samples st5) = Some st6" "service_ok st6"
    using nodes_phase_keeps [OF r(1), of samples "[0..<length samples]" inp] 5(1) by (auto simp: samples_def service_ok_def list_all_iff)
  have "service_turn c net cfg inp sched st = Some (report_phases net cfg inp sched s samples st6)"
    using 6(1) by (simp add: service_turn_def st0_def [symmetric] 1(1) 2(1) st3_def [symmetric] publish_phase_def b
        st5_def [symmetric] samples_def [symmetric] Let_def del: One_nat_def)
  with report_keeps [of net cfg inp sched s samples st6] nodes_phase_plant [OF 6(1)] r(2) 6(2) 1(1) 2(1) ok1 that show ?thesis
    by (simp add: st0_def)
qed

section \<open>Writes of a turn\<close>

text \<open>
  The operator's writes, bit for bit the registers of the request in the bank \<open>b\<close> it was taken from.
\<close>

definition operator_write :: "bank \<Rightarrow> reg_write \<Rightarrow> bool" where
  "operator_write b = (\<lambda>(a, v). let h = bk_holding b; has = (\<lambda>action. h ! H_OperatorActionMask AND action \<noteq> 0) in
     (has A_RunState \<and> h ! H_RequestedRunState \<le> 1 \<and>
        (a = R_PcsPowerOn \<and> v = h ! H_RequestedRunState \<or> a = R_PcsPowerCommand \<and> v = 0 \<and> h ! H_RequestedRunState = 0)) \<or>
     (has A_SocLimits \<and> h ! H_RequestedSocLowerPct < h ! H_RequestedSocUpperPct \<and> h ! H_RequestedSocUpperPct \<le> 100 \<and>
        (a = R_PcsSocUpperLimit \<and> v = h ! H_RequestedSocUpperPct \<or> a = R_PcsSocLowerLimit \<and> v = h ! H_RequestedSocLowerPct)) \<or>
     (has A_ReactivePower \<and> a = R_PcsReactivePowerCommand \<and> v = h ! H_RequestedReactivePowerKvarX10))"

lemma pct_guard: "\<not> (l < u \<and> u \<le> 100) \<Longrightarrow> dlt (Fin 100) (Fin (of_nat u)) \<or> dle (Fin (of_nat u)) (Fin (of_nat l))"
  using of_nat_less_iff [of 100 u, where 'a = rat] by auto

context write_monitor
begin

lemma powerState_writes:
  "writes_only lg (\<lambda>(a, v). a = R_PcsPowerOn \<and> v = (if on then 1 else 0) \<or> a = R_PcsPowerCommand \<and> v = 0 \<and> \<not> on) (writePowerState c d on)"
  unfolding writePowerState_def by (auto intro!: monitor)

lemma socLimits_writes:
  "writes_only lg (\<lambda>(a, v). unat lo < unat up \<and> unat up \<le> 100 \<and> (a = R_PcsSocUpperLimit \<and> v = up \<or> a = R_PcsSocLowerLimit \<and> v = lo))
     (writeSocLimitsPct c d (Fin (of_nat (unat lo))) (Fin (of_nat (unat up))))" (is "writes_only lg ?P _")
proof (cases "unat lo < unat up \<and> unat up \<le> 100")
  case True
  have e: "encodeSigned (Fin (of_nat (unat x))) (Fin 1) = Some x" if "unat x \<le> 100" for x :: u16
  proof -
    have "int (unat x) \<le> 100" using that by linarith
    with encode_pct [of "int (unat x)"] show ?thesis by simp
  qed
  have "unat lo \<le> 100" "unat up \<le> 100" using True by linarith+
  note this [THEN e]
  moreover have "writes_only lg ?P (write_when c b a v)" if "(a = R_PcsSocUpperLimit \<and> v = up) \<or> (a = R_PcsSocLowerLimit \<and> v = lo)" for b a v
    using True that by (auto simp: write_when_def intro!: monitor)
  ultimately show ?thesis
    unfolding writeSocLimitsPct_def by (auto intro!: monitor simp: Let_def split: option.split)
next
  case False
  from pct_guard [OF this] show ?thesis by (simp add: writeSocLimitsPct_def)
qed

lemma reactive_writes:
  "writes_only lg (\<lambda>(a, v). a = R_PcsReactivePowerCommand \<and> v = raw)
     (writeReactivePowerSetpointKvar c d (ddiv (Fin (of_int (sint raw))) (Fin 10)))"
  using encode_decode [of 10 raw] unfolding writeReactivePowerSetpointKvar_def decodeSigned_def
  by (auto intro!: monitor split: option.split)

lemma operator_actions_writes:
  assumes "takeOperatorCommand b = (Some op, b')" "operator_valid op"
  shows "writes_only lg (operator_write b) (operator_actions c d op)"
proof -
  define h where "h = bk_holding b"
  have op: "oc_actionMask op = h ! H_OperatorActionMask" "oc_requestedRunState op = h ! H_RequestedRunState"
    "oc_requestedReactivePowerKvar op = ddiv (Fin (of_int (sint (h ! H_RequestedReactivePowerKvarX10)))) (Fin 10)"
    "oc_requestedSocUpperPct op = Fin (of_nat (unat (h ! H_RequestedSocUpperPct)))"
    "oc_requestedSocLowerPct op = Fin (of_nat (unat (h ! H_RequestedSocLowerPct)))"
    using assms(1) by (auto simp: takeOperatorCommand_def h_def Let_def simp del: ddiv.simps split: if_splits)
  have "writes_only lg (operator_write b) (writePowerState c d' (oc_requestedRunState op = 1))" if "has_action op A_RunState" for d'
  proof (rule writes_only_weaken [OF powerState_writes])
    have "h ! H_RequestedRunState \<le> 1" using assms(2) that by (auto simp: operator_valid_def op)
    then have "h ! H_RequestedRunState = 0 \<or> h ! H_RequestedRunState = 1" by (metis le_less word_less_1 order_class.order_eq_iff)
    then show "operator_write b x" if "case x of (a, v) \<Rightarrow> a = R_PcsPowerOn \<and> v = (if oc_requestedRunState op = 1 then 1 else 0) \<or>
        a = R_PcsPowerCommand \<and> v = 0 \<and> \<not> oc_requestedRunState op = 1" for x
      using \<open>has_action op A_RunState\<close> that by (auto simp: operator_write_def has_action_def op h_def [symmetric] Let_def split: prod.splits)
  qed
  moreover have "writes_only lg (operator_write b) (writeSocLimitsPct c d' (oc_requestedSocLowerPct op) (oc_requestedSocUpperPct op))"
    if "has_action op A_SocLimits" for d'
    unfolding op using that
    by (intro writes_only_weaken [OF socLimits_writes])
      (auto simp: operator_write_def has_action_def op h_def [symmetric] Let_def word_less_nat_alt word_le_nat_alt)
  moreover have "writes_only lg (operator_write b) (writeReactivePowerSetpointKvar c d' (oc_requestedReactivePowerKvar op))"
    if "has_action op A_ReactivePower" for d'
    unfolding op using that
    by (intro writes_only_weaken [OF reactive_writes])
      (auto simp: operator_write_def has_action_def op h_def [symmetric] Let_def)
  ultimately show ?thesis unfolding operator_actions_def by (auto intro!: monitor split: prod.split)
qed

end

lemma operator_phase_writes:
  assumes "operator_phase (recording c) st = Some st'"
  shows "\<exists>os. snd (sv_pcs st') = snd (sv_pcs st) @ os \<and> list_all (operator_write (sv_bank st)) os \<and>
    (os \<noteq> [] \<longrightarrow> (\<exists>op. fst (takeOperatorCommand (sv_bank st)) = Some op \<and> oc_authorized op \<and> operator_valid op \<and> writesEnabled (sv_driver st)))"
proof -
  obtain x b where t: "takeOperatorCommand (sv_bank st) = (x, b)" by fastforce
  show ?thesis
  proof (cases "\<exists>op. x = Some op \<and> oc_authorized op \<and> operator_valid op")
    case True
    then obtain op where op: "x = Some op" "oc_authorized op" "operator_valid op" by blast
    obtain os where os: "snd (snd (run_state (operator_actions (recording c) (sv_driver st) op) (sv_pcs st))) = snd (sv_pcs st) @ os"
      "list_all (operator_write (sv_bank st)) os"
      using t op by (auto elim: writes_onlyD [OF rec.operator_actions_writes])
    have "os = []" if "\<not> writesEnabled (sv_driver st)"
      using os(1) that by (simp add: operator_actions_def writePowerState_def writeSocLimitsPct_def writeReactivePowerSetpointKvar_def both_def
          split: if_splits)
    moreover have "sv_pcs st' = snd (run_state (operator_actions (recording c) (sv_driver st) op) (sv_pcs st))"
      using assms t op by (auto simp: operator_phase_def case_prod_beta)
    ultimately show ?thesis using os t op by auto
  next
    case False
    with assms t show ?thesis by (auto simp: operator_phase_def split: option.splits if_splits)
  qed
qed

lemma service_start_ok:
  assumes "service_start getenv files mr lr clocks w n fs = Some st"
  shows "service_ok st"
proof -
  have "list_all (\<lambda>x. nt_actualPowerKw x \<noteq> NaN) (po_samples (new_polling g))" for g
    by (auto simp: new_polling_def default_node_telemetry_def list_all_iff Let_def)
  moreover have "polling_ok (polling_start (new_polling g))" "po_running (polling_start p)" "po_samples (polling_start p) = po_samples p" for g p
    by (auto simp: polling_ok_def polling_start_def new_polling_def default_node_telemetry_def Let_def)
  moreover have "server_ok server" if "server_start lr new_server = (started, fds, server)" for started fds server
    using server_lifecycle(2) [OF server_lifecycle(1), of lr] that by simp
  ultimately show ?thesis
    using assms new_bank_ok by (auto simp: worker_ok_def service_start_def service_ok_def new_controller_def Let_def split: prod.splits if_splits)
qed

section \<open>Properties\<close>

text \<open>
  Property C35 (type). The service never runs into an undefined conversion: from start-up, through any
  number of turns with any PCS, nodes, files and clocks and any interleaving with the server threads,
  the polling worker and the broker connection, every turn completes, with the bank and the samples
  well formed and no command or measurement that is not a number.
\<close>

theorem service_always_defined:
  assumes "service_start getenv files mr lr clocks w n fs = Some st"
  shows "\<exists>st'. service_run c net (service_environment getenv) turns st = Some st' \<and> service_ok st'"
proof -
  have "service_ok st" by (rule service_start_ok [OF assms])
  then show ?thesis
  proof (induction turns arbitrary: st)
    case (Cons t turns)
    obtain inp sched where t: "t = (inp, sched)" by fastforce
    obtain st1 where "service_turn c net (service_environment getenv) inp sched st = Some st1" "service_ok st1"
      by (rule service_turn_phases [OF Cons.prems])
    with Cons.IH t show ?case by simp
  qed simp
qed

text \<open>A bench: an approved gateway with one node, whose EMS writes a command before the first phase.\<close>

definition bench_environ :: environ where
  "bench_environ name = (if name \<in> {''GRIDEX_APPROVE_ADDRESSING'', ''GRIDEX_APPROVE_POWER_SIGN'', ''GRIDEX_APPROVE_SCALING''} then Some ''1''
     else if name = ''GRIDEX_NODE_ENDPOINTS'' then Some ''node-1:1502,'' else None)"

definition working_files :: journal_env where
  "working_files = \<lparr>je_mkdirOk = True, je_statError = False, je_removeOk = True, je_renameOk = True, je_openOk = True, je_written = 100, je_fsyncOk = True\<rparr>"

definition bench_worker :: worker_input where
  "bench_worker = \<lparr>wi_steady = 0, wi_system = 0, wi_elapsed = True\<rparr>"

definition bench_turn :: turn_input where
  "bench_turn = \<lparr>in_now = 0, in_clock = (\<lambda>_. 0), in_healthWall = 0, in_telemetryWall = (\<lambda>_. 0), in_systemWall = 0,
     in_transitionWall = (\<lambda>_. 0), in_snapshotWall = (\<lambda>_. 0), in_transitionFiles = (\<lambda>_. working_files), in_snapshotFiles = (\<lambda>_. working_files),
     in_cpuTemperature = Some ''45000'', in_system = \<lparr>sf_cpuTemperature = Some ''45000'', sf_uptime = None, sf_load1 = None, sf_meminfo = [],
       sf_spaceAvailable = None, sf_journalSize = None\<rparr>, in_systemPublished = True, in_worker = bench_worker\<rparr>"

definition bench_schedule :: "nat \<Rightarrow> interference list" where
  "bench_schedule k = (if k = 0 then [EmsPdu [0x06, 0, 2, 0, 1], WorkerStep bench_worker, WorkerStep bench_worker] else [BrokerConnect 0])"

definition bench_listen :: listen_results where
  "bench_listen = \<lparr>lr_socket = 5, lr_addressValid = True, lr_bound = True, lr_listening = True\<rparr>"

lemma bench_server [simp]:
  "server_start bench_listen new_server = (True, [], \<lparr>nb_running = True, nb_listenFd = 5, nb_worker = True\<rparr>)"
  by (simp add: server_start_def bench_listen_def new_server_def)

definition bench_start :: "environ \<Rightarrow> (bench \<times> reg_write list, mbus_node loop) service" where
  "bench_start getenv = the (service_start getenv (\<lambda>_. None) bench_results bench_listen (0, 0, 0, 0) (healthy_bench, []) node_loop \<lparr>jf_current = None, jf_prior = None\<rparr>)"

lemma bench_start_Some:
  "service_start getenv (\<lambda>_. None) bench_results bench_listen (0, 0, 0, 0) (healthy_bench, []) node_loop \<lparr>jf_current = None, jf_prior = None\<rparr> =
     Some (bench_start getenv)"
  by (simp add: bench_start_def service_start_def Let_def)

definition node_net :: "(mbus_node loop, unit) client_net" where
  "node_net = loop_net (eth_handle \<lparr>ec_port = 1502, ec_unitId = 1, ec_rockPiAddress = 0\<rparr>)"

theorem service_always_defined_witness:
  "\<exists>st'. service_run (recording bench_client) node_net (service_environment bench_environ)
     [(bench_turn, bench_schedule), (bench_turn\<lparr>in_now := 1000000000\<rparr>, bench_schedule)] (bench_start bench_environ) = Some st' \<and> service_ok st'"
  by (rule service_always_defined [OF bench_start_Some])

lemma tick_phase_writes:
  assumes "tick_phase (recording c) now st = Some (s, st')"
  shows "(\<exists>ws. snd (sv_pcs st') = snd (sv_pcs st) @ ws \<and>
      list_all (tick_write (ctl_config (sv_controller st)) (fst (run_state (poll_reads c) (fst (sv_pcs st))))) ws \<and>
      (\<not> writesEnabled (sv_driver st) \<longrightarrow> ws = [])) \<and>
    d_approval (sv_driver st') = d_approval (sv_driver st) \<and> ctl_config (sv_controller st') = ctl_config (sv_controller st)"
proof -
  obtain x ctl d w where r: "run_state (tick (recording c) (sv_controller st) (sv_driver st) now) (sv_pcs st) = ((x, ctl, d), w)"
    by (metis prod_cases4 surj_pair)
  have st': "st' = st\<lparr>sv_controller := ctl, sv_driver := d, sv_pcs := w\<rparr>" using assms r by (auto simp: tick_phase_def)
  obtain ws where ws: "snd w = snd (sv_pcs st) @ ws"
      "list_all (tick_write (ctl_config (sv_controller st)) (fst (run_state (poll_reads c) (fst (sv_pcs st))))) ws"
    using rec.tick_write_appends [of "sv_controller st" c "sv_pcs st" "sv_driver st" now] r by (auto simp: appends_def)
  have q: "snd (snd (run_state (poll_reads (recording c)) (sv_pcs st))) = snd (sv_pcs st)"
    using writes_only_none [OF rec.poll_quiet [where c = c and d = "sv_driver st"], of "sv_pcs st"] by (simp add: poll_def)
  have "ws = []" if "\<not> writesEnabled (sv_driver st)"
  proof -
    have "snd w = snd (sv_pcs st)"
      using arg_cong [OF r, of snd] that q by (simp add: run_tick Let_def tick_finish_def heartbeat_step_def refreshHeartbeat_def split: if_splits)
    with ws(1) show ?thesis by simp
  qed
  with ws st' tick_controller [OF r] show ?thesis by simp
qed

lemma turn_writes:
  assumes "service_ok st"
  shows "\<exists>s st1 st'. service_turn (recording c) net cfg inp sched st = Some st' \<and>
    tick_phase (recording c) (in_now inp) (interfere net (sched 1) (command_phase (in_now inp) (interfere net (sched 0) st))) = Some (s, st1) \<and>
    (let b = sv_bank (interfere net (sched 2) st1); polled = fst (run_state (poll_reads c) (fst (sv_pcs st))) in
     \<exists>ws os. snd (sv_pcs st') = snd (sv_pcs st) @ ws @ os \<and> list_all (tick_write (ctl_config (sv_controller st)) polled) ws \<and>
       list_all (operator_write b) os \<and> (writesEnabled (sv_driver st) \<or> ws @ os = []) \<and>
       (os = [] \<or> (\<exists>op. fst (takeOperatorCommand b) = Some op \<and> oc_authorized op \<and> operator_valid op)))"
proof -
  define st0 where "st0 = interfere net (sched 1) (command_phase (in_now inp) (interfere net (sched 0) st))"
  have i: "service_ok (interfere net (sched 0) st)" by (rule interfere_ok [OF assms])
  have 0: "sv_pcs st0 = sv_pcs st" "sv_driver st0 = sv_driver st" "ctl_config (sv_controller st0) = ctl_config (sv_controller st)"
    using command_phase_keeps [OF i, of "in_now inp"] by (simp_all add: st0_def)
  obtain s st1 st2 st' where p: "tick_phase (recording c) (in_now inp) st0 = Some (s, st1)"
      "operator_phase (recording c) (interfere net (sched 2) st1) = Some st2"
      "service_turn (recording c) net cfg inp sched st = Some st'" "plant st' = plant st2"
    unfolding st0_def by (rule service_turn_phases [OF assms])
  obtain ws where ws: "snd (sv_pcs st1) = snd (sv_pcs st) @ ws"
      "list_all (tick_write (ctl_config (sv_controller st)) (fst (run_state (poll_reads c) (fst (sv_pcs st))))) ws"
      "\<not> writesEnabled (sv_driver st) \<Longrightarrow> ws = []" "d_approval (sv_driver st1) = d_approval (sv_driver st)"
    using tick_phase_writes [OF p(1)] 0 by auto
  define b where "b = sv_bank (interfere net (sched 2) st1)"
  obtain os where os: "snd (sv_pcs st2) = snd (sv_pcs st1) @ os" "list_all (operator_write b) os"
      "os \<noteq> [] \<Longrightarrow> \<exists>op. fst (takeOperatorCommand b) = Some op \<and> oc_authorized op \<and> operator_valid op \<and> writesEnabled (sv_driver st1)"
    using operator_phase_writes [OF p(2)] by (auto simp: b_def)
  have e: "writesEnabled (sv_driver st1) = writesEnabled (sv_driver st)" by (simp add: writesEnabled_def ws(4))
  have "snd (sv_pcs st') = snd (sv_pcs st) @ ws @ os" using p(4) os(1) ws(1) by (simp add: plant_def)
  moreover have "writesEnabled (sv_driver st) \<or> ws @ os = []" using ws(3) os(3) e by auto
  moreover have "os = [] \<or> (\<exists>op. fst (takeOperatorCommand b) = Some op \<and> oc_authorized op \<and> operator_valid op)" using os(3) by blast
  ultimately show ?thesis
    using p(1,3) ws(2) os(2) unfolding st0_def [symmetric] Let_def b_def by blast
qed

lemma turn_keeps:
  assumes "service_ok st" "service_turn (recording c) net cfg inp sched st = Some st'"
  shows "service_ok st' \<and> d_approval (sv_driver st') = d_approval (sv_driver st)"
proof -
  obtain s st1 st2 where p:
      "tick_phase (recording c) (in_now inp) (interfere net (sched 1) (command_phase (in_now inp) (interfere net (sched 0) st))) = Some (s, st1)"
      "operator_phase (recording c) (interfere net (sched 2) st1) = Some st2" "plant st' = plant st2" "service_ok st'"
      "service_ok (interfere net (sched 2) st1)"
    by (rule service_turn_phases [OF assms(1), of "recording c" inp net sched cfg]) (use assms(2) in auto)
  have "d_approval (sv_driver st2) = d_approval (sv_driver st1)"
    using operator_phase_keeps [OF p(5), of "recording c"] p(2) by auto
  moreover have "d_approval (sv_driver st1) = d_approval (sv_driver st)"
    using tick_phase_writes [OF p(1)] command_phase_keeps [OF interfere_ok [OF assms(1)], of "in_now inp" net "sched 0"] by simp
  ultimately show ?thesis using p(3,4) by (simp add: plant_def)
qed

text \<open>
  Property C6 (safety). What a turn of the service can write to the PCS: on any transport and under any
  interleaving the writes of a turn are those of its tick (watchdog, or a power command inside the
  limits the same tick polled) followed by those of an operator command. The latter are empty unless
  the bank held a new operator sequence with the apply key, a valid action mask and run state and
  writing is approved, and they are bit for bit the registers of the request: start or stop (with a
  zero power command before a stop), an ordered SOC window up to 100 percent, or reactive power.
\<close>

theorem service_writes_confined:
  assumes "service_ok st"
  shows "\<exists>s st1 st'. service_turn (recording c) net cfg inp sched st = Some st' \<and>
    tick_phase (recording c) (in_now inp) (interfere net (sched 1) (command_phase (in_now inp) (interfere net (sched 0) st))) = Some (s, st1) \<and>
    (let b = sv_bank (interfere net (sched 2) st1); polled = fst (run_state (poll_reads c) (fst (sv_pcs st))) in
     \<exists>ws os. snd (sv_pcs st') = snd (sv_pcs st) @ ws @ os \<and> list_all (tick_write (ctl_config (sv_controller st)) polled) ws \<and>
       list_all (operator_write b) os \<and> (writesEnabled (sv_driver st) \<or> ws @ os = []) \<and>
       (os = [] \<or> (\<exists>op. fst (takeOperatorCommand b) = Some op \<and> oc_authorized op \<and> operator_valid op)))"
  using assms by (rule turn_writes)

lemma bench_start_ok: "service_ok (bench_start getenv)"
  by (rule service_start_ok [OF bench_start_Some])

theorem service_writes_confined_witness:
  "\<exists>st' ws os. service_turn (recording bench_client) node_net (service_environment bench_environ) bench_turn bench_schedule (bench_start bench_environ) = Some st' \<and>
     snd (sv_pcs st') = ws @ os \<and> list_all (tick_write (ctl_config (sv_controller (bench_start bench_environ))) healthy_raw) ws"
proof -
  have "sv_pcs (bench_start bench_environ) = (healthy_bench, [])" by (simp add: bench_start_def service_start_def Let_def)
  then show ?thesis
    using service_writes_confined [OF bench_start_ok [of bench_environ], of bench_client node_net "service_environment bench_environ" bench_turn bench_schedule]
    by (fastforce simp: Let_def)
qed

text \<open>
  Property C4 (safety). An unapproved gateway never touches the PCS: when one of the three approval
  variables is not an affirmative word, then from start-up, through any number of turns, any EMS
  requests (operator and node commands included), any transport and any interleaving, not a single
  register write is attempted.
\<close>

theorem unapproved_service_never_writes:
  assumes "\<not> list_all (\<lambda>name. getenv name \<in> {Some ''1'', Some ''true'', Some ''yes''})
      [''GRIDEX_APPROVE_ADDRESSING'', ''GRIDEX_APPROVE_POWER_SIGN'', ''GRIDEX_APPROVE_SCALING'']"
    and "service_start getenv files mr lr clocks (w, []) n fs = Some st"
    and "service_run (recording c) net cfg turns st = Some st'"
  shows "snd (sv_pcs st') = []"
proof -
  have "service_ok st" by (rule service_start_ok [OF assms(2)])
  moreover have "\<not> approval_writesEnabled (commissioning getenv)"
    using assms(1) approval_environment [of getenv] by simp
  then have "\<not> writesEnabled (sv_driver st)" "snd (sv_pcs st) = []"
    using assms(2) by (auto simp: service_start_def writesEnabled_def new_driver_def Let_def split: prod.splits if_splits)
  ultimately show ?thesis using assms(3)
  proof (induction turns arbitrary: st)
    case (Cons t turns)
    obtain inp sched where t: "t = (inp, sched)" by fastforce
    obtain st1 where st1: "service_turn (recording c) net cfg inp sched st = Some st1" "service_run (recording c) net cfg turns st1 = Some st'"
      using Cons.prems(4) t by (auto simp: bind_eq_Some_conv)
    have "service_ok st1" "\<not> writesEnabled (sv_driver st1)"
      using turn_keeps [OF Cons.prems(1) st1(1)] Cons.prems(2) by (simp_all add: writesEnabled_def)
    moreover have "snd (sv_pcs st1) = []"
      using turn_writes [OF Cons.prems(1), of c net cfg inp sched] st1(1) Cons.prems(2,3) by (auto simp: Let_def)
    ultimately show ?case using Cons.IH st1(2) by blast
  qed simp
qed

theorem unapproved_service_never_writes_witness:
  "\<exists>st'. service_run (recording bench_client) node_net (service_environment (\<lambda>_. None)) [(bench_turn, bench_schedule)] (bench_start (\<lambda>_. None)) = Some st' \<and>
     snd (sv_pcs st') = []"
proof -
  obtain st' where r: "service_turn (recording bench_client) node_net (service_environment (\<lambda>_. None)) bench_turn bench_schedule (bench_start (\<lambda>_. None)) = Some st'"
    by (rule service_turn_phases [OF bench_start_ok [of "\<lambda>_. None"]])
  then have run: "service_run (recording bench_client) node_net (service_environment (\<lambda>_. None)) [(bench_turn, bench_schedule)] (bench_start (\<lambda>_. None)) = Some st'"
    by simp
  with unapproved_service_never_writes [OF _ bench_start_Some run] show ?thesis by simp
qed

text \<open>What the loop over the nodes does to the remembered statuses and to the journal.\<close>

definition status_changed :: "node_telemetry list \<Rightarrow> node_poll_status list \<Rightarrow> nat \<Rightarrow> bool" where
  "status_changed samples statuses slot \<longleftrightarrow> nt_pollStatus (samples ! slot) \<noteq> statuses ! slot"

definition record_transition :: "turn_input \<Rightarrow> node_telemetry list \<Rightarrow> node_poll_status list \<Rightarrow> nat \<Rightarrow> journal \<times> journal_files \<Rightarrow> journal \<times> journal_files" where
  "record_transition inp samples statuses slot jf =
     snd (appendTransition (in_transitionWall inp slot) (slot + 1) (samples ! slot) (statuses ! slot) (in_transitionFiles inp slot) jf)"

lemma slot_transition_effect:
  assumes "slot < length (sv_journalStatuses st)"
  shows "sv_journalStatuses (slot_transition inp samples slot st) = (sv_journalStatuses st)[slot := nt_pollStatus (samples ! slot)]"
    "(sv_journal (slot_transition inp samples slot st), sv_files (slot_transition inp samples slot st)) =
      (if status_changed samples (sv_journalStatuses st) slot then record_transition inp samples (sv_journalStatuses st) slot (sv_journal st, sv_files st)
       else (sv_journal st, sv_files st))"
  using assms by (auto simp: slot_transition_def status_changed_def record_transition_def Let_def split: prod.split)

lemma nodes_phase_journal:
  assumes "nodes_phase inp samples slots st = Some st'" "distinct slots" "list_all (\<lambda>slot. slot < length (sv_journalStatuses st)) slots"
  shows "sv_journalStatuses st' = fold (\<lambda>slot xs. xs[slot := nt_pollStatus (samples ! slot)]) slots (sv_journalStatuses st) \<and>
    (sv_journal st', sv_files st') = fold (record_transition inp samples (sv_journalStatuses st))
      (filter (status_changed samples (sv_journalStatuses st)) slots) (sv_journal st, sv_files st)"
  using assms
proof (induction slots arbitrary: st)
  case (Cons slot slots)
  obtain b where b: "nodes_phase inp samples slots (slot_transition inp samples slot (st\<lparr>sv_bank := b\<rparr>)) = Some st'"
    using Cons.prems(1) by (auto split: option.splits)
  define old where "old = sv_journalStatuses st"
  define st1 where "st1 = slot_transition inp samples slot (st\<lparr>sv_bank := b\<rparr>)"
  have slot: "slot < length old" "slot \<notin> set slots" using Cons.prems(2,3) by (simp_all add: old_def)
  have st1: "sv_journalStatuses st1 = old[slot := nt_pollStatus (samples ! slot)]"
    "(sv_journal st1, sv_files st1) = (if status_changed samples old slot then record_transition inp samples old slot (sv_journal st, sv_files st)
      else (sv_journal st, sv_files st))"
    using slot_transition_effect [of slot "st\<lparr>sv_bank := b\<rparr>" inp samples] slot(1) by (simp_all add: st1_def old_def)
  have same: "status_changed samples (sv_journalStatuses st1) x = status_changed samples old x"
    "record_transition inp samples (sv_journalStatuses st1) x = record_transition inp samples old x" if "x \<in> set slots" for x
  proof -
    have "sv_journalStatuses st1 ! x = old ! x" using that slot(2) by (metis st1(1) nth_list_update_neq)
    then show "status_changed samples (sv_journalStatuses st1) x = status_changed samples old x"
      "record_transition inp samples (sv_journalStatuses st1) x = record_transition inp samples old x"
      by (simp_all add: status_changed_def record_transition_def fun_eq_iff)
  qed
  have "list_all (\<lambda>slot. slot < length (sv_journalStatuses st1)) slots" using Cons.prems(3) by (simp add: st1(1) old_def)
  note ih = Cons.IH [OF b [folded st1_def] _ this]
  have f: "filter (status_changed samples (sv_journalStatuses st1)) slots = filter (status_changed samples old) slots"
    using same(1) by (rule filter_cong [OF refl])
  have "fold (record_transition inp samples (sv_journalStatuses st1)) (filter (status_changed samples old) slots) jf =
      fold (record_transition inp samples old) (filter (status_changed samples old) slots) jf" for jf
    using same(2) by (intro fold_cong) auto
  then show ?case using ih Cons.prems(2) f st1 by (simp add: old_def)
qed simp

lemma fold_update_upt: "n \<le> length xs \<Longrightarrow> fold (\<lambda>i xs. xs[i := f i]) [0..<n] xs = map f [0..<n] @ drop n xs"
proof (induction n)
  case (Suc n)
  then have "drop n xs = xs ! n # drop (Suc n) xs" by (simp add: Cons_nth_drop_Suc)
  then show ?case using Suc by (simp add: list_update_append)
qed simp

text \<open>
  Every change of a node's poll status is journalled, once, and nothing else is: the
  loop over the nodes appends one transition record for exactly the slots whose status differs from
  the remembered one, in the order of the slots and each with the status remembered when the turn
  began, and remembers the new status of every node, whether the append succeeded or not.
\<close>

lemma transitions_recorded:
  assumes "nodes_phase inp samples [0..<length samples] st = Some st'" "length (sv_journalStatuses st) = length samples"
  shows "sv_journalStatuses st' = map nt_pollStatus samples \<and>
    (sv_journal st', sv_files st') = fold (record_transition inp samples (sv_journalStatuses st))
      (filter (status_changed samples (sv_journalStatuses st)) [0..<length samples]) (sv_journal st, sv_files st)"
proof -
  have "map (\<lambda>slot. nt_pollStatus (samples ! slot)) [0..<length samples] = map nt_pollStatus samples" by (rule nth_equalityI) simp_all
  then show ?thesis
    using nodes_phase_journal [OF assms(1)] fold_update_upt [of "length samples" "sv_journalStatuses st"] assms(2)
    by (simp add: list_all_iff)
qed



end
