(* ===== verification/Spec2Isabelle.thy ===== *)
theory Spec2Isabelle
  imports NodeMain UpdatePath ServiceLoop
begin

text \<open>
  \<^bold>\<open>Verification of the GrideX edge gateway.\<close>

  The repository holds two programs and a tool. The gateway service on a ROCK Pi E board controls one
  battery inverter (PCS) over Modbus TCP on behalf of an energy management system (EMS), which talks to
  the gateway over Modbus TCP as well, and relays commands and telemetry of up to 32 field nodes. The
  field node is firmware for an ESP32 board that stands before one device. The tool uploads new firmware
  from the gateway to a node. This development models all three in the order data flows through them,
  and proves what an operator relies on: power stays within the limits the battery reports, commands
  arrive unchanged, expire and never act without approval, and only verified firmware boots.

  \<^bold>\<open>Shared layer.\<close> \<^verbatim>\<open>Prelude\<close> has the word types, bytes, lists, the state monad and the rule
  collections. \<^verbatim>\<open>Float64\<close> is binary64 arithmetic: finite values are rationals, every operation
  rounds to nearest even (\<^verbatim>\<open>rnd\<close>), infinities and NaN are explicit, and a conversion that is
  undefined in C++ has no value; the sign of a zero is not kept. \<^verbatim>\<open>Texts\<close> has what is used of the
  C++ text library. \<^verbatim>\<open>Sockets\<close> states the socket interface and, as the locale \<open>byte_stream\<close>, what
  TCP promises: bytes in order, in pieces of any size, with interruptions.

  \<^bold>\<open>Gateway core\<close> (\<^verbatim>\<open>include/gridex\<close>, \<^verbatim>\<open>src\<close>). \<^verbatim>\<open>SafetyEnvelope\<close> is the clamp of
  \<^verbatim>\<open>SafetyEnvelope.cpp\<close> with the types of \<^verbatim>\<open>Types.hpp\<close>. \<^verbatim>\<open>ModbusClient\<close> is the transport interface
  \<^verbatim>\<open>IModbusClient.hpp\<close> with the locale \<open>write_monitor\<close>: the contract of a transport whose write
  attempts are logged, in which the safety lemmas of the driver and the controller are proved once.
  \<^verbatim>\<open>SunStorage\<close> is the vendor driver \<^verbatim>\<open>SunStoragePro261Driver.cpp\<close>, \<^verbatim>\<open>EdgeController\<close> the
  control loop \<^verbatim>\<open>EdgeController.cpp\<close>.

  \<^bold>\<open>Gateway services\<close> (\<^verbatim>\<open>base-rockpie\<close>). \<^verbatim>\<open>RegisterBank\<close> is the register image the EMS sees
  (\<^verbatim>\<open>NorthboundRegisterBank.cpp\<close>, \<^verbatim>\<open>NorthboundMap.hpp\<close>), \<^verbatim>\<open>NorthboundServer\<close> its Modbus TCP
  server. \<^verbatim>\<open>ModbusTcp\<close> has the frames both sides share, \<^verbatim>\<open>PosixClient\<close> the client
  \<^verbatim>\<open>PosixModbusTcpClient.cpp\<close>; its locale \<open>register_server\<close> composes it with any frame server and is
  interpreted for the gateway's own server and for the node's. \<^verbatim>\<open>NodePolling\<close> polls and commands the
  nodes (\<^verbatim>\<open>NodeTcpPollingService.cpp\<close>), \<^verbatim>\<open>PollingWorker\<close> is its thread as a state machine that makes one
  transaction per step, with the lemmas that its steps compose to the polls and that it can be
  stopped. \<^verbatim>\<open>Journal\<close>, \<^verbatim>\<open>MqttHealth\<close> and \<^verbatim>\<open>Environment\<close> are the
  telemetry journal, the MQTT publisher with the host telemetry, and the configuration from the process
  environment. \<^verbatim>\<open>ServiceLoop\<close> is the main program \<^verbatim>\<open>base-rockpie/src/main.cpp\<close>: start-up, one turn
  as a composition of its phases, shut-down. Between two phases a schedule inserts any number of
  operations of the other threads (requests of the EMS, steps of the worker, broker callbacks), so its
  theorems hold for every interleaving at the granularity of the locks the code takes: a node command
  of the loop may fall between two transactions of a poll, and the copy of the samples waits while the
  worker holds them.

  \<^bold>\<open>Field node\<close> (\<^verbatim>\<open>node-esp32-evb\<close>). \<^verbatim>\<open>MbusNode\<close> is the register model with its CRC frames,
  \<^verbatim>\<open>EthernetServer\<close> the TCP control server, \<^verbatim>\<open>ProvisioningLine\<close> the serial line splitter,
  \<^verbatim>\<open>NodeFirmware\<close> the control core of the main program (command execution with its time to live, bus
  supervision, provisioning console, registers), \<^verbatim>\<open>CloudTelemetry\<close> the optional uplink. \<^verbatim>\<open>NodeMain\<close> is the
  whole program \<^verbatim>\<open>node-esp32-evb/src/main.cpp\<close>: \<^verbatim>\<open>setup\<close> and \<^verbatim>\<open>loop\<close> over the core, the uplink and the
  update service, with Ethernet events between any two statements; its runs (\<open>board_run\<close>) are turns,
  events and restarts in any order, and carry the upload events the update service received.

  \<^bold>\<open>Firmware update.\<close> \<^verbatim>\<open>Sha256\<close> is the streaming hash of the tool next to a definition of the
  standard; the locale \<open>hash_engine\<close> is what an update needs of a hash, interpreted for that class.
  \<^verbatim>\<open>EspOta\<close> is the upload handler of the node, whose own hash and flash writer are parameters with
  the locale \<open>ota_update\<close> as contract, \<^verbatim>\<open>OtaService\<close> the service around it (routes, loop, delayed
  restart), \<^verbatim>\<open>OtaApply\<close> the upload tool. \<^verbatim>\<open>UpdatePath\<close> joins both ends: the bytes of the tool, read by a
  reference decoder of HTTP and multipart, are an upload request of the node.

  \<^bold>\<open>Conventions.\<close> Objects are records, operations functions on them; what the operating system, the
  network, the clocks or a library answer is an argument, a state monad over an arbitrary world, or a
  record of results. An exception or a failed call is a value. A read loop that may block for ever is a
  partial function with values in \<open>option\<close>, and the theorems about it show that it returns; bounded
  loops are recursive functions with a termination proof. Only the JSON reader of the round trip takes
  fuel: the length of its input, of which every step consumes at least one character. Doubles, words
  and wrap-around clocks keep their width.

  \<^bold>\<open>What is shown.\<close> For the controller: every write of a tick is a watchdog refresh or a power command
  within the raw limits polled in that tick, a stale EMS stops the unit, the SOC window is never
  inverted on the way. For the service: without the three approvals nothing is ever written, and with
  them the writes of a turn are those of the tick and of an authorised operator request, bit for bit.
  For the networks: one command per change, framing and segmentation lose nothing, replies are matched
  to requests, a node's control surface is four registers for one address. For the node: power only for an enabled command within its time to live, zero afterwards,
  and no contact with a cloud broker whatever its store holds. For the update: over all runs only an
  image from an authorised upload whose digest matches becomes bootable, the hash is SHA-256, and an
  image the tool reports as sent is the one that boots. For the rest: bounded journal, verified TLS, JSON that reads back, configuration
  within bounds, a service that can be stopped wherever its worker is. The two theorems in this file follow one power register from the EMS through every
  component to the inverter and to a field device. Where the code falls short of its intent the theorem
  says so: a rejected node command leaves the output of the previous one running, invalid limits keep
  the last power command, a long update secret cannot be typed in, a new source address reaches the
  update service only with the next restart.

  \<^bold>\<open>Not modelled.\<close> Threads beyond the interleavings above, sleeps and signals; the libraries of the node
  (web server, flash writer, hash, MQTT client, peripheral drivers), which are parameters; log output
  that no state depends on; tests, scripts and service files.
\<close>

section \<open>Registers across components\<close>

lemma std_max_zero_cases:
  "dle (Fin 0) x \<Longrightarrow> std_max (Fin 0) x = x" "dle x (Fin 0) \<Longrightarrow> std_max (Fin 0) x = Fin 0"
  by (cases x; auto simp: std_max_def)+

lemma decode_tenths: "decodeSigned w (Fin 10) = rnd (of_int (sint w) / 10)"
  by (simp add: decodeSigned_def)

lemma register_mono:
  assumes "n \<le> m" "\<bar>n\<bar> \<le> 32768" "\<bar>m\<bar> \<le> 32768" shows "dle (rnd (of_int n / 10)) (rnd (of_int m / 10))"
  using assms by (intro tenths_mono) simp_all

text \<open>The limit the envelope takes from a register: the register in tenths, not below zero.\<close>

lemma envelope_limit: "std_max (Fin 0) (std_max (Fin 0) (decodeSigned w (Fin 10))) = rnd (of_int (max 0 (sint w)) / 10)"
proof -
  have "\<bar>sint w\<bar> \<le> 32768" using sint16_bounds [of w] by simp
  then show ?thesis
    using register_mono [of 0 "sint w"] register_mono [of "sint w" 0] std_max_zero_cases [of "rnd (of_int (sint w) / 10)"]
    by (cases "0 \<le> sint w") (auto simp: decode_tenths max_def rnd_def [of 0] std_max_zero_cases(1))
qed

text \<open>A power register, decoded, inside the limit registers of a poll passes the envelope unchanged.\<close>

lemma request_within_bounds:
  assumes "poll_complete r" "configuredLimit (ctl_config ctl) = \<lparr>cfgMaxChargeKw = None, cfgMaxDischargeKw = None\<rparr>"
    and "ctl_site ctl = \<lparr>siteLoadKw = None, contractLimitKw = None\<rparr>"
    and "- max 0 (sint (the (p_maxCharge r))) \<le> sint raw" "sint raw \<le> max 0 (sint (the (p_maxDischarge r)))"
    and "chargeProhibited (the (p_systemFlags r)) \<Longrightarrow> 0 \<le> sint raw" "dischargeProhibited (the (p_systemFlags r)) \<Longrightarrow> sint raw \<le> 0"
  shows "dle (lowerBoundKw (tick_input ctl (poll_value d r) e)) (decodeSigned raw (Fin 10))"
    and "dle (decodeSigned raw (Fin 10)) (upperBoundKw (tick_input ctl (poll_value d r) e))"
proof -
  define rc where "rc = max 0 (sint (the (p_maxCharge r)))"
  define rd where "rd = max 0 (sint (the (p_maxDischarge r)))"
  have b: "\<bar>rc\<bar> \<le> 32768" "\<bar>rd\<bar> \<le> 32768" "\<bar>sint raw\<bar> \<le> 32768"
    using sint16_bounds [of "the (p_maxCharge r)"] sint16_bounds [of "the (p_maxDischarge r)"] sint16_bounds [of raw]
    by (simp_all add: rc_def rd_def)
  have lo: "lowerBoundKw (tick_input ctl (poll_value d r) e) = (if chargeProhibited (the (p_systemFlags r)) then Fin 0 else rnd (of_int (- rc) / 10))"
    using assms(1-3) envelope_limit [of "the (p_maxCharge r)"] rnd_minus [of "of_int rc / 10"]
    by (simp add: lowerBoundKw_def tick_input_def poll_flags envelope_max_charge_def rc_def poll_value_def telemetry_of_def Let_def)
  have hi: "upperBoundKw (tick_input ctl (poll_value d r) e) = (if dischargeProhibited (the (p_systemFlags r)) then Fin 0 else rnd (of_int rd / 10))"
    using assms(1-3) envelope_limit [of "the (p_maxDischarge r)"]
    by (simp add: upperBoundKw_def tick_input_def poll_flags envelope_max_discharge_def rd_def poll_value_def telemetry_of_def Let_def)
  have z: "rnd (of_int 0 / 10) = Fin 0" by (simp add: rnd_def)
  have "- rc \<le> sint raw" "sint raw \<le> rd" using assms(4,5) by (simp_all add: rc_def rd_def)
  then show "dle (lowerBoundKw (tick_input ctl (poll_value d r) e)) (decodeSigned raw (Fin 10))"
    "dle (decodeSigned raw (Fin 10)) (upperBoundKw (tick_input ctl (poll_value d r) e))"
    using register_mono [of "- rc" "sint raw"] register_mono [of 0 "sint raw", unfolded z] register_mono [of "sint raw" rd]
      register_mono [of "sint raw" 0, unfolded z] b assms(6,7)
    unfolding lo hi decode_tenths by auto
qed

lemma envelope_register:
  assumes "poll_complete r" "controlReady (poll_value d r)" "limitsValid (poll_value d r)"
    and "- max 0 (sint (the (p_maxCharge r))) \<le> sint raw" "sint raw \<le> max 0 (sint (the (p_maxDischarge r)))"
    and "chargeProhibited (the (p_systemFlags r)) \<Longrightarrow> 0 \<le> sint raw" "dischargeProhibited (the (p_systemFlags r)) \<Longrightarrow> sint raw \<le> 0"
    and "configuredLimit (ctl_config ctl) = \<lparr>cfgMaxChargeKw = None, cfgMaxDischargeKw = None\<rparr>"
    and "ctl_site ctl = \<lparr>siteLoadKw = None, contractLimitKw = None\<rparr>" "ctl_requestedPowerKw ctl = decodeSigned raw (Fin 10) \<and> ems_connected ctl now"
    and "encodeSigned (appliedPowerKw (SafetyEnvelope_apply (tick_input ctl (poll_value d r) (ems_connected ctl now \<and> hb)))) (Fin 10) = Some raw'"
  shows "raw' = (if hb then raw else 0)"
proof -
  define i where "i = tick_input ctl (poll_value d r) hb"
  have e: "encodeSigned (appliedPowerKw (SafetyEnvelope_apply i)) (Fin 10) = Some raw'" using assms(10,11) by (simp add: i_def)
  show ?thesis
  proof (cases hb)
    case True
    then have "envelope_open i" using assms(2,3) poll_value_limits [of d r] by (simp add: envelope_open_def i_def tick_input_def)
    moreover have "dle (lowerBoundKw i) (decodeSigned raw (Fin 10))" "dle (decodeSigned raw (Fin 10)) (upperBoundKw i)"
      unfolding i_def by (auto intro!: request_within_bounds assms(1,4-9))
    moreover have "si_requestedPowerKw i = decodeSigned raw (Fin 10)" using assms(10) by (simp add: i_def tick_input_def)
    ultimately have "appliedPowerKw (SafetyEnvelope_apply i) = decodeSigned raw (Fin 10)" by (simp add: envelope_transparent)
    with e True encode_decode [of 10 raw] show ?thesis by simp
  next
    case False
    then have "appliedPowerKw (SafetyEnvelope_apply i) = Fin 0" by (simp add: SafetyEnvelope_apply_def i_def tick_input_def Let_def)
    with e False show ?thesis by simp
  qed
qed

section \<open>Properties\<close>


text \<open>The bench of theory \<^verbatim>\<open>ServiceLoop\<close>, whose EMS writes sequence 1, heartbeat 1, 20 kW, enabled.\<close>

definition ems_pdu :: "u8 list" where
  "ems_pdu = [0x10, 0, 0, 0, 4, 8, 0, 1, 0, 200, 0, 1, 0, 1]"

definition ems_schedule :: "nat \<Rightarrow> interference list" where
  "ems_schedule k = (if k = 0 then [EmsPdu ems_pdu] else [])"

lemma bench_bank: "sv_bank (interfere node_net (ems_schedule 0) (bench_start bench_environ)) = snd (handlePdu new_bank ems_pdu)"
  by (simp add: interfere_def ems_schedule_def bench_start_def service_start_def Let_def)

lemma ems_bank:
  "map (\<lambda>a. bk_holding (snd (handlePdu new_bank ems_pdu)) ! a) [0, 1, 2, 3] = [1, 200, 1, 1]"
  "bk_lastSequence (snd (handlePdu new_bank ems_pdu)) = 0"
  by code_simp+

lemma bench_gateway:
  "sv_pcs (bench_start bench_environ) = (healthy_bench, [])" "writesEnabled (sv_driver (bench_start bench_environ))"
  "ctl_config (sv_controller (bench_start bench_environ)) = default_config"
  by (simp_all add: bench_start_def service_start_def new_driver_def new_controller_def writesEnabled_def approval_writesEnabled_def
      commissioning_def envBool_def envString_def bench_environ_def controllerConfig_def envOptionalDouble_def default_config_def Let_def)


text \<open>A power register of the bank survives the conversion to kilowatts and back, and is always valid.\<close>

lemma node_request_exact:
  assumes "1 \<le> ttl" "ttl \<le> 30"
  shows "command_valid (decodeSigned raw (Fin 10)) ttl" "command_raw (decodeSigned raw (Fin 10)) = raw"
proof -
  have b: "\<bar>sint raw\<bar> \<le> 32768" "- 32768 \<le> sint raw" "sint raw \<le> 32767" using sint16_bounds [of raw] by simp_all
  have "dle (rnd (of_int (- 32768) / 10)) (decodeSigned raw (Fin 10))" "dle (decodeSigned raw (Fin 10)) (rnd (of_int 32767 / 10))"
    unfolding decode_tenths using b by (intro register_mono; simp)+
  then have "\<not> dlt (decodeSigned raw (Fin 10)) (rnd (- 32768 / 10))" "\<not> dlt (rnd (32767 / 10)) (decodeSigned raw (Fin 10))"
    by (cases "decodeSigned raw (Fin 10)"; cases "rnd (- 32768 / 10)"; cases "rnd (32767 / 10)"; simp)+
  then show "command_valid (decodeSigned raw (Fin 10)) ttl"
    using assms by (auto simp: command_valid_def not_less one_le_word)
  obtain v where v: "decodeSigned raw (Fin 10) = Fin v" "\<bar>v * 10 - of_int (sint raw)\<bar> \<le> 1 / 1000000"
    by (rule decodeSigned_close) auto
  have "\<bar>v * 10 - of_int (sint raw)\<bar> \<le> 2 / 5" using v(2) by linarith
  moreover have "\<bar>sint raw\<bar> \<le> 2 ^ 40" using b by simp
  ultimately obtain y where "rnd (v * 10) = Fin y" "sround y = sint raw" by (rule rnd_near_int)
  then show "command_raw (decodeSigned raw (Fin 10)) = raw" by (simp add: command_raw_def v(1) of_int_sint)
qed

text \<open>
  Property C12 (functional). A node command travels from the EMS to the field device unchanged: when the
  gateway's bank holds a new, authorised and enabled node command for a connected node with a time to
  live of 1 to 30 seconds, the service writes it over the TCP connection, however it is segmented,
  into the node's registers, and the next turn of the node's command handler hands the vendor driver
  exactly the power register the EMS wrote, once, and arms the command.
\<close>

theorem node_command_reaches_driver:
  assumes "bank_ok (sv_bank st)" "h = bk_holding (sv_bank st)" "h ! H_NodeCommandSequence \<noteq> bk_lastNodeCommandSequence (sv_bank st)"
    and "h ! H_NodeCommandApplyKey = OperatorApplyKeyValue" "h ! H_NodeCommandEnable = 1"
    and "1 \<le> h ! H_NodeCommandTtlSeconds" "h ! H_NodeCommandTtlSeconds \<le> 30"
    and "unat (h ! H_NodeCommandTargetSlot) < length (po_clients (sv_polling st))"
    and "po_clients (sv_polling st) ! unat (h ! H_NodeCommandTargetSlot) = (ep, pc)" "0 \<le> pc_socket pc"
    and "idle (sv_net st)" "ep_unitId ep = ec_unitId cfg" "node_ok (lp_server (sv_net st))"
    and "is_vendor (fw_driver fw)" "fw_lastCommandSequence fw \<noteq> h ! H_NodeCommandSequence"
  shows "let st' = node_phase (loop_net (eth_handle cfg)) st;
      fw' = applyCommand (recording_driver ops) now (fw\<lparr>fw_node := lp_server (sv_net st')\<rparr>)
    in driver_log snd (fw_driver fw') = driver_log snd (fw_driver fw) @ [h ! H_NodeRequestedPowerKwX10] \<and>
      fw_lastCommandSequence fw' = h ! H_NodeCommandSequence \<and> fw_lastCommandMs fw' = now"
proof -
  let ?raw = "h ! H_NodeRequestedPowerKwX10" and ?ttl = "h ! H_NodeCommandTtlSeconds" and ?seq = "h ! H_NodeCommandSequence"
  note valid = node_request_exact [OF assms(6,7), of ?raw]
  obtain sv' l' where a: "applyPowerCommand (loop_net (eth_handle cfg)) (unat (h ! H_NodeCommandTargetSlot)) (decodeSigned ?raw (Fin 10)) True ?seq ?ttl
      (sv_polling st, sv_net st) = (True, (sv', l'))" "node_ok (lp_server l')"
      "nd_registers (lp_server l') = overwrite (nd_registers (lp_server (sv_net st))) G_CommandSequence [?seq, ?raw, flag16 True, ?ttl]"
    using apply_over_node [OF assms(8,9) valid(1) assms(10-13), where enabled = True and sequence = ?seq] unfolding valid(2) by blast
  have net: "sv_net (node_phase (loop_net (eth_handle cfg)) st) = l'"
    using a(1) assms(1,3-5) unfolding assms(2) by (simp add: node_phase_def takeNodeCommand_def decodeSigned_def Let_def)
  define fw1 where "fw1 = fw\<lparr>fw_node := lp_server l'\<rparr>"
  have "length (nd_registers (lp_server (sv_net st))) = G_HoldingCount" using assms(13) by (simp add: node_ok_def)
  then have regs: "get_reg fw1 G_CommandSequence = ?seq" "get_reg fw1 G_RequestedPowerKwX10 = ?raw" "get_reg fw1 G_CommandEnable = 1"
      "get_reg fw1 G_CommandTtlSeconds = ?ttl"
    using a(3) by (simp_all add: get_reg_def registerValue_def fw1_def nth_overwrite flag16_def)
  have fw: "is_vendor (fw_driver fw1)" "fw_lastCommandSequence fw1 \<noteq> ?seq" "fw_driver fw1 = fw_driver fw" using assms(14,15) by (simp_all add: fw1_def)
  have acc: "fw_lastCommandMs (accept_command (recording_driver ops) now fw1) = now" "fw_lastCommandSequence (accept_command (recording_driver ops) now fw1) = ?seq"
    using regs(1) by (simp_all add: accept_command_def set_reg_def Let_def case_prod_beta)
  have "applyCommand (recording_driver ops) now fw1 = accept_command (recording_driver ops) now fw1"
    using fw(2) acc(1) unfolding applyCommand_def expire_command_def regs Let_def by simp
  then show ?thesis
    using drec.accept_log [OF fw(1), of ops now] acc assms(6,7) unfolding net Let_def fw1_def [symmetric] regs fw(3) by simp
qed

definition node_request_bank :: bank where
  "node_request_bank = snd (bank_writeHolding new_bank 11 [1, 0, 60, 1, 10, OperatorApplyKeyValue])"

definition bench_fleet :: "(bench \<times> reg_write list, mbus_node loop) service" where
  "bench_fleet = (bench_start bench_environ)\<lparr>sv_bank := node_request_bank, sv_polling := bench_polling, sv_net := node_loop\<rparr>"

lemma node_request_registers:
  "map (\<lambda>a. bk_holding node_request_bank ! a) [11, 12, 13, 14, 15, 16] = [1, 0, 60, 1, 10, OperatorApplyKeyValue]"
  "bk_lastNodeCommandSequence node_request_bank = 0" "bank_ok node_request_bank"
  by code_simp+

theorem node_command_reaches_driver_witness:
  "driver_log snd (fw_driver (applyCommand (recording_driver ack_driver) 7 ((boot_firmware (Vendor ((), [])))\<lparr>fw_node :=
     lp_server (sv_net (node_phase (loop_net (eth_handle \<lparr>ec_port = 1502, ec_unitId = 1, ec_rockPiAddress = 0\<rparr>)) bench_fleet))\<rparr>))) = [60]"
proof -
  have st: "sv_bank bench_fleet = node_request_bank" "sv_polling bench_fleet = bench_polling" "sv_net bench_fleet = node_loop"
    by (simp_all add: bench_fleet_def)
  show ?thesis
    using node_command_reaches_driver [of bench_fleet "bk_holding node_request_bank" "fst (po_clients bench_polling ! 0)" "snd (po_clients bench_polling ! 0)"
        "\<lparr>ec_port = 1502, ec_unitId = 1, ec_rockPiAddress = 0\<rparr>" "boot_firmware (Vendor ((), []))" ack_driver 7]
      node_request_registers node_loop_ok bench_polling_ok
    by (simp add: st Let_def boot_firmware_def)
qed

end
